(* ===== verification/Prelude.thy ===== *)
theory Prelude
  imports Main "HOL-Library.Word" "HOL-Library.While_Combinator" "HOL-Library.Char_ord"
begin

text \<open>
  What every component shares: bytes, the outcome of a Rust call, exact slicing, and the
  collections of simplification rules the component proofs draw on.

  \<^item> A call that can fail returns \<open>'a res\<close>. \<open>Inl (Err m)\<close> is the \<open>Err\<close> of an
    \<open>anyhow::Result\<close>, with the literal message of the source (format arguments left out);
    \<open>Inl (Panic m)\<close> is a panic, which \<open>?\<close>, \<open>match\<close> and \<open>if let Err\<close> do not catch.
  \<^item> \<open>usize\<close> is 64 bits wide. A length that the source only compares, halves or uses as an
    index into memory it already holds is a \<open>nat\<close>; a value whose bits matter is a word.
\<close>

named_theorems res_simps \<open>evaluation and inversion rules for the outcome type\<close>
named_theorems codec_simps \<open>decoding of what an encoder wrote, followed by other bytes\<close>

type_synonym byte = "8 word"
type_synonym u16 = "16 word"
type_synonym u32 = "32 word"
type_synonym u64 = "64 word"

section \<open>Outcomes\<close>

datatype failure = Err string | Panic string

type_synonym 'a res = "failure + 'a"

definition and_then :: "'e + 'a \<Rightarrow> ('a \<Rightarrow> 'e + 'b) \<Rightarrow> 'e + 'b" where
  "and_then m f = (case m of Inl e \<Rightarrow> Inl e | Inr x \<Rightarrow> f x)"

lemma and_then_simps [simp, res_simps]:
  "and_then (Inl e) f = Inl e"
  "and_then (Inr x) f = f x"
  by (simp_all add: and_then_def)

lemma and_then_Inr_iff [res_simps]:
  "and_then m f = Inr y \<longleftrightarrow> (\<exists>x. m = Inr x \<and> f x = Inr y)"
  by (cases m) simp_all

lemma and_then_Inl_iff:
  "and_then m f = Inl e \<longleftrightarrow> m = Inl e \<or> (\<exists>x. m = Inr x \<and> f x = Inl e)"
  by (cases m) simp_all

lemma and_then_cong [fundef_cong]:
  "m = m' \<Longrightarrow> (\<And>x. m' = Inr x \<Longrightarrow> f x = g x) \<Longrightarrow> and_then m f = and_then m' g"
  by (cases m') simp_all

lemma and_then_assoc: "and_then (and_then m f) g = and_then m (\<lambda>x. and_then (f x) g)"
  by (cases m) simp_all

text \<open>\<open>anyhow::Context::context\<close>: an \<open>Err\<close> gets a new outermost message, a panic passes.\<close>

fun with_context :: "string \<Rightarrow> 'a res \<Rightarrow> 'a res" where
  "with_context c (Inl (Err e)) = Inl (Err c)"
| "with_context c (Inl (Panic p)) = Inl (Panic p)"
| "with_context c (Inr x) = Inr x"

lemma with_context_Inr_iff [simp, res_simps]: "with_context c m = Inr x \<longleftrightarrow> m = Inr x"
  by (cases "(c, m)" rule: with_context.cases) simp_all

definition ok_or :: "string \<Rightarrow> 'a option \<Rightarrow> 'a res" where
  "ok_or e x = (case x of None \<Rightarrow> Inl (Err e) | Some y \<Rightarrow> Inr y)"

lemma ok_or_simps [simp, res_simps]:
  "ok_or e None = Inl (Err e)"
  "ok_or e (Some y) = Inr y"
  by (simp_all add: ok_or_def)

lemma ok_or_Inr_iff [simp, res_simps]: "ok_or e x = Inr y \<longleftrightarrow> x = Some y"
  by (cases x) simp_all

definition bail_unless :: "bool \<Rightarrow> string \<Rightarrow> unit res" where
  "bail_unless b e = (if b then Inr () else Inl (Err e))"

lemma bail_unless_simps [simp, res_simps]:
  "bail_unless True e = Inr ()"
  "bail_unless False e = Inl (Err e)"
  by (simp_all add: bail_unless_def)

lemma bail_unless_Inr_iff [simp, res_simps]: "bail_unless b e = Inr u \<longleftrightarrow> b"
  by (simp add: bail_unless_def)

definition is_ok :: "'e + 'a \<Rightarrow> bool" where
  "is_ok m = (case m of Inl _ \<Rightarrow> False | Inr _ \<Rightarrow> True)"

lemma is_ok_simps [simp]: "is_ok (Inl e) = False" "is_ok (Inr x) = True"
  by (simp_all add: is_ok_def)

lemma is_ok_iff: "is_ok m \<longleftrightarrow> (\<exists>x. m = Inr x)"
  by (cases m) simp_all

text \<open>\<open>iter().map(f).collect::<Result<Vec<_>>>()\<close>: the first failure wins.\<close>

fun traverse :: "('a \<Rightarrow> 'e + 'b) \<Rightarrow> 'a list \<Rightarrow> 'e + 'b list" where
  "traverse f [] = Inr []"
| "traverse f (x # xs) = and_then (f x) (\<lambda>y. and_then (traverse f xs) (\<lambda>ys. Inr (y # ys)))"

lemma traverse_Inr: "(\<And>x. x \<in> set xs \<Longrightarrow> f x = Inr (g x)) \<Longrightarrow> traverse f xs = Inr (map g xs)"
  by (induction xs) auto

lemma traverse_map: "traverse f (map g xs) = traverse (f \<circ> g) xs"
  by (induction xs) auto

text \<open>A call that does not panic, whatever it returns.\<close>

named_theorems calm_intros \<open>introduction rules for calls that do not panic\<close>

definition calm :: "'a res \<Rightarrow> bool" where
  "calm m \<longleftrightarrow> (\<forall>p. m \<noteq> Inl (Panic p))"

lemma calm_basic [simp, calm_intros]:
  "calm (Inr x)" "calm (Inl (Err e))" "calm (bail_unless b e)" "calm (ok_or e y)"
  by (auto simp: calm_def bail_unless_def ok_or_def split: option.split)

lemma calm_Panic [simp]: "\<not> calm (Inl (Panic p))"
  by (simp add: calm_def)

lemma calm_and_then [calm_intros]: "calm m \<Longrightarrow> (\<And>x. m = Inr x \<Longrightarrow> calm (f x)) \<Longrightarrow> calm (and_then m f)"
  by (cases m) (simp_all add: calm_def)

lemma calm_with_context [calm_intros]: "calm m \<Longrightarrow> calm (with_context c m)"
  by (cases "(c, m)" rule: with_context.cases) (simp_all add: calm_def)

lemma calm_cases [calm_intros]:
  "(b \<Longrightarrow> calm m) \<Longrightarrow> (\<not> b \<Longrightarrow> calm m') \<Longrightarrow> calm (if b then m else m')"
  "(\<And>x y. p = (x, y) \<Longrightarrow> calm (f x y)) \<Longrightarrow> calm (case p of (x, y) \<Rightarrow> f x y)"
  "(o' = None \<Longrightarrow> calm m) \<Longrightarrow> (\<And>z. o' = Some z \<Longrightarrow> calm (g z)) \<Longrightarrow>
     calm (case o' of None \<Rightarrow> m | Some z \<Rightarrow> g z)"
  by (simp_all split: prod.split option.split)

section \<open>Slices\<close>

text \<open>\<open>&xs[a..b]\<close>: out of range panics.\<close>

definition slice :: "'a list \<Rightarrow> nat \<Rightarrow> nat \<Rightarrow> 'a list res" where
  "slice xs a b =
     (if a \<le> b \<and> b \<le> length xs then Inr (take (b - a) (drop a xs))
      else Inl (Panic ''range out of bounds''))"

lemma slice_ok [simp]: "a \<le> b \<Longrightarrow> b \<le> length xs \<Longrightarrow> slice xs a b = Inr (take (b - a) (drop a xs))"
  by (simp add: slice_def)

lemma slice_Inr_iff [res_simps]:
  "slice xs a b = Inr ys \<longleftrightarrow> a \<le> b \<and> b \<le> length xs \<and> ys = take (b - a) (drop a xs)"
  by (auto simp: slice_def)

text \<open>\<open>xs[i]\<close>: out of range panics.\<close>

definition at :: "'a list \<Rightarrow> nat \<Rightarrow> 'a res" where
  "at xs i = (if i < length xs then Inr (xs ! i) else Inl (Panic ''index out of bounds''))"

lemma at_ok [simp]: "i < length xs \<Longrightarrow> at xs i = Inr (xs ! i)"
  by (simp add: at_def)

lemma at_Inr_iff [res_simps]: "at xs i = Inr x \<longleftrightarrow> i < length xs \<and> x = xs ! i"
  by (auto simp: at_def)

text \<open>\<open>xs.get(i)\<close>.\<close>

definition get :: "'a list \<Rightarrow> nat \<Rightarrow> 'a option" where
  "get xs i = (if i < length xs then Some (xs ! i) else None)"

lemma get_simps [simp]:
  "i < length xs \<Longrightarrow> get xs i = Some (xs ! i)"
  "length xs \<le> i \<Longrightarrow> get xs i = None"
  by (simp_all add: get_def)

lemma get_Some_iff: "get xs i = Some x \<longleftrightarrow> i < length xs \<and> x = xs ! i"
  by (auto simp: get_def)

text \<open>\<open>read_exact\<close> of n bytes from a cursor: the bytes and what is left.\<close>

definition take_exact :: "nat \<Rightarrow> 'a list \<Rightarrow> ('a list \<times> 'a list) option" where
  "take_exact n xs = (if n \<le> length xs then Some (take n xs, drop n xs) else None)"

lemma take_exact_append [simp, codec_simps]:
  "length xs = n \<Longrightarrow> take_exact n (xs @ ys) = Some (xs, ys)"
  by (simp add: take_exact_def)

lemma take_exact_Some_iff:
  "take_exact n xs = Some (a, b) \<longleftrightarrow> xs = a @ b \<and> length a = n"
  by (auto simp: take_exact_def)

section \<open>Halving\<close>

lemma div_pow_Suc: "(n::nat) div 2 ^ Suc k = n div 2 ^ k div 2"
  by (metis div_mult2_eq power_Suc2)

lemma div_div_pow: "(n::nat) div 2 div 2 ^ k = n div 2 ^ Suc k"
  by (simp add: div_mult2_eq)

lemma bit_iff_odd_div: "bit (n::nat) k \<longleftrightarrow> odd (n div 2 ^ k)"
  by (simp add: bit_iff_odd)

section \<open>Words\<close>

lemma unat_bound: "unat (w :: 'a::len word) < 2 ^ LENGTH('a)"
  by (rule unsigned_less)

lemma unat_byte: "unat (b :: byte) < 256"
  using unat_bound [of b] by simp

lemma unat_of_nat_small: "n < 2 ^ LENGTH('a) \<Longrightarrow> unat (of_nat n :: 'a::len word) = n"
  by (simp add: unat_of_nat)

section \<open>Machine limits\<close>

text \<open>\<open>isize::MAX\<close>, the most bytes one allocation can have; \<open>vec![0; n]\<close> and
  \<open>Vec::with_capacity(n)\<close> panic with \<open>capacity overflow\<close> above it.\<close>

definition isize_max :: nat where
  "isize_max = 2 ^ 63 - 1"

lemma isize_max_less: "n \<le> isize_max \<Longrightarrow> n < 2 ^ 64"
  by (simp add: isize_max_def)

definition alloc :: "nat \<Rightarrow> nat \<Rightarrow> unit res" where
  "alloc elem_size n =
     (if elem_size * n \<le> isize_max then Inr () else Inl (Panic ''capacity overflow''))"

lemma alloc_ok [simp, res_simps]: "s * n \<le> isize_max \<Longrightarrow> alloc s n = Inr ()"
  by (simp add: alloc_def)

lemma alloc_Inr_iff [simp, res_simps]: "alloc s n = Inr u \<longleftrightarrow> s * n \<le> isize_max"
  by (simp add: alloc_def)

end
