(* ===== verification/Shrubs.thy ===== *)
theory Shrubs
  imports Prelude
begin

text \<open>
  The shrubs accumulator of \<^verbatim>\<open>hydra-toolkit/src/shurbstree.rs\<close>: the root list built from
  scratch (\<open>create_batch_devices\<close>) and the incremental insertion of a batch
  (\<open>exponents_of_two\<close>, \<open>insert_shrubs_tree\<close>, \<open>insert_batch_devices\<close>). The 2-to-1 Poseidon
  hash is the parameter \<open>h\<close>.

  The abstract view is the list of rows: \<open>row h k xs\<close> is the k-th row of the hash tree
  over the leaves \<open>xs\<close>, of \<open>length xs div 2 ^ k\<close> nodes, and entry k of the root list is the
  last left child (the last even position) of row k.
\<close>

unbundle bit_operations_syntax

section \<open>Building the root list\<close>

text \<open>\<open>par_chunks_exact(2)\<close> and \<open>par_chunks(2).filter(len == 2)\<close>, hashed in order.\<close>

fun hash_pairs :: "('f \<Rightarrow> 'f \<Rightarrow> 'f) \<Rightarrow> 'f list \<Rightarrow> 'f list" where
  "hash_pairs h (a # b # xs) = h a b # hash_pairs h xs"
| "hash_pairs h [x] = []"
| "hash_pairs h [] = []"

lemma length_hash_pairs [simp]: "length (hash_pairs h xs) = length xs div 2"
  by (induction h xs rule: hash_pairs.induct) auto

lemma hash_pairs_eq_Nil_iff: "hash_pairs h xs = [] \<longleftrightarrow> length xs < 2"
  by (cases "(h, xs)" rule: hash_pairs.cases) auto

text \<open>\<open>if len.is_multiple_of(2) { len - 2 } else { len - 1 }\<close>, for a non-empty row.\<close>

definition last_left :: "nat \<Rightarrow> nat" where
  "last_left n = (if even n then n - 2 else n - 1)"

lemma last_left_eq: "0 < n \<Longrightarrow> last_left n = 2 * ((n - 1) div 2)"
  by (auto simp: last_left_def elim!: evenE oddE)

lemma last_left_less [simp]: "0 < n \<Longrightarrow> last_left n < n"
  by (auto simp: last_left_def)

lemma even_last_left [simp]: "0 < n \<Longrightarrow> even (last_left n)"
  by (simp add: last_left_eq)

function create_batch_devices :: "('f \<Rightarrow> 'f \<Rightarrow> 'f) \<Rightarrow> 'f list \<Rightarrow> 'f list \<Rightarrow> 'f list" where
  "create_batch_devices h root leaves =
     (let len = length leaves in
      if len = 0 then root
      else
        let temp = hash_pairs h leaves;
            last_i = last_left len;
            root' = root @ [leaves ! last_i]
        in if temp \<noteq> [] then create_batch_devices h root' temp else root')"
  by pat_completeness auto
termination
  by (relation "measure (\<lambda>(h, root, leaves). length leaves)") auto

declare create_batch_devices.simps [simp del]

text \<open>The root list of a tree, from an empty root vector.\<close>

definition shrubs_roots :: "('f \<Rightarrow> 'f \<Rightarrow> 'f) \<Rightarrow> 'f list \<Rightarrow> 'f list" where
  "shrubs_roots h leaves = create_batch_devices h [] leaves"

section \<open>Rows\<close>

primrec row :: "('f \<Rightarrow> 'f \<Rightarrow> 'f) \<Rightarrow> nat \<Rightarrow> 'f list \<Rightarrow> 'f list" where
  "row h 0 xs = xs"
| "row h (Suc k) xs = hash_pairs h (row h k xs)"

lemma length_row [simp]: "length (row h k xs) = length xs div 2 ^ k"
  by (induction k) (simp_all del: power_Suc add: div_pow_Suc)

lemma row_empty_iff [simp]: "row h k xs = [] \<longleftrightarrow> length xs < 2 ^ k"
proof -
  have "row h k xs = [] \<longleftrightarrow> length xs div 2 ^ k = 0" by (metis length_0_conv length_row)
  then show ?thesis by (simp add: div_eq_0_iff)
qed

lemma row_hash_pairs: "row h k (hash_pairs h xs) = row h (Suc k) xs"
  by (induction k) simp_all

lemma row_row: "row h j (row h k xs) = row h (j + k) xs"
  by (induction j) simp_all

lemma hash_pairs_nth:
  "i < length xs div 2 \<Longrightarrow> hash_pairs h xs ! i = h (xs ! (2 * i)) (xs ! (2 * i + 1))"
proof (induction h xs arbitrary: i rule: hash_pairs.induct)
  case (1 h a b xs)
  then show ?case by (cases i) auto
qed auto

lemma row_Suc_nth:
  "i < length xs div 2 ^ Suc k \<Longrightarrow>
   row h (Suc k) xs ! i = h (row h k xs ! (2 * i)) (row h k xs ! (2 * i + 1))"
  by (simp del: power_Suc add: hash_pairs_nth div_pow_Suc)

lemma hash_pairs_drop: "hash_pairs h (drop (2 * j) xs) = drop j (hash_pairs h xs)"
proof (induction h xs arbitrary: j rule: hash_pairs.induct)
  case (1 h a b xs)
  then show ?case by (cases j) auto
next
  case (2 h x)
  then show ?case by (cases j) auto
qed auto

lemma hash_pairs_take: "hash_pairs h (take (2 * j) xs) = take j (hash_pairs h xs)"
proof (induction h xs arbitrary: j rule: hash_pairs.induct)
  case (1 h a b xs)
  then show ?case by (cases j) auto
next
  case (2 h x)
  then show ?case by (cases j) auto
qed auto

text \<open>Appending leaves leaves every complete node of the old rows in place.\<close>

lemma row_append: "row h k xs = take (length xs div 2 ^ k) (row h k (xs @ ys))"
proof (induction k)
  case 0
  then show ?case by simp
next
  case (Suc k)
  let ?m = "length xs div 2 ^ k"
  have "hash_pairs h (take ?m (row h k (xs @ ys))) = take (?m div 2) (row h (Suc k) (xs @ ys))"
  proof (cases "even ?m")
    case True
    then show ?thesis using hash_pairs_take [of h "?m div 2"] by simp
  next
    case False
    then obtain q where q: "?m = Suc (2 * q)" by (auto elim: oddE)
    have "length xs div 2 ^ k \<le> length (row h k (xs @ ys))" by (simp add: div_le_mono)
    then have 1: "2 * q < length (row h k (xs @ ys))" using q by simp
    have "hash_pairs h (take (Suc (2 * q)) (row h k (xs @ ys))) =
          hash_pairs h (take (2 * q) (row h k (xs @ ys)) @ [row h k (xs @ ys) ! (2 * q)])"
      using 1 by (simp add: take_Suc_conv_app_nth)
    also have "\<dots> = hash_pairs h (take (2 * q) (row h k (xs @ ys)))"
    proof -
      have "even (length zs) \<Longrightarrow> hash_pairs h (zs @ [z]) = hash_pairs h zs" for zs z
        by (induction h zs rule: hash_pairs.induct) auto
      moreover have "even (length (take (2 * q) (row h k (xs @ ys))))" using 1 by simp
      ultimately show ?thesis by blast
    qed
    finally show ?thesis using q hash_pairs_take [of h q] by simp
  qed
  with Suc show ?case by (simp del: power_Suc add: div_pow_Suc)
qed

lemma row_append_nth:
  assumes "i < length xs div 2 ^ k"
  shows "row h k (xs @ ys) ! i = row h k xs ! i"
  using assms by (metis row_append nth_take)

lemma row_append_same:
  assumes "length (xs @ ys) div 2 ^ k = length xs div 2 ^ k"
  shows "row h k (xs @ ys) = row h k xs"
  using row_append [of h k xs ys] assms by (metis length_row order_refl take_all)

section \<open>The root list over the rows\<close>

lemma create_batch_append:
  "create_batch_devices h root leaves = root @ create_batch_devices h [] leaves"
proof (induction "length leaves" arbitrary: root leaves rule: less_induct)
  case less
  let ?x = "leaves ! last_left (length leaves)"
  show ?case
  proof (cases "leaves = [] \<or> hash_pairs h leaves = []")
    case True
    then show ?thesis by (auto simp: create_batch_devices.simps [of _ _ leaves] Let_def)
  next
    case False
    then have "length (hash_pairs h leaves) < length leaves" by simp
    then have "create_batch_devices h root' (hash_pairs h leaves) =
        root' @ create_batch_devices h [] (hash_pairs h leaves)" for root'
      by (rule less)
    from this [of "root @ [?x]"] this [of "[?x]"] False show ?thesis
      by (simp add: create_batch_devices.simps [of _ _ leaves] Let_def)
  qed
qed

lemma shrubs_roots_Nil [simp]: "shrubs_roots h [] = []"
  by (simp add: shrubs_roots_def create_batch_devices.simps)

lemma shrubs_roots_rec:
  "xs \<noteq> [] \<Longrightarrow>
   shrubs_roots h xs = xs ! last_left (length xs) # shrubs_roots h (hash_pairs h xs)"
  unfolding shrubs_roots_def
  by (subst create_batch_devices.simps)
     (auto simp: Let_def create_batch_append [of h "[_]"] create_batch_devices.simps [of _ _ "[]"])

lemma shrubs_roots_row: "drop k (shrubs_roots h xs) = shrubs_roots h (row h k xs)"
proof (induction k arbitrary: xs)
  case (Suc k)
  show ?case
  proof (cases "xs = []")
    case True
    moreover have "row h j [] = []" for j by simp
    ultimately show ?thesis by (simp del: row.simps row_empty_iff)
  next
    case False
    then show ?thesis using Suc by (simp add: shrubs_roots_rec row_hash_pairs)
  qed
qed simp

lemma shrubs_roots_empty_iff [simp]: "shrubs_roots h xs = [] \<longleftrightarrow> xs = []"
  using shrubs_roots_rec [of xs h] by (cases xs) auto

lemma length_shrubs_roots: "k < length (shrubs_roots h xs) \<longleftrightarrow> 2 ^ k \<le> length xs"
proof -
  have "k < length (shrubs_roots h xs) \<longleftrightarrow> drop k (shrubs_roots h xs) \<noteq> []" by auto
  also have "\<dots> \<longleftrightarrow> 2 ^ k \<le> length xs" by (simp add: shrubs_roots_row not_less)
  finally show ?thesis .
qed

lemma shrubs_roots_nth:
  assumes "2 ^ k \<le> length xs"
  shows "shrubs_roots h xs ! k = row h k xs ! last_left (length xs div 2 ^ k)"
proof -
  have k: "k < length (shrubs_roots h xs)" using assms by (simp add: length_shrubs_roots)
  have ne: "row h k xs \<noteq> []"
    using assms by simp
  have "shrubs_roots h xs ! k = hd (drop k (shrubs_roots h xs))" using k by (simp add: hd_drop_conv_nth)
  also have "\<dots> = hd (shrubs_roots h (row h k xs))" by (simp add: shrubs_roots_row)
  also have "\<dots> = row h k xs ! last_left (length xs div 2 ^ k)"
    using ne by (simp del: row_empty_iff add: shrubs_roots_rec)
  finally show ?thesis .
qed

section \<open>Powers of two in the leaf count\<close>

text \<open>\<open>u64::trailing_zeros\<close>; 64 for zero.\<close>

definition trailing_zeros :: "u64 \<Rightarrow> nat" where
  "trailing_zeros x = length (takeWhile (\<lambda>i. \<not> bit x i) [0..<64])"

lemma clear_lowest_bit_less:
  assumes "x \<noteq> 0"
  shows "unat (x AND (x - 1)) < unat (x :: u64)"
proof -
  have "x AND (x - 1) \<le> x - 1" by (rule word_and_le1)
  moreover have "unat (x - 1) = unat x - 1" using assms by (rule unat_minus_one)
  moreover have "0 < unat x" using assms by (simp add: unat_gt_0)
  ultimately show ?thesis by (simp add: word_le_nat_alt)
qed

lemma clear_lowest_bit:
  fixes x :: u64
  assumes t: "bit x t" and low: "\<And>i. i < t \<Longrightarrow> \<not> bit x i"
  shows "bit (x AND (x - 1)) i \<longleftrightarrow> bit x i \<and> i \<noteq> t"
proof -
  have t64: "t < 64" using bit_imp_le_length [OF t] by simp
  define b :: u64 where "b = 2 ^ t"
  define y where "y = x AND NOT b"
  have bb: "bit b i \<longleftrightarrow> i = t" for i using t64 by (auto simp: b_def bit_exp_iff)
  have y: "bit y i \<longleftrightarrow> bit x i \<and> i \<noteq> t" for i
    by (auto simp: y_def bit_and_iff bit_not_iff bb dest: bit_imp_le_length)
  have "y AND b = 0" by (rule bit_eqI) (auto simp: bit_and_iff y bb)
  moreover have "y OR b = x" by (rule bit_eqI) (use t in \<open>auto simp: bit_or_iff y bb\<close>)
  ultimately have "x = y + b" by (simp add: disjunctive_add_eq_or)
  then have "x - 1 = y + mask t" by (simp add: b_def mask_eq_exp_minus_1)
  moreover have "y AND mask t = 0"
    by (rule bit_eqI) (auto simp: bit_and_iff y bit_mask_iff low)
  ultimately have "x - 1 = y OR mask t" by (simp add: disjunctive_add_eq_or)
  then show ?thesis
    using low by (auto simp: bit_and_iff bit_or_iff y bit_mask_iff)
qed

function exponents_loop :: "u64 \<Rightarrow> int list \<Rightarrow> int list" where
  "exponents_loop x exps =
     (if x \<noteq> 0 then exponents_loop (x AND (x - 1)) (exps @ [int (trailing_zeros x)]) else exps)"
  by pat_completeness auto
termination
  by (relation "measure (\<lambda>(x, exps). unat x)") (auto simp: clear_lowest_bit_less)

declare exponents_loop.simps [simp del]

definition exponents_of_two :: "u64 \<Rightarrow> int list" where
  "exponents_of_two x = exponents_loop x []"

lemma filter_upt_least:
  assumes "t < n" "P t" "\<And>i. i < t \<Longrightarrow> \<not> P i"
  shows "filter P [0..<n] = t # filter (\<lambda>i. P i \<and> i \<noteq> t) [0..<n]"
proof -
  have split: "[0..<n] = [0..<t] @ t # [Suc t..<n]"
    using assms(1) upt_add_eq_append [of 0 t "n - t"] by (simp add: upt_conv_Cons)
  have "filter P [Suc t..<n] = filter (\<lambda>i. P i \<and> i \<noteq> t) [Suc t..<n]"
    by (rule filter_cong) auto
  then show ?thesis using assms(2,3) by (simp add: split)
qed

lemma trailing_zeros_spec:
  assumes "x \<noteq> 0"
  shows "trailing_zeros x < 64" "bit x (trailing_zeros x)" "i < trailing_zeros x \<Longrightarrow> \<not> bit x i"
proof -
  let ?P = "\<lambda>i. \<not> bit x i"
  obtain j where j: "bit x j" using assms by (metis bit_0_eq bot_apply bot_bool_def bit_eqI)
  then have "j < 64" using bit_imp_le_length by fastforce
  then have "takeWhile ?P [0..<64] \<noteq> [0..<64]" using j by (auto simp: takeWhile_eq_all_conv)
  then have len: "length (takeWhile ?P [0..<64]) < length [0..<64::nat]"
    by (metis length_takeWhile_le nat_less_le takeWhile_eq_take take_all_iff order_refl)
  then show "trailing_zeros x < 64" by (simp add: trailing_zeros_def)
  show "bit x (trailing_zeros x)"
    using nth_length_takeWhile [OF len] len by (simp add: trailing_zeros_def)
  show "\<not> bit x i" if "i < trailing_zeros x"
  proof -
    have i: "i < length (takeWhile ?P [0..<64])" using that by (simp add: trailing_zeros_def)
    then have "takeWhile ?P [0..<64] ! i = i" using len by (simp add: takeWhile_nth)
    then show ?thesis using nth_mem [OF i] set_takeWhileD [of _ ?P] by metis
  qed
qed

lemma exponents_loop_eq: "exponents_loop x exps = exps @ map int (filter (bit x) [0..<64])"
proof (induction x exps rule: exponents_loop.induct)
  case (1 x exps)
  show ?case
  proof (cases "x = 0")
    case True
    then show ?thesis by (simp add: exponents_loop.simps)
  next
    case False
    note t = trailing_zeros_spec [OF False]
    have "bit (x AND (x - 1)) = (\<lambda>i. bit x i \<and> i \<noteq> trailing_zeros x)"
      by (rule ext) (rule clear_lowest_bit [OF t(2) t(3)])
    then have "filter (bit x) [0..<64] =
        trailing_zeros x # filter (bit (x AND (x - 1))) [0..<64]"
      using filter_upt_least [of "trailing_zeros x" 64 "bit x"] t by simp
    then show ?thesis
      using False 1 by (subst exponents_loop.simps) simp
  qed
qed

lemma exponents_of_two_eq: "exponents_of_two x = map int (filter (bit x) [0..<64])"
  by (simp add: exponents_of_two_def exponents_loop_eq)

section \<open>Inserting a batch\<close>

text \<open>
  \<open>t_root\<close> is the vector the code updates in place, returned here. \<open>k\<close> starts at -1, so
  \<open>k + 1\<close> is the level of \<open>vect\<close>. The panics are the assertion, the two indexed reads and
  the subtraction on an empty \<open>vect\<close>.
\<close>

function insert_shrubs_tree ::
  "('f \<Rightarrow> 'f \<Rightarrow> 'f) \<Rightarrow> 'f list \<Rightarrow> 'f list \<Rightarrow> int \<Rightarrow> int list \<Rightarrow> nat \<Rightarrow> 'f list res" where
  "insert_shrubs_tree h t_root vect k exps ll =
     (let should_insert_root = (ll < length exps \<and> k + 2 = exps ! ll) in
      and_then
        (if should_insert_root then
           if k + 2 < 0 then Inl (Panic ''k + 2 must be non-negative'')
           else and_then (at t_root (nat (k + 2))) (\<lambda>r. Inr [r])
         else Inr [])
        (\<lambda>carried.
          let ll' = (if should_insert_root then ll + 1 else ll);
              temp = carried @ hash_pairs h vect
          in if vect = [] then Inl (Panic ''attempt to subtract with overflow'')
             else
               let last_i = last_left (length vect);
                   k' = k + 1;
                   t_root' = (if 0 \<le> k' \<and> nat k' < length t_root
                              then t_root[nat k' := vect ! last_i]
                              else t_root @ [vect ! last_i])
               in if temp \<noteq> [] then insert_shrubs_tree h t_root' temp k' exps ll'
                  else Inr t_root'))"
  by pat_completeness auto
termination
  by (relation "measures [\<lambda>(h, t, v, k, exps, ll). length exps - ll,
                          \<lambda>(h, t, v, k, exps, ll). length v]")
     (auto split: if_splits)

declare insert_shrubs_tree.simps [simp del]

text \<open>
  \<open>insert_batch_devices\<close> (hydra-toolkit/src/lib.rs) returns the updated root vector and what is
  left in \<open>new_leaves\<close>: \<open>append\<close> drains it when the old leaf count is odd.
\<close>

definition insert_batch_devices ::
  "('f \<Rightarrow> 'f \<Rightarrow> 'f) \<Rightarrow> 'f list \<Rightarrow> 'f list \<Rightarrow> 'f list \<Rightarrow> ('f list \<times> 'f list) res" where
  "insert_batch_devices h root old_leaves new_leaves =
     (let exps = exponents_of_two (of_nat (length old_leaves)) in
      and_then (at exps 0) (\<lambda>e.
        if e = 0 then
          and_then (at root 0) (\<lambda>r.
            and_then (insert_shrubs_tree h root (r # new_leaves) (- 1) exps (0 + 1)) (\<lambda>root'.
              Inr (root', [])))
        else
          and_then (insert_shrubs_tree h root new_leaves (- 1) exps 0) (\<lambda>root'.
            Inr (root', new_leaves))))"

lemma exponents_suffix:
  assumes "m < 2 ^ 64"
  shows "exponents_of_two (of_nat m) = map int (filter (\<lambda>i. odd (m div 2 ^ i)) [0..<64])"
proof -
  have "bit (of_nat m :: u64) i \<longleftrightarrow> odd (m div 2 ^ i)" if "i < 64" for i
    using that by (simp add: bit_of_nat_iff bit_iff_odd_div)
  then show ?thesis
    by (auto simp: exponents_of_two_eq intro!: filter_cong arg_cong [where f = "map int"])
qed

text \<open>The positions the recursion still has to look at, from level j on.\<close>

definition set_bits_from :: "nat \<Rightarrow> nat \<Rightarrow> int list" where
  "set_bits_from m j = map int (filter (\<lambda>i. odd (m div 2 ^ i)) [j..<64])"

lemma set_bits_from_step:
  "set_bits_from m j =
     (if odd (m div 2 ^ j) \<and> j < 64 then int j # set_bits_from m (Suc j)
      else set_bits_from m (Suc j))"
  by (simp add: set_bits_from_def upt_rec [of j])

lemma set_bits_from_hd: "set_bits_from m j = int i # es \<Longrightarrow> j \<le> i"
proof -
  assume "set_bits_from m j = int i # es"
  then have "int i \<in> set (set_bits_from m j)" by simp
  then show ?thesis by (auto simp: set_bits_from_def)
qed

lemma bits_below_64: "m < 2 ^ 64 \<Longrightarrow> odd (m div 2 ^ j) \<Longrightarrow> j < 64" for m j :: nat
proof (rule ccontr)
  assume "m < 2 ^ 64" "odd (m div 2 ^ j)" "\<not> j < 64"
  then have "m < 2 ^ j" by (metis linorder_not_less order.strict_trans2 one_le_numeral power_increasing)
  then show False using \<open>odd (m div 2 ^ j)\<close> by simp
qed

text \<open>The next exponent is the current level exactly when the bit of that level is set.\<close>

lemma next_exponent_iff:
  assumes "drop ll exps = set_bits_from m j" "m < 2 ^ 64"
  shows "ll < length exps \<and> int j = exps ! ll \<longleftrightarrow> odd (m div 2 ^ j)"
    and "odd (m div 2 ^ j) \<Longrightarrow> drop (Suc ll) exps = set_bits_from m (Suc j)"
    and "even (m div 2 ^ j) \<Longrightarrow> drop ll exps = set_bits_from m (Suc j)"
proof -
  show *: "odd (m div 2 ^ j) \<Longrightarrow> drop (Suc ll) exps = set_bits_from m (Suc j)"
    using assms bits_below_64 [of m j] set_bits_from_step [of m j]
    by (simp add: drop_Suc tl_drop [symmetric])
  show "even (m div 2 ^ j) \<Longrightarrow> drop ll exps = set_bits_from m (Suc j)"
    using assms set_bits_from_step [of m j] by simp
  show "ll < length exps \<and> int j = exps ! ll \<longleftrightarrow> odd (m div 2 ^ j)"
  proof
    assume l: "ll < length exps \<and> int j = exps ! ll"
    then have "drop ll exps = int j # drop (Suc ll) exps" by (simp add: Cons_nth_drop_Suc)
    then show "odd (m div 2 ^ j)"
      using assms(1) set_bits_from_step [of m j] set_bits_from_hd [of m "Suc j" j] by fastforce
  next
    assume o: "odd (m div 2 ^ j)"
    then have "drop ll exps = int j # set_bits_from m (Suc j)"
      using assms bits_below_64 [of m j] set_bits_from_step [of m j] by simp
    then show "ll < length exps \<and> int j = exps ! ll"
      by (metis drop_all linorder_not_less list.discI nth_via_drop)
  qed
qed

section \<open>Insertion computes the root list of all leaves\<close>

lemma last_left_shift: "2 * c < n \<Longrightarrow> 2 * c + last_left (n - 2 * c) = last_left n"
  by (auto simp: last_left_def)

lemma last_left_odd: "odd c \<Longrightarrow> last_left c = c - 1"
  by (simp add: last_left_def)

text \<open>The update of one root entry: overwrite while the vector is long enough, else push.\<close>

lemma replace_or_push:
  assumes L: "L < length zr" and x: "x = zr ! L"
    and t: "t = take L zr @ drop L xr"
  shows "(if L < length t then t[L := x] else t @ [x]) = take (Suc L) zr @ drop (Suc L) xr"
proof (cases "L < length xr")
  case True
  then have "drop L xr = xr ! L # drop (Suc L) xr" by (simp add: Cons_nth_drop_Suc)
  then show ?thesis using True L x t by (simp add: take_Suc_conv_app_nth list_update_append)
next
  case False
  then show ?thesis using L x t by (simp add: take_Suc_conv_app_nth)
qed

text \<open>The nodes handed to the next level: the last old node when the row was odd, then the
  parents of the current nodes.\<close>

lemma carried_row:
  fixes h xs ys L
  defines "c \<equiv> length xs div 2 ^ Suc L"
  assumes t: "t = take L (shrubs_roots h (xs @ ys)) @ drop L (shrubs_roots h xs)"
    and L: "L < length (shrubs_roots h (xs @ ys))"
    and v: "vect = drop (2 * c) (row h L (xs @ ys))"
  shows "odd c \<Longrightarrow> at t (Suc L) = Inr (row h (Suc L) (xs @ ys) ! (c - 1))"
    and "(if odd c then [row h (Suc L) (xs @ ys) ! (c - 1)] else []) @ hash_pairs h vect
         = drop (2 * (length xs div 2 ^ Suc (Suc L))) (row h (Suc L) (xs @ ys))"
proof -
  have hp: "hash_pairs h vect = drop c (row h (Suc L) (xs @ ys))"
    using v by (simp add: hash_pairs_drop)
  have c2: "length xs div 2 ^ Suc (Suc L) = c div 2" unfolding c_def by (rule div_pow_Suc)
  have len: "c \<le> length (row h (Suc L) (xs @ ys))"
    unfolding c_def length_row by (simp only: length_append div_le_mono le_add1)
  show "at t (Suc L) = Inr (row h (Suc L) (xs @ ys) ! (c - 1))" if "odd c"
  proof -
    have pos: "0 < c" using that by (auto intro: Nat.gr0I)
    then have le: "2 ^ Suc L \<le> length xs"
      unfolding c_def by (metis div_less less_irrefl not_le)
    then have len': "Suc L < length (shrubs_roots h xs)" by (simp only: length_shrubs_roots)
    then have "at t (Suc L) = Inr (shrubs_roots h xs ! Suc L)"
      using t L by (simp add: nth_append min_def)
    also have "shrubs_roots h xs ! Suc L = row h (Suc L) xs ! (c - 1)"
      using shrubs_roots_nth [OF le] last_left_odd [OF that] by (simp only: c_def)
    also have "\<dots> = row h (Suc L) (xs @ ys) ! (c - 1)"
      using row_append_nth [of "c - 1" xs "Suc L" h ys] pos by (simp add: c_def)
    finally show ?thesis .
  qed
  show "(if odd c then [row h (Suc L) (xs @ ys) ! (c - 1)] else []) @ hash_pairs h vect
         = drop (2 * (length xs div 2 ^ Suc (Suc L))) (row h (Suc L) (xs @ ys))"
  proof (cases "odd c")
    case True
    then obtain q where "c = Suc (2 * q)" by (auto elim: oddE)
    then show ?thesis using len unfolding hp c2
      by (simp del: row.simps length_row add: Cons_nth_drop_Suc)
  next
    case False
    then show ?thesis unfolding hp c2 by (simp del: row.simps)
  qed
qed

lemma insert_shrubs_tree_correct:
  assumes "length xs < 2 ^ 64"
    and "vect = drop (2 * (length xs div 2 ^ Suc L)) (row h L (xs @ ys))" "vect \<noteq> []"
    and "t = take L (shrubs_roots h (xs @ ys)) @ drop L (shrubs_roots h xs)"
    and "drop ll exps = set_bits_from (length xs) (Suc L)"
  shows "insert_shrubs_tree h t vect (int L - 1) exps ll = Inr (shrubs_roots h (xs @ ys))"
  using assms(2-)
proof (induction "length (xs @ ys) div 2 ^ L" arbitrary: L vect t ll rule: less_induct)
  case less
  let ?zs = "xs @ ys" and ?zr = "shrubs_roots h (xs @ ys)"
  define c where "c = length xs div 2 ^ Suc L"
  define n where "n = length ?zs div 2 ^ L"
  define temp where "temp = drop (2 * (length xs div 2 ^ Suc (Suc L))) (row h (Suc L) ?zs)"
  have cn: "2 * c < n" using less.prems(1,2) by (simp add: c_def n_def)
  then have n0: "0 < n" by simp
  then have Ln: "2 ^ L \<le> length ?zs" unfolding n_def by (metis div_less less_irrefl not_le)
  then have L: "L < length ?zr" by (simp only: length_shrubs_roots)
  note carried = carried_row [OF less.prems(3) L less.prems(1), folded c_def temp_def]
  have bit: "(ll < length exps \<and> int (Suc L) = exps ! ll) \<longleftrightarrow> odd c"
    using next_exponent_iff(1) [OF less.prems(4) assms(1)] by (simp only: c_def)
  have "vect ! last_left (length vect) = row h L ?zs ! last_left n"
    using cn less.prems(1) last_left_shift [OF cn] by (simp add: n_def c_def)
  also have "\<dots> = ?zr ! L" using shrubs_roots_nth [OF Ln] by (simp add: n_def)
  finally have push: "(if L < length t then t[L := vect ! last_left (length vect)]
       else t @ [vect ! last_left (length vect)])
      = take (Suc L) ?zr @ drop (Suc L) (shrubs_roots h xs)" (is "?t' = ?next")
    using replace_or_push [OF L _ less.prems(3)] by metis
  define ll' where "ll' = (if odd c then Suc ll else ll)"
  have ll': "drop ll' exps = set_bits_from (length xs) (Suc (Suc L))"
    using next_exponent_iff(2,3) [OF less.prems(4) assms(1)] by (simp add: ll'_def c_def)
  have step: "insert_shrubs_tree h t vect (int L - 1) exps ll =
      (if temp \<noteq> [] then insert_shrubs_tree h ?next temp (int (Suc L) - 1) exps ll' else Inr ?next)"
    using less.prems(2) bit carried push
    by (subst insert_shrubs_tree.simps) (auto simp: Let_def ll'_def nat_add_distrib algebra_simps)
  show ?case
  proof (cases "temp = []")
    case False
    have "length ?zs div 2 ^ Suc L < length ?zs div 2 ^ L"
      using n0 unfolding div_pow_Suc n_def by simp
    from less.hyps [OF this temp_def False refl ll'] show ?thesis using step False by simp
  next
    case True
    then have "length ?zs div 2 ^ Suc L \<le> 2 * (c div 2)"
      by (simp only: temp_def c_def drop_eq_Nil length_row div_pow_Suc)
    also have "\<dots> \<le> c" by simp
    finally have "length ?zs div 2 ^ Suc L = length xs div 2 ^ Suc L"
      unfolding c_def
      using div_le_mono [of "length xs" "length ?zs" "2 ^ Suc L"] by (intro order.antisym) simp_all
    then have "drop (Suc L) (shrubs_roots h xs) = drop (Suc L) ?zr"
      unfolding shrubs_roots_row by (simp only: row_append_same)
    then have "?next = ?zr" by (simp only: append_take_drop_id)
    then show ?thesis using step True by (simp only: simp_thms if_False)
  qed
qed

lemma insert_batch_devices_correct:
  assumes "xs \<noteq> []" "ys \<noteq> []" "length xs < 2 ^ 64"
  shows "insert_batch_devices h (shrubs_roots h xs) xs ys =
    Inr (shrubs_roots h (xs @ ys), if odd (length xs) then [] else ys)"
proof -
  let ?m = "length xs" and ?exps = "exponents_of_two (of_nat (length xs))"
  have exps: "drop 0 ?exps = set_bits_from ?m 0"
    using assms(3) by (simp add: exponents_suffix set_bits_from_def)
  note next0 = next_exponent_iff [OF exps assms(3)]
  have ne: "?exps \<noteq> []"
  proof -
    have "of_nat ?m \<noteq> (0 :: u64)"
      using assms by (simp add: word_of_nat_eq_0_iff nat_dvd_not_less)
    then show ?thesis
      using trailing_zeros_spec(1,2) [of "of_nat ?m"]
      by (auto simp: exponents_of_two_eq filter_empty_conv intro!: bexI)
  qed
  have e0: "?exps ! 0 = 0 \<longleftrightarrow> odd ?m" using next0(1) ne by auto
  have r0: "at (shrubs_roots h xs) 0 = Inr (xs ! last_left ?m)"
    using assms(1) by (simp add: shrubs_roots_rec)
  show ?thesis
  proof (cases "odd ?m")
    case True
    have "xs ! last_left ?m # ys = drop (2 * (?m div 2 ^ Suc 0)) (row h 0 (xs @ ys))"
      using True assms(1) by (auto simp: last_left_odd Cons_nth_drop_Suc [symmetric] elim!: oddE)
    from insert_shrubs_tree_correct [OF assms(3) this, of "shrubs_roots h xs" 1 ?exps]
    show ?thesis using True next0(2) ne e0 r0 by (simp add: insert_batch_devices_def Let_def)
  next
    case False
    then have "ys = drop (2 * (?m div 2 ^ Suc 0)) (row h 0 (xs @ ys))" by simp
    from insert_shrubs_tree_correct [OF assms(3) this, of "shrubs_roots h xs" 0 ?exps]
    show ?thesis using False next0(3) ne e0 r0 assms(2)
      by (simp add: insert_batch_devices_def Let_def)
  qed
qed

end
