(* ===== verification/ShrubsPath.thy ===== *)
theory ShrubsPath
  imports Shrubs
begin

text \<open>
  Paths in the shrubs accumulator (\<^verbatim>\<open>hydra-toolkit/src/shurbstree.rs\<close>): the root that owns
  a leaf (\<open>find_owner_root\<close>), the leaves whose owner changes after an insertion
  (\<open>affected_indices\<close>), the sibling path and direction tags of a leaf (\<open>find_shrubs_path\<close>,
  \<open>find_interval_index\<close>, and \<open>find_device_shrubs_path_tag\<close> of \<^verbatim>\<open>lib.rs\<close>).

  The reference is positional: \<open>root_at n i k\<close> says that the k-th root of n leaves stands
  above leaf i, the owner of i is the least such k, and the path of i is the list of the
  siblings in rows 0 to k - 1 of the tree.
\<close>

section \<open>Owner roots\<close>

record root_span =
  level :: nat
  left :: nat
  right :: nat

function find_owner_loop :: "nat \<Rightarrow> nat \<Rightarrow> nat \<Rightarrow> nat \<Rightarrow> root_span res" where
  "find_owner_loop index total_count lvl block_size =
     (if block_size \<le> total_count then
        if block_size = 0 then Inl (Panic ''attempt to divide by zero'')
        else
          let layer_count = total_count div block_size in
          if layer_count = 0 then
            Inl (Panic ''every node should belong to a shrubs root'')
          else
            let root_block = (if layer_count mod 2 = 1 then layer_count else layer_count - 1);
                l = (root_block - 1) * block_size + 1;
                r = root_block * block_size
            in if l \<le> index \<and> index \<le> r then Inr \<lparr>level = lvl, left = l, right = r\<rparr>
               else if total_count div 2 < block_size then
                 Inl (Panic ''every node should belong to a shrubs root'')
               else find_owner_loop index total_count (lvl + 1) (block_size * 2)
      else Inl (Panic ''every node should belong to a shrubs root''))"
  by pat_completeness auto
termination
  by (relation "measure (\<lambda>(index, total_count, lvl, block_size). total_count + 1 - block_size)") auto

declare find_owner_loop.simps [simp del]

definition find_owner_root :: "nat \<Rightarrow> nat \<Rightarrow> root_span res" where
  "find_owner_root index total_count =
     (if 1 \<le> index \<and> index \<le> total_count then find_owner_loop index total_count 0 1
      else Inl (Panic ''assertion failed: index >= 1 && index <= total''))"

text \<open>The 1-based indices of old leaves whose owner differs after the insertion.\<close>

definition affected_indices :: "nat \<Rightarrow> nat \<Rightarrow> nat list res" where
  "affected_indices old_total inserted =
     (if old_total = 0 then Inl (Panic ''assertion failed: old_total > 0'')
      else if inserted = 0 then Inr []
      else
        let new_total = old_total + inserted in
        and_then
          (traverse (\<lambda>index.
             and_then (find_owner_root index old_total) (\<lambda>old_root.
               and_then (find_owner_root index new_total) (\<lambda>new_root.
                 Inr (if old_root \<noteq> new_root then [index] else []))))
             [1..<old_total + 1])
          (\<lambda>hits. Inr (concat hits)))"

section \<open>Paths\<close>

text \<open>
  \<open>j\<close> is the level of \<open>leaves\<close>. The two indexed reads of the first comparison panic out of
  range; \<open>value + 1\<close> cannot overflow, the slice holds fewer than \<open>2 ^ 64\<close> elements.
\<close>

function find_shrubs_path ::
  "('f \<Rightarrow> 'f \<Rightarrow> 'f) \<Rightarrow> 'f list \<Rightarrow> 'f list \<Rightarrow> nat \<Rightarrow> nat \<Rightarrow> ('f list \<times> bool list) option res" where
  "find_shrubs_path h root leaves j val =
     and_then
       (if 2 \<le> length leaves then
          and_then (at root 0) (\<lambda>r. and_then (at leaves val) (\<lambda>l. Inr (r = l)))
        else Inr False)
       (\<lambda>is_root.
         if is_root then Inr None
         else if leaves = [] \<or> length leaves \<le> val then Inr None
         else
           let (dir, sibling_index) =
                 (if val mod 2 = 1 then (False, val - 1) else (True, val + 1))
           in case get leaves sibling_index of
                None \<Rightarrow> Inr None
              | Some sibling \<Rightarrow>
                  let temp = hash_pairs h leaves in
                  if 2 \<le> length temp then
                    let v = val div 2; next_j = j + 1 in
                    if length temp \<le> v \<or> length root \<le> next_j then Inr None
                    else if temp ! v = root ! next_j then Inr (Some ([sibling], [dir]))
                    else
                      and_then (find_shrubs_path h root temp next_j v) (\<lambda>sub.
                        case sub of
                          None \<Rightarrow> Inr None
                        | Some (sub_path, sub_index) \<Rightarrow>
                            Inr (Some (sibling # sub_path, dir # sub_index)))
                  else Inr (Some ([sibling], [dir])))"
  by pat_completeness auto
termination
  by (relation "measure (\<lambda>(h, root, leaves, j, val). length leaves)") (auto split: if_splits)

declare find_shrubs_path.simps [simp del]

definition largest_power_two_leq :: "nat \<Rightarrow> nat res" where
  "largest_power_two_leq n =
     (if 0 < n then Inr (while (\<lambda>p. p \<le> n div 2) (\<lambda>p. p * 2) 1)
      else Inl (Panic ''assertion failed: n > 0''))"

lemma largest_power_two_loop:
  assumes "2 ^ e \<le> n" "n < 2 ^ Suc e" "d \<le> e"
  shows "while (\<lambda>p. p \<le> n div 2) (\<lambda>p. p * 2) (2 ^ d) = (2::nat) ^ e"
  using assms(3)
proof (induction "e - d" arbitrary: d)
  case 0
  then have "d = e" by simp
  moreover have "\<not> 2 ^ e \<le> n div 2" using assms(2) by (simp add: not_le less_mult_imp_div_less mult.commute)
  ultimately show ?case by (subst while_unfold) simp
next
  case (Suc x)
  then have "Suc d \<le> e" by simp
  then have "2 ^ Suc d \<le> n"
    using assms(1) by (meson one_le_numeral order_trans power_increasing)
  then have "2 ^ d \<le> n div 2" by simp
  moreover have "x = e - Suc d" using Suc by simp
  moreover have "(2::nat) ^ d * 2 = 2 ^ Suc d" by simp
  ultimately show ?case using Suc.hyps(1) \<open>Suc d \<le> e\<close> by (subst while_unfold) (simp del: power_Suc)
qed

lemma largest_power_two_leq_eq:
  "2 ^ e \<le> n \<Longrightarrow> n < 2 ^ Suc e \<Longrightarrow> largest_power_two_leq n = Inr (2 ^ e)"
  using largest_power_two_loop [of e n 0]
  by (auto simp: largest_power_two_leq_def intro: gr0I)

lemma between_powers:
  assumes "0 < (n::nat)"
  obtains e where "2 ^ e \<le> n" "n < 2 ^ Suc e"
  using ex_power_ivl1 [of 2 n] assms by auto

lemma largest_power_two_leq_bounds:
  "largest_power_two_leq n = Inr p \<Longrightarrow> 0 < p \<and> p \<le> n \<and> n < 2 * p"
proof (cases "0 < n")
  case True
  then obtain e where "2 ^ e \<le> n" "n < 2 ^ Suc e" by (rule between_powers)
  then show "largest_power_two_leq n = Inr p \<Longrightarrow> ?thesis"
    using largest_power_two_leq_eq by fastforce
qed (simp add: largest_power_two_leq_def)

function find_interval_loop ::
  "'f list \<Rightarrow> nat \<Rightarrow> nat \<Rightarrow> nat \<Rightarrow> ('f list \<times> nat) option res" where
  "find_interval_loop arr target_index start remaining =
     (if 0 < remaining then
        and_then (largest_power_two_leq remaining) (\<lambda>interval_len.
          let fin = start + interval_len in
          if start \<le> target_index \<and> target_index < fin then
            if interval_len = 1 then Inr None
            else and_then (slice arr start fin) (\<lambda>interval.
                   Inr (Some (interval, target_index - start)))
          else find_interval_loop arr target_index fin (remaining - interval_len))
      else Inr None)"
  by pat_completeness auto
termination
  by (relation "measure (\<lambda>(arr, target_index, start, remaining). remaining)")
     (auto dest: largest_power_two_leq_bounds)

declare find_interval_loop.simps [simp del]

text \<open>\<open>iter().position(|x| x == target)\<close>.\<close>

fun position :: "'f \<Rightarrow> 'f list \<Rightarrow> nat option" where
  "position x [] = None"
| "position x (y # ys) = (if x = y then Some 0 else map_option Suc (position x ys))"

definition find_interval_index :: "'f list \<Rightarrow> 'f \<Rightarrow> ('f list \<times> nat) option res" where
  "find_interval_index arr target =
     (if arr = [] then Inr None
      else case position target arr of
             None \<Rightarrow> Inr None
           | Some target_index \<Rightarrow> find_interval_loop arr target_index 0 (length arr))"

definition find_device_shrubs_path_tag ::
  "('f \<Rightarrow> 'f \<Rightarrow> 'f) \<Rightarrow> 'f list \<Rightarrow> 'f list \<Rightarrow> 'f \<Rightarrow> ('f list option \<times> bool list option) res" where
  "find_device_shrubs_path_tag h root leaves leaf =
     and_then (find_interval_index leaves leaf) (\<lambda>hit.
       case hit of
         Some (vect, index) \<Rightarrow>
           and_then (find_shrubs_path h root vect 0 index) (\<lambda>r.
             case r of
               Some (path, tag) \<Rightarrow> Inr (Some path, Some tag)
             | None \<Rightarrow> Inr (None, None))
       | None \<Rightarrow> Inr (None, None))"

section \<open>The owner of a leaf, by position\<close>

definition root_at :: "nat \<Rightarrow> nat \<Rightarrow> nat \<Rightarrow> bool" where
  "root_at n i k \<longleftrightarrow> 2 ^ k \<le> n \<and> i div 2 ^ k = last_left (n div 2 ^ k)"

definition owner_at :: "nat \<Rightarrow> nat \<Rightarrow> nat \<Rightarrow> bool" where
  "owner_at n i k \<longleftrightarrow> root_at n i k \<and> (\<forall>j<k. \<not> root_at n i j)"

definition span_at :: "nat \<Rightarrow> nat \<Rightarrow> root_span" where
  "span_at i k = \<lparr>level = k, left = i div 2 ^ k * 2 ^ k + 1, right = (i div 2 ^ k + 1) * 2 ^ k\<rparr>"

text \<open>The perfect subtree (of the binary decomposition of n) that holds leaf i.\<close>

definition block_at :: "nat \<Rightarrow> nat \<Rightarrow> nat \<Rightarrow> bool" where
  "block_at n i e \<longleftrightarrow> odd (n div 2 ^ e) \<and> i div 2 ^ e = n div 2 ^ e - 1"

lemma pow_le_iff_div: "2 ^ k \<le> (n::nat) \<longleftrightarrow> 0 < n div 2 ^ k"
  by (simp add: div_greater_zero_iff)

lemma block_at_root: "block_at n i e \<Longrightarrow> root_at n i e"
  by (auto simp: block_at_def root_at_def last_left_odd pow_le_iff_div intro: Nat.gr0I)

lemma same_half:
  fixes a b :: nat
  assumes "a div 2 = b div 2" "a \<le> b" "a \<noteq> b"
  shows "odd b \<and> a = b - 1"
proof -
  have "a div 2 * 2 + a mod 2 = a" "b div 2 * 2 + b mod 2 = b" by (rule div_mult_mod_eq)+
  moreover have "a mod 2 < 2" "b mod 2 < 2" by simp_all
  ultimately have "b mod 2 = 1" "a = b - 1" using assms by linarith+
  then show ?thesis by (simp add: odd_iff_mod_2_eq_one)
qed

lemma block_at_exists:
  assumes "i < n"
  obtains e where "block_at n i e"
proof -
  let ?P = "\<lambda>k. i div 2 ^ k = n div 2 ^ k"
  have "n < 2 ^ n" by simp
  moreover from this have "i < 2 ^ n" using assms by (rule order.strict_trans [rotated])
  ultimately have "?P n" by simp
  then have "?P (LEAST k. ?P k)" by (rule LeastI)
  moreover have "\<not> ?P 0" using assms by simp
  ultimately obtain e where e: "(LEAST k. ?P k) = Suc e" by (metis not0_implies_Suc)
  then have ne: "\<not> ?P e" using not_less_Least [of e ?P] by simp
  have "i div 2 ^ e div 2 = n div 2 ^ e div 2"
    using \<open>?P (LEAST k. ?P k)\<close> unfolding e div_pow_Suc .
  moreover have "i div 2 ^ e \<le> n div 2 ^ e" using assms by (simp add: div_le_mono)
  ultimately have "odd (n div 2 ^ e) \<and> i div 2 ^ e = n div 2 ^ e - 1" using ne by (rule same_half)
  then show ?thesis using that by (simp add: block_at_def)
qed

lemma owner_at_exists:
  assumes "i < n"
  obtains k where "owner_at n i k"
proof -
  obtain e where "root_at n i e" using block_at_exists [OF assms] block_at_root by metis
  then have "root_at n i (LEAST k. root_at n i k)" by (rule LeastI)
  then show ?thesis using that not_less_Least by (auto simp: owner_at_def)
qed

lemma owner_at_unique: "owner_at n i k \<Longrightarrow> owner_at n i k' \<Longrightarrow> k = k'"
  unfolding owner_at_def by (metis linorder_neqE_nat)

lemma owner_at_le_block: "owner_at n i k \<Longrightarrow> block_at n i e \<Longrightarrow> k \<le> e"
  using block_at_root unfolding owner_at_def by (metis not_le)

lemma div_eq_iff_range:
  "0 < (b::nat) \<Longrightarrow> i div b = q \<longleftrightarrow> q * b + 1 \<le> i + 1 \<and> i + 1 \<le> (q + 1) * b"
  using less_eq_div_iff_mult_less_eq [of b q i] div_less_iff_less_mult [of b i "q + 1"] by auto

lemma find_owner_loop_correct:
  assumes k: "owner_at n i k" and l: "lvl \<le> k"
  shows "find_owner_loop (i + 1) n lvl (2 ^ lvl) = Inr (span_at i k)"
  using l
proof (induction "k - lvl" arbitrary: lvl rule: less_induct)
  case less
  let ?b = "2 ^ lvl :: nat" and ?c = "n div 2 ^ lvl"
  have "2 ^ k \<le> n" using k by (simp add: owner_at_def root_at_def)
  then have b: "?b \<le> n" using less.prems by (meson one_le_numeral order_trans power_increasing)
  then have c: "0 < ?c" using pow_le_iff_div by blast
  have rb: "(if ?c mod 2 = 1 then ?c else ?c - 1) = last_left ?c + 1"
    using c by (auto simp: last_left_def even_iff_mod_2_eq_zero elim!: evenE)
  have found: "last_left ?c * ?b + 1 \<le> i + 1 \<and> i + 1 \<le> (last_left ?c + 1) * ?b \<longleftrightarrow> root_at n i lvl"
    using b div_eq_iff_range [of ?b i "last_left ?c"] by (simp add: root_at_def)
  have step: "find_owner_loop (i + 1) n lvl ?b =
      (if root_at n i lvl then Inr (span_at i lvl)
       else if n div 2 < ?b then Inl (Panic ''every node should belong to a shrubs root'')
       else find_owner_loop (i + 1) n (lvl + 1) (2 ^ (lvl + 1)))"
    using b c found rb
    by (subst find_owner_loop.simps) (auto simp: Let_def span_at_def root_at_def mult.commute)
  show ?case
  proof (cases "lvl = k")
    case True
    then show ?thesis using step k by (simp add: owner_at_def)
  next
    case False
    then have lk: "lvl + 1 \<le> k" using less.prems by simp
    then have "2 ^ (lvl + 1) \<le> n"
      using \<open>2 ^ k \<le> n\<close> by (meson one_le_numeral order_trans power_increasing)
    then have "\<not> n div 2 < ?b" by simp
    moreover have "\<not> root_at n i lvl" using k lk by (simp add: owner_at_def)
    moreover have "k - (lvl + 1) < k - lvl" using lk by simp
    ultimately show ?thesis using step less.hyps [OF _ lk] by simp
  qed
qed

lemma find_owner_root_correct:
  assumes "i < n" "owner_at n i k"
  shows "find_owner_root (i + 1) n = Inr (span_at i k)"
  using find_owner_loop_correct [OF assms(2), of 0] assms(1) by (simp add: find_owner_root_def)

lemma find_owner_root_total:
  assumes "i < n"
  shows "\<exists>k. owner_at n i k \<and> find_owner_root (i + 1) n = Inr (span_at i k)"
  using owner_at_exists [OF assms] find_owner_root_correct [OF assms] by metis

lemma span_at_inject: "span_at i k = span_at i k' \<longleftrightarrow> k = k'"
  by (auto simp: span_at_def)

lemma concat_if_filter: "concat (map (\<lambda>x. if P x then [x] else []) xs) = filter P xs"
  by (induction xs) auto

lemma affected_indices_eq:
  assumes "0 < old_total"
  shows "affected_indices old_total inserted =
    Inr (filter (\<lambda>j. find_owner_root j old_total \<noteq> find_owner_root j (old_total + inserted))
           [1..<old_total + 1])"
proof -
  let ?g = "\<lambda>j. find_owner_root j old_total \<noteq> find_owner_root j (old_total + inserted)"
  have "and_then (find_owner_root j old_total) (\<lambda>o'.
          and_then (find_owner_root j (old_total + inserted)) (\<lambda>n'.
            Inr (if o' \<noteq> n' then [j] else []))) = Inr (if ?g j then [j] else [])"
    if j: "j \<in> set [1..<old_total + 1]" for j
  proof -
    define i where "i = j - 1"
    have i: "j = i + 1" "i < old_total" using j by (auto simp: i_def)
    then obtain a b where "find_owner_root j old_total = Inr a"
        "find_owner_root j (old_total + inserted) = Inr b"
      using find_owner_root_total [of i old_total]
        find_owner_root_total [of i "old_total + inserted"] by auto
    then show ?thesis by simp
  qed
  from traverse_Inr [of "[1..<old_total + 1]", OF this] show ?thesis
    using assms by (auto simp: affected_indices_def Let_def concat_if_filter)
qed

text \<open>A leaf that is not listed keeps its owner level.\<close>

lemma unaffected_owner:
  assumes "affected_indices n m = Inr js" "i < n" "i + 1 \<notin> set js" "owner_at n i k"
  shows "owner_at (n + m) i k"
proof -
  obtain k' where k': "owner_at (n + m) i k'" using owner_at_exists [of i "n + m"] assms(2) by auto
  have "find_owner_root (i + 1) n = find_owner_root (i + 1) (n + m)"
    using assms(1-3) by (auto simp: affected_indices_eq simp del: upt_Suc)
  then have "span_at i k = span_at i k'"
    using find_owner_root_correct [OF assms(2,4)] find_owner_root_correct [OF _ k'] assms(2) by simp
  then show ?thesis using k' by (simp add: span_at_inject)
qed

section \<open>Perfect subtrees\<close>

lemma row_take_drop:
  assumes "k \<le> e"
  shows "row h k (take (2 ^ e) (drop (2 ^ e * q) zs))
       = take (2 ^ (e - k)) (drop (2 ^ (e - k) * q) (row h k zs))"
  using assms
proof (induction k)
  case (Suc k)
  then have e: "e - k = Suc (e - Suc k)" by simp
  have "row h (Suc k) (take (2 ^ e) (drop (2 ^ e * q) zs))
      = hash_pairs h (take (2 * 2 ^ (e - Suc k)) (drop (2 * (2 ^ (e - Suc k) * q)) (row h k zs)))"
    using Suc e by (simp add: mult.assoc)
  also have "\<dots> = take (2 ^ (e - Suc k)) (drop (2 ^ (e - Suc k) * q) (row h (Suc k) zs))"
    unfolding hash_pairs_take hash_pairs_drop by simp
  finally show ?case .
qed simp

text \<open>The leaves of the block of leaf i, and their rows.\<close>

definition block_leaves :: "'f list \<Rightarrow> nat \<Rightarrow> nat \<Rightarrow> 'f list" where
  "block_leaves zs i e = take (2 ^ e) (drop (2 ^ e * (i div 2 ^ e)) zs)"

lemma block_bounds:
  assumes "block_at (length zs) i e"
  shows "2 ^ e * (i div 2 ^ e) + 2 ^ e \<le> length zs"
proof -
  have "i div 2 ^ e + 1 = length zs div 2 ^ e"
    using assms by (auto simp: block_at_def intro: Nat.gr0I)
  then have "2 ^ e * (i div 2 ^ e + 1) \<le> length zs" by simp
  then show ?thesis by simp
qed

lemma length_block_row:
  assumes "block_at (length zs) i e" "k \<le> e"
  shows "length (row h k (block_leaves zs i e)) = 2 ^ (e - k)"
proof -
  have "length (block_leaves zs i e) = 2 ^ e"
    using block_bounds [OF assms(1)] by (simp add: block_leaves_def)
  then show ?thesis using assms(2) by (simp add: power_diff)
qed

lemma block_row_nth:
  assumes "block_at (length zs) i e" "k \<le> e" "p < 2 ^ (e - k)"
  shows "row h k (block_leaves zs i e) ! p = row h k zs ! (2 ^ (e - k) * (i div 2 ^ e) + p)"
proof -
  have "2 ^ (e - k) * (i div 2 ^ e) + 2 ^ (e - k) \<le> length (row h k zs)"
  proof -
    have "2 ^ e * (i div 2 ^ e) + 2 ^ e = (2 ^ (e - k) * (i div 2 ^ e) + 2 ^ (e - k)) * 2 ^ k"
      using assms(2) by (simp add: algebra_simps power_add [symmetric])
    then show ?thesis
      using block_bounds [OF assms(1)] by (simp add: less_eq_div_iff_mult_less_eq)
  qed
  then show ?thesis
    using assms(2,3) unfolding block_leaves_def by (simp add: row_take_drop)
qed

text \<open>Where leaf i sits in row k of its block.\<close>

lemma position_in_row:
  assumes "k \<le> e"
  shows "2 ^ (e - k) * (i div 2 ^ e) + i mod 2 ^ e div 2 ^ k = i div (2 ^ k :: nat)"
    and "i mod 2 ^ e div 2 ^ k < (2 ^ (e - k) :: nat)"
proof -
  have e: "(2::nat) ^ e = 2 ^ (e - k) * 2 ^ k" using assms by (simp add: power_add [symmetric])
  have "i = (2 ^ (e - k) * (i div 2 ^ e)) * 2 ^ k + i mod 2 ^ e"
    using e by (metis div_mult_mod_eq mult.assoc mult.commute)
  then show "2 ^ (e - k) * (i div 2 ^ e) + i mod 2 ^ e div 2 ^ k = i div (2 ^ k :: nat)"
    by (metis div_mult_self3 zero_neq_numeral power_eq_0_iff add.commute)
  have "i mod 2 ^ e < 2 ^ (e - k) * 2 ^ k" unfolding e [symmetric] by simp
  then show "i mod 2 ^ e div 2 ^ k < (2 ^ (e - k) :: nat)"
    by (simp add: less_mult_imp_div_less)
qed

text \<open>The search finds the block and the offset of the first matching leaf.\<close>

lemma find_interval_loop_correct:
  assumes "start + remaining = length zs" "start \<le> i" "i < length zs"
    and "2 ^ E dvd start" "remaining < 2 ^ E"
  shows "\<exists>e. block_at (length zs) i e \<and>
    find_interval_loop zs i start remaining =
      Inr (if e = 0 then None else Some (block_leaves zs i e, i mod 2 ^ e))"
  using assms
proof (induction remaining arbitrary: start E rule: less_induct)
  case (less remaining)
  have "0 < remaining" using less.prems by simp
  then obtain e where e: "2 ^ e \<le> remaining" "remaining < 2 ^ Suc e" by (rule between_powers)
  have eE: "e < E"
  proof (rule ccontr)
    assume "\<not> e < E"
    then have "(2::nat) ^ E \<le> 2 ^ e" by simp
    then show False using e(1) less.prems(5) by linarith
  qed
  obtain a where a: "start = 2 ^ E * a" using less.prems(4) by (elim dvdE)
  define q where "q = 2 ^ (E - Suc e) * a"
  have start: "start = 2 ^ e * (2 * q)"
  proof -
    have "(2::nat) ^ E = 2 ^ e * (2 * 2 ^ (E - Suc e))"
      using eE by (simp add: power_add [symmetric] power_Suc [symmetric] del: power_Suc)
    then show ?thesis by (simp add: a q_def mult.assoc)
  qed
  have n: "length zs div 2 ^ e = 2 * q + 1"
    using less.prems(1) e unfolding start by (intro div_nat_eqI) (auto simp: algebra_simps)
  show ?case
  proof (cases "i < start + 2 ^ e")
    case True
    have i: "i div 2 ^ e = 2 * q"
      using True less.prems(2) unfolding start by (intro div_nat_eqI) (auto simp: algebra_simps)
    have "block_at (length zs) i e" by (simp add: block_at_def n i)
    moreover have "i - start = i mod 2 ^ e"
      unfolding start i [symmetric] by (simp add: minus_mult_div_eq_mod)
    moreover have "block_leaves zs i e = take (2 ^ e) (drop start zs)"
      by (simp add: block_leaves_def i start)
    ultimately show ?thesis
      using True less.prems(1,2) e \<open>0 < remaining\<close>
      by (subst find_interval_loop.simps)
         (auto simp: largest_power_two_leq_eq [OF e] intro!: exI [of _ e])
  next
    case False
    have "2 ^ e dvd start + 2 ^ e" by (simp add: start)
    moreover have "remaining - 2 ^ e < 2 ^ e" using e by simp
    ultimately have "\<exists>e'. block_at (length zs) i e' \<and>
        find_interval_loop zs i (start + 2 ^ e) (remaining - 2 ^ e) =
          Inr (if e' = 0 then None else Some (block_leaves zs i e', i mod 2 ^ e'))"
      using less.IH [of "remaining - 2 ^ e" "start + 2 ^ e" e] less.prems e False by simp
    then show ?thesis
      using False \<open>0 < remaining\<close>
      by (subst find_interval_loop.simps) (simp add: largest_power_two_leq_eq [OF e])
  qed
qed

lemma find_interval_index_correct:
  assumes "position x zs = Some i" "i < length zs"
  shows "\<exists>e. block_at (length zs) i e \<and>
    find_interval_index zs x =
      Inr (if e = 0 then None else Some (block_leaves zs i e, i mod 2 ^ e))"
proof -
  have "length zs < 2 ^ length zs" by simp
  then show ?thesis
    using find_interval_loop_correct [of 0 "length zs" zs i "length zs"] assms
    by (cases zs) (auto simp: find_interval_index_def)
qed

lemma position_Some: "position x zs = Some i \<Longrightarrow> i < length zs \<and> zs ! i = x"
  by (induction zs arbitrary: i) (auto split: if_splits)

lemma position_None: "position x zs = None \<longleftrightarrow> x \<notin> set zs"
  by (induction zs) auto

lemma position_distinct: "distinct zs \<Longrightarrow> i < length zs \<Longrightarrow> position (zs ! i) zs = Some i"
  by (metis nth_eq_iff_index_eq nth_mem option.exhaust position_None position_Some)

section \<open>The path of a leaf\<close>

definition sibling_pos :: "nat \<Rightarrow> nat" where
  "sibling_pos p = (if odd p then p - 1 else p + 1)"

text \<open>The siblings and direction tags of leaf i in the rows j, ..., k - 1 of the tree.\<close>

definition sib_path :: "('f \<Rightarrow> 'f \<Rightarrow> 'f) \<Rightarrow> 'f list \<Rightarrow> nat \<Rightarrow> nat \<Rightarrow> nat \<Rightarrow> 'f list" where
  "sib_path h zs i j k = map (\<lambda>l. row h l zs ! sibling_pos (i div 2 ^ l)) [j..<k]"

definition sib_tags :: "nat \<Rightarrow> nat \<Rightarrow> nat \<Rightarrow> bool list" where
  "sib_tags i j k = map (\<lambda>l. even (i div 2 ^ l)) [j..<k]"

text \<open>What a verifier of a path computes: tag true means the sibling is the right child.\<close>

fun fold_path :: "('f \<Rightarrow> 'f \<Rightarrow> 'f) \<Rightarrow> 'f \<Rightarrow> 'f list \<Rightarrow> bool list \<Rightarrow> 'f" where
  "fold_path h x (s # ss) (t # ts) = fold_path h (if t then h x s else h s x) ss ts"
| "fold_path h x _ _ = x"

text \<open>
  No two nodes of a row are equal, and no inner node equals a leaf: what collision resistance
  of the hash and pairwise different leaves give for a concrete tree.
\<close>

definition clash_free :: "('f \<Rightarrow> 'f \<Rightarrow> 'f) \<Rightarrow> 'f list \<Rightarrow> bool" where
  "clash_free h zs \<longleftrightarrow>
     (\<forall>k \<in> set [0..<length zs]. distinct (row h k zs)) \<and>
     (\<forall>k \<in> set [1..<length zs]. set (row h k zs) \<inter> set zs = {})"

lemma small_levels: "2 ^ k \<le> n \<Longrightarrow> k < (n::nat)"
  using less_exp [of k] by (rule order.strict_trans2)

lemma clash_freeD:
  assumes "clash_free h zs" "2 ^ k \<le> length zs"
  shows "distinct (row h k zs)"
    and "0 < k \<Longrightarrow> set (row h k zs) \<inter> set zs = {}"
  using assms small_levels [OF assms(2)] by (auto simp: clash_free_def)

lemma clash_free_distinct: "clash_free h zs \<Longrightarrow> distinct zs"
  using clash_freeD(1) [of h zs 0] by (cases "zs = []") (auto simp: Suc_le_eq)

lemma sibling_in_block:
  assumes "k < e"
  shows "2 ^ (e - k) * (i div 2 ^ e) + sibling_pos (i mod 2 ^ e div 2 ^ k) = sibling_pos (i div 2 ^ k)"
    and "sibling_pos (i mod 2 ^ e div 2 ^ k) < 2 ^ (e - k)"
    and "even (i mod 2 ^ e div 2 ^ k) \<longleftrightarrow> even (i div 2 ^ k)"
proof -
  let ?v = "i mod 2 ^ e div 2 ^ k"
  have ev: "2 ^ (e - k) * (i div 2 ^ e) = 2 * (2 ^ (e - Suc k) * (i div 2 ^ e))"
    using assms by (simp add: Suc_diff_Suc [symmetric] mult.assoc)
  note p = position_in_row [of k e i]
  have le: "k \<le> e" using assms by simp
  show e: "even ?v \<longleftrightarrow> even (i div 2 ^ k)"
    using p(1) [OF le] unfolding ev by (metis dvd_triv_left even_add)
  show "2 ^ (e - k) * (i div 2 ^ e) + sibling_pos ?v = sibling_pos (i div 2 ^ k)"
    using p(1) [OF le] e by (cases "even ?v") (auto simp: sibling_pos_def elim!: oddE)
  have "2 ^ (e - k) = 2 * (2 :: nat) ^ (e - Suc k)"
    using assms by (simp add: Suc_diff_Suc [symmetric])
  then show "sibling_pos ?v < 2 ^ (e - k)"
    using p(2) [OF le] by (auto simp: sibling_pos_def elim!: evenE)
qed

text \<open>One level of the search inside the block, in terms of the rows of the whole tree.\<close>

lemma find_shrubs_path_step:
  fixes h zs i e k
  defines "lv \<equiv> row h k (block_leaves zs i e)" and "v \<equiv> i mod 2 ^ e div 2 ^ k"
  assumes b: "block_at (length zs) i e" and k: "k < e"
    and not_root: "row h k zs ! (i div 2 ^ k) \<noteq> root ! 0" and root: "e < length root"
  shows "find_shrubs_path h root lv k v =
    (let s = row h k zs ! sibling_pos (i div 2 ^ k); t = even (i div 2 ^ k) in
     if Suc k = e \<or> row h (Suc k) zs ! (i div 2 ^ Suc k) = root ! Suc k then Inr (Some ([s], [t]))
     else and_then (find_shrubs_path h root (row h (Suc k) (block_leaves zs i e)) (Suc k)
                      (i mod 2 ^ e div 2 ^ Suc k)) (\<lambda>sub.
            case sub of None \<Rightarrow> Inr None
            | Some (p, ts) \<Rightarrow> Inr (Some (s # p, t # ts))))"
proof -
  let ?B = "block_leaves zs i e"
  have le: "k \<le> e" "Suc k \<le> e" using k by simp_all
  have e2: "(2::nat) ^ (e - k) = 2 * 2 ^ (e - Suc k)" using k by (simp add: Suc_diff_Suc [symmetric])
  have len: "length lv = 2 ^ (e - k)" unfolding lv_def by (rule length_block_row [OF b le(1)])
  have v: "v < 2 ^ (e - k)" unfolding v_def by (rule position_in_row(2) [OF le(1)])
  have nv: "lv ! v = row h k zs ! (i div 2 ^ k)"
    using block_row_nth [OF b le(1)] v position_in_row(1) [OF le(1)] by (simp only: lv_def v_def)
  have sv: "sibling_pos v < 2 ^ (e - k)" unfolding v_def by (rule sibling_in_block(2) [OF k])
  have ns: "lv ! sibling_pos v = row h k zs ! sibling_pos (i div 2 ^ k)"
    using block_row_nth [OF b le(1)] sv sibling_in_block(1) [OF k] by (simp only: lv_def v_def)
  have v2: "v div 2 = i mod 2 ^ e div 2 ^ Suc k" unfolding v_def by (rule div_pow_Suc [symmetric])
  have lt: "length (hash_pairs h lv) = 2 ^ (e - Suc k)" using len e2 by simp
  have vt: "v div 2 < 2 ^ (e - Suc k)" using v e2 by linarith
  have nt: "hash_pairs h lv ! (v div 2) = row h (Suc k) zs ! (i div 2 ^ Suc k)"
    using block_row_nth [OF b le(2), of "v div 2" h] vt position_in_row(1) [OF le(2)] v2
    by (simp only: lv_def row.simps)
  have two: "2 \<le> length (hash_pairs h lv) \<longleftrightarrow> Suc k \<noteq> e"
    unfolding lt using k by (cases "e - Suc k") auto
  have dir: "(if v mod 2 = Suc 0 then (False, v - 1) else (True, v + 1)) = (even (i div 2 ^ k), sibling_pos v)"
    using sibling_in_block(3) [OF k] by (simp add: v_def sibling_pos_def even_iff_mod_2_eq_zero)
  have g: "get lv (sibling_pos v) = Some (row h k zs ! sibling_pos (i div 2 ^ k))"
    using sv ns len by simp
  have 1: "2 \<le> length lv" unfolding len e2 by simp
  have 2: "at root 0 = Inr (root ! 0)" using root by (cases root) (auto simp: at_def)
  have 3: "at lv v = Inr (row h k zs ! (i div 2 ^ k))" using v nv len by simp
  have 4: "\<not> (lv = [] \<or> length lv \<le> v)" using v len 1 by auto
  have 5: "\<not> (length (hash_pairs h lv) \<le> v div 2 \<or> length root \<le> Suc k)"
    using vt lt root k by simp
  have r: "row h (Suc k) ?B = hash_pairs h lv" by (simp add: lv_def)
  show ?thesis
    unfolding r v2 [symmetric]
    by (subst find_shrubs_path.simps)
       (use 1 not_root in \<open>cases "Suc k = e"; simp add: 2 3 4 5 dir g two nt Let_def del: length_hash_pairs split del: if_split\<close>)
qed

lemma row_pos:
  assumes b: "block_at n i e" and i: "i < n" and l: "l \<le> e"
  shows "i div 2 ^ l < n div 2 ^ l"
proof -
  have "i div 2 ^ l \<le> n div 2 ^ l" using i by (simp add: div_le_mono)
  moreover have "i div 2 ^ l \<noteq> n div 2 ^ l"
  proof
    assume "i div 2 ^ l = n div 2 ^ l"
    then have "i div 2 ^ l div 2 ^ (e - l) = n div 2 ^ l div 2 ^ (e - l)" by simp
    then have "i div 2 ^ e = n div 2 ^ e"
      using l by (simp add: div_mult2_eq [symmetric] power_add [symmetric])
    moreover have "i div 2 ^ e < n div 2 ^ e"
      using b by (simp add: block_at_def odd_pos)
    ultimately show False by simp
  qed
  ultimately show ?thesis by simp
qed

text \<open>From level j up, the search collects the siblings below the owner level.\<close>

lemma find_shrubs_path_rows:
  assumes cf: "clash_free h zs" and b: "block_at (length zs) i e" and i: "i < length zs"
    and own: "owner_at (length zs) i k" and j: "j < k"
  shows "find_shrubs_path h (shrubs_roots h zs) (row h j (block_leaves zs i e)) j
           (i mod 2 ^ e div 2 ^ j) = Inr (Some (sib_path h zs i j k, sib_tags i j k))"
  using j
proof (induction "k - j" arbitrary: j rule: less_induct)
  case less
  let ?root = "shrubs_roots h zs"
  have ke: "k \<le> e" using own b by (rule owner_at_le_block)
  then have je: "j < e" using less.prems by simp
  have e: "2 ^ e \<le> length zs" using block_at_root [OF b] by (simp add: root_at_def)
  then have er: "e < length ?root" by (simp only: length_shrubs_roots)
  have lvl: "2 ^ l \<le> length zs" if "l \<le> e" for l
    using that e by (meson one_le_numeral order_trans power_increasing)
  have pos: "i div 2 ^ l < length (row h l zs)" if "l \<le> e" for l
    using row_pos [OF b i that] by simp
  have root_node: "row h l zs ! (i div 2 ^ l) = ?root ! l \<longleftrightarrow> root_at (length zs) i l" if "l \<le> e" for l
    using that shrubs_roots_nth [OF lvl [OF that], of h] clash_freeD(1) [OF cf lvl [OF that]]
      pos [OF that] lvl [OF that] pow_le_iff_div [of l "length zs"]
    by (auto simp: root_at_def nth_eq_iff_index_eq)
  have "row h j zs ! (i div 2 ^ j) \<noteq> ?root ! 0"
  proof (cases "j = 0")
    case True
    then show ?thesis using root_node [of 0] own less.prems by (simp add: owner_at_def)
  next
    case False
    have "?root ! 0 \<in> set zs"
      using shrubs_roots_nth [of 0 zs h] i by (cases "zs = []") (auto simp: Suc_le_eq)
    moreover have "row h j zs ! (i div 2 ^ j) \<in> set (row h j zs)" using pos je by simp
    ultimately show ?thesis using clash_freeD(2) [OF cf lvl, of j] je False by auto
  qed
  note step = find_shrubs_path_step [OF b je this er]
  have hit: "Suc j = e \<or> row h (Suc j) zs ! (i div 2 ^ Suc j) = ?root ! Suc j \<longleftrightarrow> Suc j = k"
    using root_node [of "Suc j"] je own block_at_root [OF b] less.prems ke
    unfolding owner_at_def by (metis Suc_leI le_neq_implies_less)
  have upt: "[j..<k] = j # [Suc j..<k]" using less.prems by (simp add: upt_conv_Cons)
  show ?case
  proof (cases "Suc j = k")
    case True
    then show ?thesis using step hit upt by (simp add: Let_def sib_path_def sib_tags_def)
  next
    case False
    then have "Suc j < k" using less.prems by simp
    moreover from this have "k - Suc j < k - j" by simp
    ultimately show ?thesis
      using step hit False less.hyps [of "Suc j"]
      by (simp add: Let_def sib_path_def sib_tags_def upt del: row.simps power_Suc)
  qed
qed

lemma find_device_shrubs_path_tag_eq:
  assumes cf: "clash_free h zs" and i: "i < length zs" and own: "owner_at (length zs) i k"
  shows "find_device_shrubs_path_tag h (shrubs_roots h zs) zs (zs ! i) =
    Inr (if k = 0 then (None, None) else (Some (sib_path h zs i 0 k), Some (sib_tags i 0 k)))"
proof -
  obtain e where b: "block_at (length zs) i e" and
    f: "find_interval_index zs (zs ! i) =
      Inr (if e = 0 then None else Some (block_leaves zs i e, i mod 2 ^ e))"
    using find_interval_index_correct position_distinct [OF clash_free_distinct [OF cf] i] i by metis
  have ke: "k \<le> e" using own b by (rule owner_at_le_block)
  show ?thesis
  proof (cases "k = 0")
    case False
    then show ?thesis
      using find_shrubs_path_rows [OF cf b i own, of 0] f ke
      by (simp add: find_device_shrubs_path_tag_def)
  next
    case k0: True
    show ?thesis
    proof (cases "e = 0")
      case True
      then show ?thesis using f k0 by (simp add: find_device_shrubs_path_tag_def)
    next
      case False
      have len: "length (block_leaves zs i e) = 2 ^ e" using length_block_row [OF b, of 0] by simp
      have "find_shrubs_path h (shrubs_roots h zs) (block_leaves zs i e) 0 (i mod 2 ^ e) = Inr None"
      proof -
        have "block_leaves zs i e ! (i mod 2 ^ e) = zs ! i"
          using block_row_nth [OF b, of 0 "i mod 2 ^ e" h] by simp
        moreover have "i = last_left (length zs)" "1 \<le> length zs"
          using own k0 by (auto simp: owner_at_def root_at_def)
        moreover from this have "shrubs_roots h zs ! 0 = zs ! i"
          using shrubs_roots_nth [of 0 zs h] by simp
        moreover have "2 \<le> (2::nat) ^ e" using False by (cases e) auto
        ultimately show ?thesis
          using len i by (subst find_shrubs_path.simps) (auto simp: at_def)
      qed
      then show ?thesis using f False k0 by (simp add: find_device_shrubs_path_tag_def)
    qed
  qed
qed

section \<open>Paths fold to a root, for any hash\<close>

lemma hash_pairs_sibling:
  assumes "val < length lv" "length lv = 2 * m"
  shows "hash_pairs h lv ! (val div 2) =
    (if even val then h (lv ! val) (lv ! (val + 1)) else h (lv ! (val - 1)) (lv ! val))"
  using assms hash_pairs_nth [of "val div 2" lv h] by (auto elim!: evenE oddE)

lemma find_shrubs_path_sound:
  assumes "length lv = 2 ^ Suc d" "val < length lv" "root \<noteq> []"
  shows "\<exists>r. find_shrubs_path h root lv j val = Inr r \<and>
    (\<forall>p t. r = Some (p, t) \<longrightarrow> length p = length t \<and>
       (fold_path h (lv ! val) p t \<in> set root \<or>
        fold_path h (lv ! val) p t = row h (Suc d) lv ! 0))"
  using assms
proof (induction d arbitrary: lv j val)
  case (0 lv j val)
  note hp = hash_pairs_sibling [of val lv 1 h]
  from 0 show ?case
    by (subst find_shrubs_path.simps)
       (use hp in \<open>auto simp: at_def get_def less_2_cases_iff\<close>)
next
  case (Suc d lv j val)
  let ?temp = "hash_pairs h lv" and ?v = "val div 2"
  let ?good = "\<lambda>r x top. \<forall>p t. r = Some (p, t) \<longrightarrow> length p = length t \<and>
       (fold_path h x p t \<in> set root \<or> fold_path h x p t = top)"
  have len: "length ?temp = 2 ^ Suc d" using Suc.prems by simp
  moreover have v: "?v < length ?temp" using Suc.prems by simp
  ultimately obtain r where r: "find_shrubs_path h root ?temp (Suc j) ?v = Inr r"
    "?good r (?temp ! ?v) (row h (Suc d) ?temp ! 0)"
    using Suc.IH [of ?temp ?v "Suc j"] Suc.prems(3) by blast
  have top: "row h (Suc d) ?temp ! 0 = row h (Suc (Suc d)) lv ! 0" by (simp only: row_hash_pairs)
  have hp: "?temp ! ?v = (if even val then h (lv ! val) (lv ! (val + 1)) else h (lv ! (val - 1)) (lv ! val))"
    using hash_pairs_sibling [of val lv "2 ^ Suc d"] Suc.prems by simp
  have two: "2 \<le> length ?temp" "2 \<le> length lv" using len Suc.prems(1) by simp_all
  have vv: "\<not> (lv = [] \<or> length lv \<le> val)" using Suc.prems(2) by auto
  have s: "(if val mod 2 = 1 then val - 1 else val + 1) < length lv"
    using Suc.prems(1,2) by (auto elim!: evenE)
  define sib where "sib = lv ! (if val mod 2 = Suc 0 then val - 1 else val + 1)"
  define dir where "dir = even val"
  have fold: "fold_path h (lv ! val) (sib # p) (dir # t) = fold_path h (?temp ! ?v) p t" for p t
    using hp by (simp add: sib_def dir_def even_iff_mod_2_eq_zero)
  have pick: "(if val mod 2 = Suc 0 then (False, val - 1) else (True, val + 1))
      = (dir, if val mod 2 = Suc 0 then val - 1 else val + 1)"
    by (simp add: dir_def even_iff_mod_2_eq_zero)
  have step: "find_shrubs_path h root lv j val =
      (if root ! 0 = lv ! val \<or> length root \<le> Suc j then Inr None
       else if ?temp ! ?v = root ! Suc j then Inr (Some ([sib], [dir]))
       else case r of None \<Rightarrow> Inr None | Some (p, t) \<Rightarrow> Inr (Some (sib # p, dir # t)))"
    using two vv s v r(1) Suc.prems(2,3) pick
    by (subst find_shrubs_path.simps)
       (simp add: at_def Let_def sib_def del: length_hash_pairs split: option.split)
  show ?case
  proof (cases "?temp ! ?v = root ! Suc j \<and> Suc j < length root")
    case True
    then have "?good (Some ([sib], [dir])) (lv ! val) (row h (Suc (Suc d)) lv ! 0)"
      using fold [of "[]" "[]"] by simp
    then show ?thesis using step True by auto
  next
    case False
    then show ?thesis
      using step r(2) fold top by (cases r) (auto simp del: row.simps)
  qed
qed

lemma find_device_sound:
  "\<exists>r. find_device_shrubs_path_tag h (shrubs_roots h zs) zs x = Inr r \<and>
     (r = (None, None) \<or>
      (\<exists>p t. r = (Some p, Some t) \<and> length p = length t \<and>
         fold_path h x p t \<in> set (shrubs_roots h zs)))"
proof (cases "position x zs")
  case None
  then show ?thesis
    by (cases zs) (auto simp: find_device_shrubs_path_tag_def find_interval_index_def)
next
  case (Some i)
  note i = position_Some [OF Some]
  obtain e where b: "block_at (length zs) i e" and
    f: "find_interval_index zs x = Inr (if e = 0 then None else Some (block_leaves zs i e, i mod 2 ^ e))"
    using find_interval_index_correct [OF Some] i by auto
  show ?thesis
  proof (cases e)
    case 0
    then show ?thesis using f by (simp add: find_device_shrubs_path_tag_def)
  next
    case (Suc d)
    let ?B = "block_leaves zs i e" and ?root = "shrubs_roots h zs" and ?v = "i mod 2 ^ e"
    have len: "length ?B = 2 ^ Suc d" using length_block_row [OF b, of 0] Suc by simp
    have v: "?v < length ?B" using len Suc by simp
    have x: "?B ! ?v = x" using block_row_nth [OF b, of 0 ?v h] i by simp
    have le: "2 ^ e \<le> length zs" using block_at_root [OF b] by (simp add: root_at_def)
    have "row h (Suc d) ?B ! 0 = row h e zs ! (i div 2 ^ e)"
      using block_row_nth [OF b, of e 0 h] by (simp add: Suc del: row.simps)
    also have "\<dots> = ?root ! e"
      using shrubs_roots_nth [OF le, of h] block_at_root [OF b] by (simp add: root_at_def)
    finally have top: "row h (Suc d) ?B ! 0 \<in> set ?root"
      using le by (metis length_shrubs_roots nth_mem)
    have "?root \<noteq> []" using i by auto
    from find_shrubs_path_sound [OF len v this, of h 0, unfolded x]
    obtain r where r: "find_shrubs_path h ?root ?B 0 ?v = Inr r"
      "\<forall>p t. r = Some (p, t) \<longrightarrow> length p = length t \<and>
         (fold_path h x p t \<in> set ?root \<or> fold_path h x p t = row h (Suc d) ?B ! 0)" by blast
    then have "\<forall>p t. r = Some (p, t) \<longrightarrow> length p = length t \<and> fold_path h x p t \<in> set ?root"
      using top by (auto simp del: row.simps)
    with r(1) show ?thesis
      using f Suc by (cases r) (auto simp: find_device_shrubs_path_tag_def)
  qed
qed

section \<open>Stability of the paths of unaffected leaves\<close>

lemma clash_free_append: "clash_free h (zs @ ys) \<Longrightarrow> clash_free h zs"
proof -
  assume cf: "clash_free h (zs @ ys)"
  have d: "distinct (row h k zs)" if "k < length zs" for k
    using cf that row_append [of h k zs ys] unfolding clash_free_def
    by (metis atLeastLessThan_iff distinct_take le0 length_append set_upt trans_less_add1)
  have "set (row h k zs) \<inter> set zs = {}" if "1 \<le> k" "k < length zs" for k
  proof -
    have "set (row h k zs) \<subseteq> set (row h k (zs @ ys))"
      using row_append [of h k zs ys] by (metis set_take_subset)
    moreover have "set (row h k (zs @ ys)) \<inter> set (zs @ ys) = {}"
      using cf that by (auto simp: clash_free_def)
    ultimately show ?thesis by auto
  qed
  then show ?thesis using d by (auto simp: clash_free_def)
qed

lemma even_less_even: "even p \<Longrightarrow> even c \<Longrightarrow> p < c \<Longrightarrow> Suc p < c" for p c :: nat
  by (metis Suc_lessI even_Suc)

lemma sib_path_append:
  assumes i: "i < length zs" and own: "owner_at (length zs) i k"
  shows "sib_path h (zs @ ys) i 0 k = sib_path h zs i 0 k"
proof -
  obtain e where b: "block_at (length zs) i e" using i by (rule block_at_exists)
  have ke: "k \<le> e" using own b by (rule owner_at_le_block)
  have "row h l (zs @ ys) ! sibling_pos (i div 2 ^ l) = row h l zs ! sibling_pos (i div 2 ^ l)"
    if l: "l < k" for l
  proof (rule row_append_nth)
    let ?c = "length zs div 2 ^ l" and ?p = "i div 2 ^ l"
    have p: "?p < ?c" using row_pos [OF b i] l ke by simp
    then have "2 ^ l \<le> length zs" unfolding pow_le_iff_div by linarith
    then have "?p \<noteq> last_left ?c" using own l by (simp add: owner_at_def root_at_def)
    then show "sibling_pos ?p < ?c"
      using p even_less_even [of ?p ?c] by (auto simp: sibling_pos_def last_left_def split: if_splits)
  qed
  then show ?thesis by (auto simp: sib_path_def)
qed

lemma path_tag_stable:
  assumes "affected_indices (length zs) (length ys) = Inr js" "i < length zs" "i + 1 \<notin> set js"
    and cf: "clash_free h (zs @ ys)"
  shows "find_device_shrubs_path_tag h (shrubs_roots h (zs @ ys)) (zs @ ys) (zs ! i) =
         find_device_shrubs_path_tag h (shrubs_roots h zs) zs (zs ! i)"
proof -
  obtain k where k: "owner_at (length zs) i k" using assms(2) by (rule owner_at_exists)
  then have k': "owner_at (length (zs @ ys)) i k" using unaffected_owner [OF assms(1-3)] by simp
  show ?thesis
    using find_device_shrubs_path_tag_eq [OF cf _ k'] assms(2)
      find_device_shrubs_path_tag_eq [OF clash_free_append [OF cf] assms(2) k]
      sib_path_append [OF assms(2) k, of h ys]
    by (simp add: nth_append)
qed

end
