(* ===== verification/Accumulator.thy ===== *)
theory Accumulator
  imports ShrubsPath
begin

text \<open>
  The interface through which the daemon uses the accumulator: a commitment to a list of
  leaves, extended batch by batch, and the lookup of the witness of a leaf. The laws are the
  locale's assumptions; what follows for sequences of batches is proved once inside it, and
  the interpretation \<open>shrubs\<close> discharges the laws on the model of the code. The properties of
  the tree close the theory.
\<close>

section \<open>The interface\<close>

primrec extend_all ::
  "('c \<Rightarrow> 'f list \<Rightarrow> 'f list \<Rightarrow> 'c res) \<Rightarrow> 'c \<Rightarrow> 'f list \<Rightarrow> 'f list list \<Rightarrow> ('c \<times> 'f list) res" where
  "extend_all ext c xs [] = Inr (c, xs)"
| "extend_all ext c xs (b # bs) = and_then (ext c xs b) (\<lambda>c'. extend_all ext c' (xs @ b) bs)"

text \<open>Leaf i is not reported by any of the batches.\<close>

primrec untouched :: "(nat \<Rightarrow> nat \<Rightarrow> nat list res) \<Rightarrow> nat \<Rightarrow> nat \<Rightarrow> 'f list list \<Rightarrow> bool" where
  "untouched moved n i [] \<longleftrightarrow> True"
| "untouched moved n i (b # bs) \<longleftrightarrow>
     (case moved n (length b) of Inl _ \<Rightarrow> False | Inr js \<Rightarrow> i + 1 \<notin> set js) \<and>
     untouched moved (n + length b) i bs"

locale accumulator =
  fixes commit :: "'f list \<Rightarrow> 'c"
    and extend :: "'c \<Rightarrow> 'f list \<Rightarrow> 'f list \<Rightarrow> 'c res"
    and locate :: "'c \<Rightarrow> 'f list \<Rightarrow> 'f \<Rightarrow> 'w res"
    and opens :: "'c \<Rightarrow> 'f \<Rightarrow> 'w \<Rightarrow> bool"
    and moved :: "nat \<Rightarrow> nat \<Rightarrow> nat list res"
    and good :: "'f list \<Rightarrow> bool"
  assumes extend_commit:
      "xs \<noteq> [] \<Longrightarrow> ys \<noteq> [] \<Longrightarrow> length xs < 2 ^ 64 \<Longrightarrow> extend (commit xs) xs ys = Inr (commit (xs @ ys))"
    and locate_opens: "\<exists>w. locate (commit xs) xs x = Inr w \<and> opens (commit xs) x w"
    and locate_stable:
      "good (xs @ ys) \<Longrightarrow> i < length xs \<Longrightarrow> moved (length xs) (length ys) = Inr js \<Longrightarrow>
       i + 1 \<notin> set js \<Longrightarrow>
       locate (commit (xs @ ys)) (xs @ ys) (xs ! i) = locate (commit xs) xs (xs ! i)"
    and good_prefix: "good (xs @ ys) \<Longrightarrow> good xs"
begin

lemma extend_all_commit:
  "xs \<noteq> [] \<Longrightarrow> [] \<notin> set bs \<Longrightarrow> length (xs @ concat bs) < 2 ^ 64 \<Longrightarrow>
   extend_all extend (commit xs) xs bs = Inr (commit (xs @ concat bs), xs @ concat bs)"
proof (induction bs arbitrary: xs)
  case (Cons b bs)
  then have "b \<noteq> []" by auto
  then show ?case using Cons extend_commit [of xs b] Cons.IH [of "xs @ b"] by simp
qed simp

lemma locate_after_batches:
  assumes "xs \<noteq> []" "[] \<notin> set bs" "length (xs @ concat bs) < 2 ^ 64"
    and "extend_all extend (commit xs) xs bs = Inr (c, ys)"
  shows "\<exists>w. locate c ys x = Inr w \<and> opens c x w"
  using extend_all_commit [OF assms(1-3)] assms(4) locate_opens by auto

lemma untouched_witness:
  "good (xs @ concat bs) \<Longrightarrow> i < length xs \<Longrightarrow> untouched moved (length xs) i bs \<Longrightarrow>
   locate (commit (xs @ concat bs)) (xs @ concat bs) (xs ! i) = locate (commit xs) xs (xs ! i)"
proof (induction bs arbitrary: xs)
  case (Cons b bs)
  obtain js where js: "moved (length xs) (length b) = Inr js" "i + 1 \<notin> set js"
    using Cons.prems(3) by (auto split: sum.splits)
  have "good (xs @ b)" using Cons.prems(1) good_prefix [of "xs @ b" "concat bs"] by simp
  note one = locate_stable [OF this Cons.prems(2) js]
  have "locate (commit ((xs @ b) @ concat bs)) ((xs @ b) @ concat bs) ((xs @ b) ! i) =
      locate (commit (xs @ b)) (xs @ b) ((xs @ b) ! i)"
    by (rule Cons.IH) (use Cons.prems in auto)
  then show ?case using one Cons.prems(2) by (simp add: nth_append)
qed simp

end

section \<open>The shrubs tree\<close>

text \<open>The two calls of the daemon that change the root vector, as one extension step.\<close>

definition shrubs_extend :: "('f \<Rightarrow> 'f \<Rightarrow> 'f) \<Rightarrow> 'f list \<Rightarrow> 'f list \<Rightarrow> 'f list \<Rightarrow> 'f list res" where
  "shrubs_extend h root old_leaves batch =
     and_then (insert_batch_devices h root old_leaves batch) (\<lambda>(root', rest). Inr root')"

definition path_opens ::
  "('f \<Rightarrow> 'f \<Rightarrow> 'f) \<Rightarrow> 'f list \<Rightarrow> 'f \<Rightarrow> 'f list option \<times> bool list option \<Rightarrow> bool" where
  "path_opens h root x w =
     (case w of
        (Some p, Some t) \<Rightarrow> length p = length t \<and> fold_path h x p t \<in> set root
      | (None, None) \<Rightarrow> True
      | _ \<Rightarrow> False)"

interpretation shrubs: accumulator "shrubs_roots h" "shrubs_extend h"
    "find_device_shrubs_path_tag h" "path_opens h" affected_indices "clash_free h"
  for h :: "'f \<Rightarrow> 'f \<Rightarrow> 'f"
proof unfold_locales
  fix xs ys :: "'f list" and x :: 'f and i :: nat and js
  show "xs \<noteq> [] \<Longrightarrow> ys \<noteq> [] \<Longrightarrow> length xs < 2 ^ 64 \<Longrightarrow>
      shrubs_extend h (shrubs_roots h xs) xs ys = Inr (shrubs_roots h (xs @ ys))"
    by (simp add: shrubs_extend_def insert_batch_devices_correct)
  show "\<exists>w. find_device_shrubs_path_tag h (shrubs_roots h xs) xs x = Inr w \<and>
      path_opens h (shrubs_roots h xs) x w"
    using find_device_sound [of h xs x] by (auto simp: path_opens_def)
  show "clash_free h (xs @ ys) \<Longrightarrow> i < length xs \<Longrightarrow>
      affected_indices (length xs) (length ys) = Inr js \<Longrightarrow> i + 1 \<notin> set js \<Longrightarrow>
      find_device_shrubs_path_tag h (shrubs_roots h (xs @ ys)) (xs @ ys) (xs ! i) =
      find_device_shrubs_path_tag h (shrubs_roots h xs) xs (xs ! i)"
    by (rule path_tag_stable)
  show "clash_free h (xs @ ys) \<Longrightarrow> clash_free h xs" by (rule clash_free_append)
qed

section \<open>A free hash, for concrete trees\<close>

datatype hterm = Atom nat | Node hterm hterm

definition atoms :: "nat \<Rightarrow> hterm list" where
  "atoms n = map Atom [0..<n]"

section \<open>Properties\<close>

text \<open>
  Building the tree from scratch publishes, for every level k with at least one complete
  node, the last left child of row k of the hash tree over the leaves, and nothing else.
\<close>
theorem create_batch_devices_roots:
  "create_batch_devices h [] xs =
     map (\<lambda>k. row h k xs ! last_left (length xs div 2 ^ k)) (filter (\<lambda>k. 2 ^ k \<le> length xs) [0..<length xs])"
proof (rule nth_equalityI)
  let ?L = "filter (\<lambda>k. 2 ^ k \<le> length xs) [0..<length xs]"
  have sub: "{k. 2 ^ k \<le> length xs} = {0..<length (shrubs_roots h xs)}"
    by (auto simp: length_shrubs_roots)
  have L: "?L = [0..<length (shrubs_roots h xs)]"
  proof (rule sorted_distinct_set_unique)
    show "set ?L = set [0..<length (shrubs_roots h xs)]"
      using sub small_levels by (auto simp: length_shrubs_roots)
  qed (simp_all add: sorted_wrt_filter)
  show "length (create_batch_devices h [] xs) =
      length (map (\<lambda>k. row h k xs ! last_left (length xs div 2 ^ k)) ?L)"
    unfolding L by (simp add: shrubs_roots_def)
  fix k assume "k < length (create_batch_devices h [] xs)"
  then show "create_batch_devices h [] xs ! k =
      map (\<lambda>k. row h k xs ! last_left (length xs div 2 ^ k)) ?L ! k"
    unfolding L using shrubs_roots_nth [of k xs h]
    by (simp add: shrubs_roots_def [symmetric] length_shrubs_roots)
qed

text \<open>
  C1. Inserting a batch into the tree of the old leaves gives exactly the root list of the
  tree built from all leaves, without a panic; \<open>new_leaves\<close> is drained when the old count is
  odd and kept otherwise.
\<close>
theorem insert_equals_rebuild:
  assumes "old_leaves \<noteq> []" "new_leaves \<noteq> []" "length old_leaves < 2 ^ 64"
  shows "insert_batch_devices h (create_batch_devices h [] old_leaves) old_leaves new_leaves =
    Inr (create_batch_devices h [] (old_leaves @ new_leaves),
         if odd (length old_leaves) then [] else new_leaves)"
  using insert_batch_devices_correct [OF assms] by (simp only: shrubs_roots_def)

theorem insert_equals_rebuild_witness:
  "insert_batch_devices Node (create_batch_devices Node [] (atoms 3)) (atoms 3) [Atom 7, Atom 8] =
     Inr (create_batch_devices Node [] (atoms 3 @ [Atom 7, Atom 8]), [])"
  using insert_equals_rebuild [of "atoms 3" "[Atom 7, Atom 8]" Node]
  by (simp add: atoms_def)

text \<open>
  Any sequence of non-empty batches leaves the root list of the tree of all leaves in
  arrival order: the commitment depends on the leaves only, not on how they were batched.
\<close>
theorem batches_equal_rebuild:
  assumes "xs \<noteq> []" "[] \<notin> set bs" "length (xs @ concat bs) < 2 ^ 64"
  shows "extend_all (shrubs_extend h) (create_batch_devices h [] xs) xs bs =
    Inr (create_batch_devices h [] (xs @ concat bs), xs @ concat bs)"
  using shrubs.extend_all_commit [OF assms, of h] by (simp only: shrubs_roots_def)

theorem batches_equal_rebuild_witness:
  "extend_all (shrubs_extend Node) (create_batch_devices Node [] [Atom 0]) [Atom 0]
     [[Atom 1, Atom 2], [Atom 3]] =
   Inr (create_batch_devices Node [] [Atom 0, Atom 1, Atom 2, Atom 3],
        [Atom 0, Atom 1, Atom 2, Atom 3])"
  using batches_equal_rebuild [of "[Atom 0]" "[[Atom 1, Atom 2], [Atom 3]]" Node]
  by simp

text \<open>
  \<open>exponents_of_two\<close> returns the positions of the set bits of its argument in ascending
  order, for all 64-bit values.
\<close>
theorem exponents_of_two_set_bits:
  "exponents_of_two x = map int (filter (bit x) [0..<64])"
  by (rule exponents_of_two_eq)

text \<open>
  C13. \<open>find_owner_root\<close> returns for every leaf index, with no panic: the span is that of the
  lowest level whose root stands above the leaf, it holds the index, and it lies within the
  tree, so the block size never exceeds the leaf count.
\<close>
theorem find_owner_root_lowest:
  assumes "1 \<le> index" "index \<le> n"
  shows "\<exists>k r. find_owner_root index n = Inr r \<and> owner_at n (index - 1) k \<and>
    r = \<lparr>level = k, left = last_left (n div 2 ^ k) * 2 ^ k + 1,
         right = (last_left (n div 2 ^ k) + 1) * 2 ^ k\<rparr> \<and>
    left r \<le> index \<and> index \<le> right r \<and> right r \<le> n \<and> 2 ^ k \<le> n"
proof -
  obtain i where i: "index = i + 1" "i < n" using assms by (cases index) auto
  obtain k where k: "owner_at n i k" "find_owner_root index n = Inr (span_at i k)"
    using find_owner_root_total [OF i(2)] i(1) by auto
  have at: "i div 2 ^ k = last_left (n div 2 ^ k)" "2 ^ k \<le> n"
    using k(1) by (auto simp: owner_at_def root_at_def)
  have "last_left (n div 2 ^ k) < n div 2 ^ k"
    using at(2) pow_le_iff_div by (intro last_left_less) blast
  then have "(last_left (n div 2 ^ k) + 1) * 2 ^ k \<le> n div 2 ^ k * 2 ^ k"
    by (intro mult_le_mono1) simp
  also have "\<dots> \<le> n" by simp
  finally have r: "(i div 2 ^ k + 1) * 2 ^ k \<le> n" using at(1) by simp
  have range: "i div 2 ^ k * 2 ^ k + 1 \<le> i + 1 \<and> i + 1 \<le> (i div 2 ^ k + 1) * 2 ^ k"
    using div_eq_iff_range [of "2 ^ k" i "i div 2 ^ k"] by simp
  show ?thesis
    by (rule exI [of _ k], rule exI [of _ "span_at i k"])
       (use k at r range i(1) in \<open>simp add: span_at_def\<close>)
qed

theorem find_owner_root_lowest_witness:
  "\<exists>k r. find_owner_root 3 5 = Inr r \<and> owner_at 5 2 k \<and> left r \<le> 3 \<and> 3 \<le> right r \<and> right r \<le> 5"
  using find_owner_root_lowest [of 3 5] by auto

text \<open>
  \<open>affected_indices\<close> lists, in ascending order and 1-based, exactly the old leaves whose
  owner root changes by the insertion; it does not panic on a non-empty tree.
\<close>
theorem affected_indices_exact:
  assumes "0 < n"
  shows "\<exists>js. affected_indices n m = Inr js \<and> sorted js \<and> distinct js \<and> set js \<subseteq> {1..n} \<and>
    (\<forall>i<n. i + 1 \<in> set js \<longleftrightarrow> (\<exists>k. owner_at n i k \<and> \<not> owner_at (n + m) i k))"
proof -
  let ?moved = "\<lambda>j. find_owner_root j n \<noteq> find_owner_root j (n + m)"
  let ?js = "filter ?moved [1..<n + 1]"
  have "i + 1 \<in> set ?js \<longleftrightarrow> (\<exists>k. owner_at n i k \<and> \<not> owner_at (n + m) i k)" if i: "i < n" for i
  proof -
    have i': "i < n + m" using i by simp
    obtain k where k: "owner_at n i k" using i by (rule owner_at_exists)
    obtain k' where k': "owner_at (n + m) i k'" using i' by (rule owner_at_exists)
    have "?moved (i + 1) \<longleftrightarrow> k \<noteq> k'"
      using find_owner_root_correct [OF i k] find_owner_root_correct [OF i' k']
      by (simp add: span_at_inject)
    moreover have "(\<exists>k. owner_at n i k \<and> \<not> owner_at (n + m) i k) \<longleftrightarrow> k \<noteq> k'"
      using k k' owner_at_unique by metis
    moreover have "i + 1 \<in> set [1..<n + 1]" using i by auto
    ultimately show ?thesis by (simp only: set_filter mem_Collect_eq simp_thms)
  qed
  moreover have "sorted ?js" "distinct ?js" "set ?js \<subseteq> {1..n}"
    by (auto simp: sorted_wrt_filter simp del: upt_Suc)
  ultimately show ?thesis using affected_indices_eq [OF assms, of m] by blast
qed

theorem affected_indices_exact_witness:
  "\<exists>js. affected_indices 5 2 = Inr js \<and> (\<forall>i<5. i + 1 \<in> set js \<longleftrightarrow> (\<exists>k. owner_at 5 i k \<and> \<not> owner_at 7 i k))"
  using affected_indices_exact [of 5 2] by auto

text \<open>
  C2. In a tree over pairwise distinct leaves without hash collisions (no two nodes of a row equal, no
  inner node equal to a leaf) the lookup of a leaf returns exactly the siblings and direction tags of
  the rows below its owner level, and \<open>(None, None)\<close> exactly when the leaf is itself a root.
\<close>
theorem device_path_exact:
  assumes "clash_free h zs" "i < length zs" "owner_at (length zs) i k"
  shows "find_device_shrubs_path_tag h (create_batch_devices h [] zs) zs (zs ! i) =
    Inr (if k = 0 then (None, None) else (Some (sib_path h zs i 0 k), Some (sib_tags i 0 k)))"
  using find_device_shrubs_path_tag_eq [OF assms] by (simp only: shrubs_roots_def)

theorem device_path_exact_witness:
  "find_device_shrubs_path_tag Node (create_batch_devices Node [] (atoms 6)) (atoms 6) (atoms 6 ! 1) =
     Inr (Some [Atom 0, Node (Atom 2) (Atom 3)], Some [False, True])"
proof -
  have "clash_free Node (atoms 6)" by code_simp
  moreover have "owner_at 6 1 2"
    by (auto simp: owner_at_def root_at_def last_left_def less_2_cases_iff)
  moreover have "length (atoms 6) = 6" "sib_path Node (atoms 6) 1 0 2 = [Atom 0, Node (Atom 2) (Atom 3)]"
    "sib_tags 1 0 2 = [False, True]" by code_simp+
  ultimately show ?thesis
    using device_path_exact [of Node "atoms 6" 1 2] by simp
qed

text \<open>
  C4. For any hash and any leaves the lookup returns, without a panic, either no path or a path
  and tags of equal length that fold from the leaf to one of the published roots.
\<close>
theorem device_path_folds_to_root:
  "\<exists>r. find_device_shrubs_path_tag h (create_batch_devices h [] zs) zs x = Inr r \<and>
     (r = (None, None) \<or>
      (\<exists>p t. r = (Some p, Some t) \<and> length p = length t \<and>
         fold_path h x p t \<in> set (create_batch_devices h [] zs)))"
  using find_device_sound [of h zs x] by (simp only: shrubs_roots_def)

text \<open>
  C3. A leaf that no batch of a sequence reports as affected keeps its path and tags, so an attester
  that only received new public contexts can still open the current root list. This is for pairwise
  distinct leaves and no hash collisions (no two nodes of a row of the final tree equal, no inner node
  equal to a leaf): a second attester with the same leaf can make it false, as the lookup is by value.
\<close>
theorem unaffected_path_unchanged:
  assumes "clash_free h (xs @ concat bs)" "i < length xs"
    and "untouched affected_indices (length xs) i bs"
  shows "find_device_shrubs_path_tag h (create_batch_devices h [] (xs @ concat bs))
           (xs @ concat bs) (xs ! i) =
         find_device_shrubs_path_tag h (create_batch_devices h [] xs) xs (xs ! i)"
  using shrubs.untouched_witness [OF assms] by (simp only: shrubs_roots_def)

theorem unaffected_path_unchanged_witness:
  "find_device_shrubs_path_tag Node (create_batch_devices Node [] (atoms 5)) (atoms 5) (Atom 0) =
   find_device_shrubs_path_tag Node (create_batch_devices Node [] (atoms 3)) (atoms 3) (Atom 0)"
proof -
  have a: "atoms 5 = atoms 3 @ concat [[Atom 3], [Atom 4]]" "atoms 3 ! 0 = Atom 0"
    "length (atoms 3) = 3" by code_simp+
  have "clash_free Node (atoms 3 @ concat [[Atom 3], [Atom 4]])" by code_simp
  moreover have "untouched affected_indices (length (atoms 3)) 0 [[Atom 3], [Atom 4]]" by code_simp
  ultimately show ?thesis
    using unaffected_path_unchanged [of Node "atoms 3" "[[Atom 3], [Atom 4]]" 0] a by simp
qed

end
