(* ===== verification/Codec.thy ===== *)
theory Codec
  imports Prelude
begin

text \<open>
  The binary codec primitives of \<^verbatim>\<open>hydra-toolkit/src/lib.rs\<close>: big-endian integers,
  length-prefixed bytes, strings, durations, booleans and options.

  \<^item> An \<open>append_*\<close> function of the code pushes to the end of \<open>out\<close>; its model returns what is
    pushed, so that a sequence of calls is a concatenation.
  \<^item> A \<open>read_*\<close> function advances a cursor; its model takes the bytes from the cursor on and
    returns the value with the bytes that remain.
  \<^item> A Rust \<open>String\<close> is a \<open>string\<close> whose characters are its UTF-8 bytes.

  The locale \<open>codec\<close> states what a reader owes to its writer. It is interpreted on every
  primitive here.
\<close>

section \<open>Big-endian integers\<close>

primrec be_nat :: "nat \<Rightarrow> nat \<Rightarrow> byte list" where
  "be_nat 0 x = []"
| "be_nat (Suc n) x = be_nat n (x div 256) @ [of_nat x]"

definition nat_of_be :: "byte list \<Rightarrow> nat" where
  "nat_of_be bs = foldl (\<lambda>a b. a * 256 + unat b) 0 bs"

lemma length_be_nat [simp]: "length (be_nat n x) = n"
  by (induction n arbitrary: x) simp_all

lemma nat_of_be_snoc: "nat_of_be (bs @ [b]) = nat_of_be bs * 256 + unat b"
  by (simp add: nat_of_be_def)

lemma nat_of_be_nat: "nat_of_be (be_nat n x) = x mod 256 ^ n"
proof (induction n arbitrary: x)
  case 0
  then show ?case by (simp add: nat_of_be_def)
next
  case (Suc n)
  have "unat (of_nat x :: byte) = x mod 256" by (simp add: unat_of_nat)
  then show ?case
    using Suc by (simp add: nat_of_be_snoc mod_mult2_eq)
qed

lemma nat_of_be_less: "nat_of_be bs < 256 ^ length bs"
proof (induction bs rule: rev_induct)
  case Nil
  then show ?case by (simp add: nat_of_be_def)
next
  case (snoc b bs)
  have "unat b < 256" by (rule unat_byte)
  then have "nat_of_be bs * 256 + unat b < (nat_of_be bs + 1) * 256" by simp
  also have "\<dots> \<le> 256 ^ length bs * 256" using snoc by (intro mult_le_mono1) simp
  finally show ?case by (simp add: nat_of_be_snoc mult.commute)
qed

lemma be_nat_of_be: "be_nat (length bs) (nat_of_be bs) = bs"
proof (induction bs rule: rev_induct)
  case (snoc b bs)
  have "(nat_of_be bs * 256 + unat b) div 256 = nat_of_be bs" using unat_byte [of b] by simp
  moreover have "(of_nat (nat_of_be bs * 256 + unat b) :: byte) = b"
  proof -
    have "(of_nat (nat_of_be bs * 256 + unat b) :: byte) = of_nat (nat_of_be bs) * of_nat 256 + b"
      by simp
    also have "(of_nat 256 :: byte) = 0" by simp
    finally show ?thesis by simp
  qed
  ultimately show ?case using snoc by (simp add: nat_of_be_snoc)
qed simp

text \<open>\<open>u64::to_be_bytes\<close>, \<open>u32::to_be_bytes\<close> and \<open>from_be_bytes\<close>.\<close>

definition u64_be :: "u64 \<Rightarrow> byte list" where
  "u64_be w = be_nat 8 (unat w)"

definition u32_be :: "u32 \<Rightarrow> byte list" where
  "u32_be w = be_nat 4 (unat w)"

definition u64_of_be :: "byte list \<Rightarrow> u64" where
  "u64_of_be bs = of_nat (nat_of_be bs)"

definition u32_of_be :: "byte list \<Rightarrow> u32" where
  "u32_of_be bs = of_nat (nat_of_be bs)"

lemma length_u64_be [simp]: "length (u64_be w) = 8" "length (u32_be v) = 4"
  by (simp_all add: u64_be_def u32_be_def)

lemma u64_of_be_be [simp]: "u64_of_be (u64_be w) = w"
  using unat_bound [of w] by (simp add: u64_of_be_def u64_be_def nat_of_be_nat)

lemma u32_of_be_be [simp]: "u32_of_be (u32_be w) = w"
  using unat_bound [of w] by (simp add: u32_of_be_def u32_be_def nat_of_be_nat)

lemma u64_be_of_be: "length bs = 8 \<Longrightarrow> u64_be (u64_of_be bs) = bs"
  using nat_of_be_less [of bs] be_nat_of_be [of bs]
  by (simp add: u64_be_def u64_of_be_def unat_of_nat_small)

section \<open>Strings\<close>

definition bytes_of :: "string \<Rightarrow> byte list" where
  "bytes_of s = map (\<lambda>c. of_nat (of_char c)) s"

definition string_of :: "byte list \<Rightarrow> string" where
  "string_of bs = map (\<lambda>b. char_of (unat b)) bs"

lemma string_of_bytes_of [simp]: "string_of (bytes_of s) = s"
  by (simp add: string_of_def bytes_of_def unat_of_nat comp_def)

lemma bytes_of_string_of [simp]: "bytes_of (string_of bs) = bs"
proof -
  have "(of_nat (of_char (char_of (unat b) :: char)) :: byte) = b" for b :: byte
    using unat_byte [of b] by simp
  then show ?thesis by (simp add: string_of_def bytes_of_def comp_def)
qed

lemma length_bytes_of [simp]: "length (bytes_of s) = length s"
  by (simp add: bytes_of_def)

text \<open>Well-formed UTF-8 (Unicode table 3-7), what \<open>String::from_utf8\<close> accepts.\<close>

definition continuation :: "nat \<Rightarrow> nat \<Rightarrow> byte \<Rightarrow> bool" where
  "continuation lo hi b \<longleftrightarrow> lo \<le> unat b \<and> unat b \<le> hi"

fun valid_utf8 :: "byte list \<Rightarrow> bool" where
  "valid_utf8 [] = True"
| "valid_utf8 (a # bs) =
     (if unat a < 128 then valid_utf8 bs
      else case bs of
        [] \<Rightarrow> False
      | b # cs \<Rightarrow>
          if 194 \<le> unat a \<and> unat a \<le> 223 then continuation 128 191 b \<and> valid_utf8 cs
          else case cs of
            [] \<Rightarrow> False
          | c # ds \<Rightarrow>
              if unat a = 224 then continuation 160 191 b \<and> continuation 128 191 c \<and> valid_utf8 ds
              else if unat a = 237 then continuation 128 159 b \<and> continuation 128 191 c \<and> valid_utf8 ds
              else if 225 \<le> unat a \<and> unat a \<le> 239 then
                continuation 128 191 b \<and> continuation 128 191 c \<and> valid_utf8 ds
              else case ds of
                [] \<Rightarrow> False
              | d # es \<Rightarrow>
                  (if unat a = 240 then continuation 144 191 b
                   else if unat a = 244 then continuation 128 143 b
                   else 241 \<le> unat a \<and> unat a \<le> 243 \<and> continuation 128 191 b) \<and>
                  continuation 128 191 c \<and> continuation 128 191 d \<and> valid_utf8 es)"

definition from_utf8 :: "byte list \<Rightarrow> string option" where
  "from_utf8 bs = (if valid_utf8 bs then Some (string_of bs) else None)"

lemma valid_utf8_ascii: "(\<And>b. b \<in> set bs \<Longrightarrow> unat b < 128) \<Longrightarrow> valid_utf8 bs"
  by (induction bs) auto

section \<open>Durations\<close>

text \<open>\<open>std::time::Duration\<close>: the nanosecond part is below one second.\<close>

datatype duration = Duration (as_secs: u64) (subsec_nanos: u32)

definition nanos_per_sec :: nat where
  "nanos_per_sec = 1000000000"

definition duration_ok :: "duration \<Rightarrow> bool" where
  "duration_ok d \<longleftrightarrow> unat (subsec_nanos d) < nanos_per_sec"

definition duration_nanos :: "duration \<Rightarrow> nat" where
  "duration_nanos d = unat (as_secs d) * nanos_per_sec + unat (subsec_nanos d)"

text \<open>\<open>Duration::new\<close> carries whole seconds out of \<open>nanos\<close> and panics when that overflows.\<close>

definition duration_new :: "u64 \<Rightarrow> u32 \<Rightarrow> duration res" where
  "duration_new secs nanos =
     (if unat nanos < nanos_per_sec then Inr (Duration secs nanos)
      else
        let carry = unat nanos div nanos_per_sec in
        if unat secs + carry < 2 ^ 64 then
          Inr (Duration (secs + of_nat carry) (of_nat (unat nanos mod nanos_per_sec)))
        else Inl (Panic ''overflow in Duration::new''))"

definition duration_from_secs :: "u64 \<Rightarrow> duration" where
  "duration_from_secs s = Duration s 0"

text \<open>\<open>Duration::checked_add\<close>.\<close>

definition checked_add :: "duration \<Rightarrow> duration \<Rightarrow> duration option" where
  "checked_add a b =
     (let nanos = unat (subsec_nanos a) + unat (subsec_nanos b);
          carry = (if nanos_per_sec \<le> nanos then 1 else 0);
          secs = unat (as_secs a) + unat (as_secs b)
      in if secs < 2 ^ 64 \<and> secs + carry < 2 ^ 64 then
           Some (Duration (of_nat (secs + carry)) (of_nat (nanos - carry * nanos_per_sec)))
         else None)"

instantiation duration :: linorder
begin

definition less_eq_duration :: "duration \<Rightarrow> duration \<Rightarrow> bool" where
  "less_eq_duration a b \<longleftrightarrow>
     as_secs a < as_secs b \<or> as_secs a = as_secs b \<and> subsec_nanos a \<le> subsec_nanos b"

definition less_duration :: "duration \<Rightarrow> duration \<Rightarrow> bool" where
  "less_duration a b \<longleftrightarrow>
     as_secs a < as_secs b \<or> as_secs a = as_secs b \<and> subsec_nanos a < subsec_nanos b"

instance
  by standard (auto simp: less_eq_duration_def less_duration_def intro: duration.expand)

end

lemma less_eq_duration_nanos:
  assumes "duration_ok a" "duration_ok b"
  shows "a \<le> b \<longleftrightarrow> duration_nanos a \<le> duration_nanos b"
proof -
  let ?s = "unat (as_secs a)" and ?t = "unat (as_secs b)"
  have *: "x < y \<Longrightarrow> x * nanos_per_sec + nanos_per_sec \<le> y * nanos_per_sec" for x y :: nat
    by (metis Suc_leI add.commute mult_Suc mult_le_mono1)
  consider "?s < ?t" | "?s = ?t" | "?t < ?s" by linarith
  then show ?thesis
    using assms * [of ?s ?t] * [of ?t ?s]
    by cases (auto simp: less_eq_duration_def duration_nanos_def duration_ok_def
        word_less_nat_alt word_le_nat_alt word_unat_eq_iff)
qed

lemma duration_of_nat:
  assumes "k < 2 ^ 64" "m < nanos_per_sec"
  shows "duration_nanos (Duration (of_nat k) (of_nat m)) = k * nanos_per_sec + m"
    and "duration_ok (Duration (of_nat k) (of_nat m))"
proof -
  have "m < 2 ^ LENGTH(32)" using assms(2) by (simp add: nanos_per_sec_def)
  then have "unat (of_nat m :: u32) = m" by (rule unat_of_nat_small)
  moreover have "unat (of_nat k :: u64) = k" using assms(1) by (intro unat_of_nat_small) simp
  ultimately show "duration_nanos (Duration (of_nat k) (of_nat m)) = k * nanos_per_sec + m"
    "duration_ok (Duration (of_nat k) (of_nat m))"
    using assms by (simp_all add: duration_nanos_def duration_ok_def)
qed

lemma checked_add_nanos:
  assumes "duration_ok a" "duration_ok b" "checked_add a b = Some c"
  shows "duration_nanos c = duration_nanos a + duration_nanos b \<and> duration_ok c"
proof -
  let ?n = "unat (subsec_nanos a) + unat (subsec_nanos b)"
  let ?s = "unat (as_secs a) + unat (as_secs b)"
  have n: "?n < 2 * nanos_per_sec" using assms(1,2) by (simp add: duration_ok_def)
  show ?thesis
  proof (cases "nanos_per_sec \<le> ?n")
    case True
    then have c: "?s + 1 < 2 ^ 64" "c = Duration (of_nat (?s + 1)) (of_nat (?n - nanos_per_sec))"
      using assms(3) by (auto simp: checked_add_def Let_def split: if_splits)
    have "?n - nanos_per_sec < nanos_per_sec" using n by simp
    note d = duration_of_nat [OF c(1) this, folded c(2)]
    then show ?thesis using True by (simp add: duration_nanos_def [of a] duration_nanos_def [of b] algebra_simps)
  next
    case False
    then have c: "?s < 2 ^ 64" "c = Duration (of_nat ?s) (of_nat ?n)"
      using assms(3) by (auto simp: checked_add_def Let_def split: if_splits)
    have "?n < nanos_per_sec" using False by simp
    note d = duration_of_nat [OF c(1) this, folded c(2)]
    then show ?thesis by (simp add: duration_nanos_def [of a] duration_nanos_def [of b] algebra_simps)
  qed
qed

lemma less_duration_nanos:
  "duration_ok a \<Longrightarrow> duration_ok b \<Longrightarrow> a < b \<longleftrightarrow> duration_nanos a < duration_nanos b"
  using less_eq_duration_nanos [of b a] by (simp add: linorder_not_le [symmetric])

lemma duration_from_secs_ok [simp]: "duration_ok (duration_from_secs s)"
  by (simp add: duration_ok_def duration_from_secs_def nanos_per_sec_def)

lemma duration_nanos_from_secs: "duration_nanos (duration_from_secs s) = unat s * nanos_per_sec"
  by (simp add: duration_nanos_def duration_from_secs_def)

text \<open>A window that does not overflow is open exactly until its end.\<close>

lemma checked_add_defined:
  assumes "duration_ok a" "duration_ok b"
    and "duration_nanos a + duration_nanos b < 2 ^ 64 * nanos_per_sec"
  shows "\<exists>c. checked_add a b = Some c"
proof -
  let ?n = "unat (subsec_nanos a) + unat (subsec_nanos b)"
  let ?s = "unat (as_secs a) + unat (as_secs b)"
  let ?c = "if nanos_per_sec \<le> ?n then 1 else 0 :: nat"
  have "(?s + ?c) * nanos_per_sec \<le> ?s * nanos_per_sec + ?n" by (simp add: algebra_simps)
  also have "\<dots> = duration_nanos a + duration_nanos b"
    by (simp add: duration_nanos_def algebra_simps)
  finally have "(?s + ?c) * nanos_per_sec < 2 ^ 64 * nanos_per_sec" using assms(3) by linarith
  then have "?s + ?c < 2 ^ 64" by (rule mult_less_cancel2 [THEN iffD1, THEN conjunct2])
  then show ?thesis by (simp add: checked_add_def Let_def split: if_splits)
qed

lemma open_window:
  assumes "duration_ok a" "duration_ok b" "duration_ok t" "checked_add a b = Some e"
  shows "t < e \<longleftrightarrow> duration_nanos t < duration_nanos a + duration_nanos b"
  using checked_add_nanos [OF assms(1,2,4)] less_duration_nanos [of t e] assms(3) by simp

section \<open>Writers and readers\<close>

definition append_len_bytes :: "byte list \<Rightarrow> byte list" where
  "append_len_bytes bytes = u64_be (of_nat (length bytes)) @ bytes"

text \<open>\<open>read_exact::<N>\<close>.\<close>

definition read_exact :: "nat \<Rightarrow> byte list \<Rightarrow> (byte list \<times> byte list) res" where
  "read_exact n cursor = ok_or ''read fixed bytes failed'' (take_exact n cursor)"

definition read_u64 :: "byte list \<Rightarrow> (u64 \<times> byte list) res" where
  "read_u64 cursor = and_then (read_exact 8 cursor) (\<lambda>(b, c). Inr (u64_of_be b, c))"

definition read_u32 :: "byte list \<Rightarrow> (u32 \<times> byte list) res" where
  "read_u32 cursor = and_then (read_exact 4 cursor) (\<lambda>(b, c). Inr (u32_of_be b, c))"

text \<open>\<open>read_exact::<1>(cursor)?[0]\<close>.\<close>

definition read_byte :: "byte list \<Rightarrow> (byte \<times> byte list) res" where
  "read_byte cursor = and_then (read_exact 1 cursor) (\<lambda>(b, c). Inr (b ! 0, c))"

text \<open>The buffer of the announced length is allocated before the bytes are looked at.\<close>

definition read_len_bytes :: "byte list \<Rightarrow> (byte list \<times> byte list) res" where
  "read_len_bytes cursor =
     and_then (read_u64 cursor) (\<lambda>(w, c).
       and_then (alloc 1 (unat w)) (\<lambda>_.
         ok_or ''read length-prefixed bytes failed'' (take_exact (unat w) c)))"

definition append_string :: "string \<Rightarrow> byte list" where
  "append_string v = append_len_bytes (bytes_of v)"

definition read_string :: "byte list \<Rightarrow> (string \<times> byte list) res" where
  "read_string cursor =
     and_then (read_len_bytes cursor) (\<lambda>(b, c).
       and_then (ok_or ''parse UTF-8 string failed'' (from_utf8 b)) (\<lambda>s. Inr (s, c)))"

definition append_duration :: "duration \<Rightarrow> byte list" where
  "append_duration v = u64_be (as_secs v) @ u32_be (subsec_nanos v)"

definition read_duration :: "byte list \<Rightarrow> (duration \<times> byte list) res" where
  "read_duration cursor =
     and_then (read_u64 cursor) (\<lambda>(secs, c).
       and_then (read_u32 c) (\<lambda>(nanos, c').
         and_then (duration_new secs nanos) (\<lambda>d. Inr (d, c'))))"

text \<open>\<open>for _ in 0..len { values.push(read(cursor)?); }\<close>.\<close>

fun read_n :: "(byte list \<Rightarrow> ('a \<times> byte list) res) \<Rightarrow> nat \<Rightarrow> byte list \<Rightarrow> ('a list \<times> byte list) res" where
  "read_n rd 0 cursor = Inr ([], cursor)"
| "read_n rd (Suc n) cursor =
     and_then (rd cursor) (\<lambda>(v, c).
       and_then (read_n rd n c) (\<lambda>(vs, c'). Inr (v # vs, c')))"

text \<open>A length-prefixed vector, with \<open>Vec::with_capacity\<close> of the announced length.\<close>

definition append_vec :: "('a \<Rightarrow> byte list res) \<Rightarrow> 'a list \<Rightarrow> byte list res" where
  "append_vec wr values =
     and_then (traverse wr values) (\<lambda>bs. Inr (u64_be (of_nat (length values)) @ concat bs))"

definition read_vec ::
  "nat \<Rightarrow> (byte list \<Rightarrow> ('a \<times> byte list) res) \<Rightarrow> byte list \<Rightarrow> ('a list \<times> byte list) res" where
  "read_vec elem_size rd cursor =
     and_then (read_u64 cursor) (\<lambda>(w, c).
       and_then (alloc elem_size (unat w)) (\<lambda>_. read_n rd (unat w) c))"

definition append_bool :: "bool \<Rightarrow> byte list" where
  "append_bool v = [if v then 1 else 0]"

definition read_bool :: "byte list \<Rightarrow> (bool \<times> byte list) res" where
  "read_bool cursor =
     and_then (read_byte cursor) (\<lambda>(b, c).
       if b = 0 then Inr (False, c)
       else if b = 1 then Inr (True, c)
       else Inl (Err ''invalid bool field''))"

definition append_bool_vec :: "bool list \<Rightarrow> byte list" where
  "append_bool_vec values = u64_be (of_nat (length values)) @ concat (map append_bool values)"

definition read_bool_vec :: "byte list \<Rightarrow> (bool list \<times> byte list) res" where
  "read_bool_vec cursor = read_vec 1 read_bool cursor"

text \<open>\<open>match values { Some(v) => { out.push(1); .. } None => out.push(0) }\<close> and its reader.\<close>

definition append_option :: "('a \<Rightarrow> byte list) \<Rightarrow> 'a option \<Rightarrow> byte list" where
  "append_option wr v = (case v of Some x \<Rightarrow> 1 # wr x | None \<Rightarrow> [0])"

definition read_option ::
  "string \<Rightarrow> (byte list \<Rightarrow> ('a \<times> byte list) res) \<Rightarrow> byte list \<Rightarrow> ('a option \<times> byte list) res" where
  "read_option msg rd cursor =
     and_then (read_byte cursor) (\<lambda>(b, c).
       if b = 0 then Inr (None, c)
       else if b = 1 then and_then (rd c) (\<lambda>(x, c'). Inr (Some x, c'))
       else Inl (Err msg))"

definition append_option_bool_vec :: "bool list option \<Rightarrow> byte list" where
  "append_option_bool_vec values = append_option append_bool_vec values"

definition read_option_bool_vec :: "byte list \<Rightarrow> (bool list option \<times> byte list) res" where
  "read_option_bool_vec cursor = read_option ''Option<Vec<bool>> tag invalid'' read_bool_vec cursor"

section \<open>The interface of a writer and its reader\<close>

locale codec =
  fixes wr :: "'a \<Rightarrow> byte list res"
    and rd :: "byte list \<Rightarrow> ('a \<times> byte list) res"
    and ok :: "'a \<Rightarrow> bool"
  assumes read_back: "ok x \<Longrightarrow> \<exists>b. wr x = Inr b \<and> (\<forall>r. rd (b @ r) = Inr (x, r))"
begin

lemma write_total: "ok x \<Longrightarrow> \<exists>b. wr x = Inr b"
  using read_back by blast

lemma read_written: "ok x \<Longrightarrow> wr x = Inr b \<Longrightarrow> rd (b @ r) = Inr (x, r)"
  using read_back [of x] by auto

lemma prefix_free:
  assumes "ok x" "ok y" "wr x = Inr a" "wr y = Inr b" "a @ r = b @ s"
  shows "x = y \<and> r = s"
  using read_written [OF assms(1,3), of r] read_written [OF assms(2,4), of s] assms(5) by simp

lemma write_inject: "ok x \<Longrightarrow> ok y \<Longrightarrow> wr x = Inr b \<Longrightarrow> wr y = Inr b \<Longrightarrow> x = y"
  using prefix_free [of x y b b "[]" "[]"] by simp

lemma read_n_written:
  "\<forall>x\<in>set xs. ok x \<Longrightarrow>
   \<exists>bs. traverse wr xs = Inr bs \<and> (\<forall>r. read_n rd (length xs) (concat bs @ r) = Inr (xs, r))"
proof (induction xs)
  case (Cons x xs)
  from Cons.prems read_back [of x] obtain b where
    "wr x = Inr b" "\<forall>r. rd (b @ r) = Inr (x, r)" by auto
  then show ?case using Cons by force
qed simp

lemma vec_read_back:
  assumes "\<forall>x\<in>set xs. ok x" "elem_size * length xs \<le> isize_max" "length xs < 2 ^ 64"
  shows "\<exists>b. append_vec wr xs = Inr b \<and> (\<forall>r. read_vec elem_size rd (b @ r) = Inr (xs, r))"
proof -
  obtain bs where bs: "traverse wr xs = Inr bs"
    "\<And>r. read_n rd (length xs) (concat bs @ r) = Inr (xs, r)"
    using read_n_written [OF assms(1)] by blast
  have "unat (of_nat (length xs) :: u64) = length xs"
    using assms(3) by (intro unat_of_nat_small) simp
  then show ?thesis
    using bs assms(2)
    by (auto simp: append_vec_def read_vec_def read_u64_def read_exact_def)
qed

end

section \<open>The primitives are codecs\<close>

lemma read_exact_append [simp]: "length b = n \<Longrightarrow> read_exact n (b @ r) = Inr (b, r)"
  by (simp add: read_exact_def)

lemma read_u64_append [simp]: "read_u64 (u64_be w @ r) = Inr (w, r)"
  by (simp add: read_u64_def)

lemma read_u32_append [simp]: "read_u32 (u32_be w @ r) = Inr (w, r)"
  by (simp add: read_u32_def)

lemma read_byte_Cons [simp]: "read_byte (b # r) = Inr (b, r)"
  using read_exact_append [of "[b]" 1 r] by (simp add: read_byte_def)

definition bytes_ok :: "byte list \<Rightarrow> bool" where
  "bytes_ok b \<longleftrightarrow> length b \<le> isize_max"

definition string_ok :: "string \<Rightarrow> bool" where
  "string_ok s \<longleftrightarrow> valid_utf8 (bytes_of s) \<and> length s \<le> isize_max"

lemma bytes_ok_unat: "bytes_ok b \<Longrightarrow> unat (of_nat (length b) :: u64) = length b"
  using isize_max_less [of "length b"] by (intro unat_of_nat_small) (simp add: bytes_ok_def)

lemma read_len_bytes_append [simp, codec_simps]:
  assumes "bytes_ok b"
  shows "read_len_bytes (append_len_bytes b @ r) = Inr (b, r)"
  using bytes_ok_unat [OF assms] assms
  by (simp add: read_len_bytes_def append_len_bytes_def bytes_ok_def)

lemma read_string_append [simp, codec_simps]:
  "string_ok s \<Longrightarrow> read_string (append_string s @ r) = Inr (s, r)"
  by (simp add: read_string_def append_string_def string_ok_def bytes_ok_def from_utf8_def)

lemma read_duration_append [simp, codec_simps]:
  "duration_ok d \<Longrightarrow> read_duration (append_duration d @ r) = Inr (d, r)"
  by (simp add: read_duration_def append_duration_def duration_ok_def duration_new_def)

interpretation len_bytes: codec "\<lambda>b. Inr (append_len_bytes b)" read_len_bytes bytes_ok
  by unfold_locales simp

interpretation str: codec "\<lambda>s. Inr (append_string s)" read_string string_ok
  by unfold_locales simp

interpretation dur: codec "\<lambda>d. Inr (append_duration d)" read_duration duration_ok
  by unfold_locales simp

interpretation boolean: codec "\<lambda>v. Inr (append_bool v)" read_bool "\<lambda>_. True"
  by unfold_locales (simp add: append_bool_def read_bool_def)

definition bool_vec_ok :: "bool list \<Rightarrow> bool" where
  "bool_vec_ok v \<longleftrightarrow> length v \<le> isize_max"

lemma read_bool_vec_append [simp, codec_simps]:
  assumes "bool_vec_ok v"
  shows "read_bool_vec (append_bool_vec v @ r) = Inr (v, r)"
proof -
  have "append_vec (\<lambda>v. Inr (append_bool v)) v = Inr (append_bool_vec v)"
    by (simp add: append_vec_def append_bool_vec_def traverse_Inr)
  then show ?thesis
    using boolean.vec_read_back [of v 1] assms isize_max_less [of "length v"]
    by (auto simp: read_bool_vec_def bool_vec_ok_def)
qed

lemma read_option_append [codec_simps]:
  assumes "pred_option (\<lambda>x. rd (wr x @ r) = Inr (x, r)) v"
  shows "read_option msg rd (append_option wr v @ r) = Inr (v, r)"
  using assms by (cases v) (simp_all add: read_option_def append_option_def)

lemma read_option_bool_vec_append [simp, codec_simps]:
  assumes "pred_option bool_vec_ok v"
  shows "read_option_bool_vec (append_option_bool_vec v @ r) = Inr (v, r)"
  unfolding read_option_bool_vec_def append_option_bool_vec_def
  by (rule read_option_append) (use assms in \<open>cases v; simp\<close>)

interpretation opt_bool_vec: codec "\<lambda>v. Inr (append_option_bool_vec v)" read_option_bool_vec
    "pred_option bool_vec_ok"
  by unfold_locales simp

end
