(* ===== verification/Crypto.thy ===== *)
theory Crypto
  imports Codec
begin

text \<open>
  The third-party cryptography the code calls, as one record of functions: Poseidon over the
  BLS12-381 scalar field (arkworks), secp256k1 keys, ECDSA and ECDH (k256), HKDF-SHA256,
  AES-256-GCM and Groth16 verification. A \<open>None\<close> is the \<open>Err\<close> of the call.

  The laws are documented behaviour of those crates, stated as predicates that theorems name
  as hypotheses. \<open>toy_crypto\<close> is a concrete record that satisfies all of them.
\<close>

record ('f, 'vk, 'sk, 'sg, 'pf, 'gv) crypto =
  hash2 :: "'f \<Rightarrow> 'f \<Rightarrow> 'f"
  fr_of_nat :: "nat \<Rightarrow> 'f"
  fr_show :: "'f \<Rightarrow> string"
  fr_ser :: "'f \<Rightarrow> byte list option"
  fr_de :: "byte list \<Rightarrow> 'f option"
  vk_sec1 :: "'vk \<Rightarrow> byte list"
  vk_of_sec1 :: "byte list \<Rightarrow> 'vk option"
  vk_of_sk :: "'sk \<Rightarrow> 'vk"
  sk_bytes :: "'sk \<Rightarrow> byte list"
  sk_of_bytes :: "byte list \<Rightarrow> 'sk option"
  sg_der :: "'sg \<Rightarrow> byte list"
  sg_of_der :: "byte list \<Rightarrow> 'sg option"
  sg_sign :: "'sk \<Rightarrow> byte list \<Rightarrow> 'sg"
  sg_verify :: "'vk \<Rightarrow> byte list \<Rightarrow> 'sg \<Rightarrow> bool"
  ecdh :: "'sk \<Rightarrow> 'vk \<Rightarrow> byte list"
  hkdf :: "byte list \<Rightarrow> byte list \<Rightarrow> nat \<Rightarrow> byte list option"
  aead_seal :: "byte list \<Rightarrow> byte list \<Rightarrow> byte list \<Rightarrow> byte list option"
  aead_open :: "byte list \<Rightarrow> byte list \<Rightarrow> byte list \<Rightarrow> byte list option"
  pf_ser :: "'pf \<Rightarrow> byte list option"
  pf_de :: "byte list \<Rightarrow> 'pf option"
  gv_ser :: "'gv \<Rightarrow> byte list option"
  gv_de :: "byte list \<Rightarrow> 'gv option"
  groth_verify :: "'gv \<Rightarrow> 'f list \<Rightarrow> 'pf \<Rightarrow> bool option"

section \<open>Laws\<close>

text \<open>A value survives serialization; a serialized value is a Rust vector, hence bounded.\<close>

definition ser_ok :: "('a \<Rightarrow> byte list option) \<Rightarrow> (byte list \<Rightarrow> 'a option) \<Rightarrow> bool" where
  "ser_ok ser de \<longleftrightarrow> (\<forall>x. \<exists>b. ser x = Some b \<and> bytes_ok b \<and> de b = Some x)"

lemma ser_okD: "ser_ok ser de \<Longrightarrow> \<exists>b. ser x = Some b \<and> bytes_ok b \<and> de b = Some x"
  by (simp add: ser_ok_def)

text \<open>arkworks values, compressed SEC1 points, DER signatures and 32-byte scalars.\<close>

definition serial_ok :: "('f, 'vk, 'sk, 'sg, 'pf, 'gv) crypto \<Rightarrow> bool" where
  "serial_ok C \<longleftrightarrow>
     ser_ok (fr_ser C) (fr_de C) \<and>
     ser_ok (\<lambda>k. Some (vk_sec1 C k)) (vk_of_sec1 C) \<and>
     ser_ok (\<lambda>s. Some (sg_der C s)) (sg_of_der C) \<and>
     ser_ok (pf_ser C) (pf_de C) \<and>
     ser_ok (gv_ser C) (gv_de C) \<and>
     (\<forall>k. length (sk_bytes C k) = 32 \<and> sk_of_bytes C (sk_bytes C k) = Some k)"

lemma serial_okD:
  assumes "serial_ok C"
  shows "ser_ok (fr_ser C) (fr_de C)" "ser_ok (\<lambda>k. Some (vk_sec1 C k)) (vk_of_sec1 C)"
    "ser_ok (\<lambda>s. Some (sg_der C s)) (sg_of_der C)" "ser_ok (pf_ser C) (pf_de C)"
    "ser_ok (gv_ser C) (gv_de C)" "length (sk_bytes C k) = 32"
    "sk_of_bytes C (sk_bytes C k) = Some k"
  using assms by (simp_all add: serial_ok_def)

lemma serial_ok_simps:
  assumes "serial_ok C"
  shows "bytes_ok (vk_sec1 C k)" "vk_of_sec1 C (vk_sec1 C k) = Some k"
    "bytes_ok (sg_der C s)" "sg_of_der C (sg_der C s) = Some s"
  using serial_okD(2,3) [OF assms] by (auto simp: ser_ok_def)

text \<open>ECDSA verifies what it signed.\<close>

definition sign_ok :: "('f, 'vk, 'sk, 'sg, 'pf, 'gv) crypto \<Rightarrow> bool" where
  "sign_ok C \<longleftrightarrow> (\<forall>k m. sg_verify C (vk_of_sk C k) m (sg_sign C k m))"

text \<open>ECDH agrees, HKDF yields the requested length, AES-GCM opens what it sealed.\<close>

definition channel_ok :: "('f, 'vk, 'sk, 'sg, 'pf, 'gv) crypto \<Rightarrow> bool" where
  "channel_ok C \<longleftrightarrow>
     (\<forall>a b. ecdh C a (vk_of_sk C b) = ecdh C b (vk_of_sk C a)) \<and>
     (\<forall>s i. \<exists>k. hkdf C s i 32 = Some k \<and> length k = 32) \<and>
     (\<forall>k n p. length k = 32 \<and> length n = 12 \<and> length p < 2 ^ 36 \<longrightarrow>
        (\<exists>c. aead_seal C k n p = Some c \<and> bytes_ok c \<and> aead_open C k n c = Some p))"

lemma channel_okD:
  assumes "channel_ok C"
  shows "ecdh C a (vk_of_sk C b) = ecdh C b (vk_of_sk C a)"
    and "\<exists>k. hkdf C s i 32 = Some k \<and> length k = 32"
    and "length k = 32 \<Longrightarrow> length n = 12 \<Longrightarrow> length p < 2 ^ 36 \<Longrightarrow>
      \<exists>c. aead_seal C k n p = Some c \<and> bytes_ok c \<and> aead_open C k n c = Some p"
  using assms by (auto simp: channel_ok_def)

section \<open>A concrete instance\<close>

text \<open>
  Everything is a 64-bit number: keys are their own public keys, a signature is the key plus
  the message read as a number, sealing keeps the plaintext.
\<close>

type_synonym toy = "(u64, u64, u64, u64, u64, u64) crypto"

definition de64 :: "byte list \<Rightarrow> u64 option" where
  "de64 b = (if length b = 8 then Some (u64_of_be b) else None)"

definition toy_crypto :: toy where
  "toy_crypto = \<lparr>
     hash2 = (\<lambda>a b. 3 * a + 5 * b + 1),
     fr_of_nat = of_nat,
     fr_show = (\<lambda>f. map (\<lambda>b. char_of (48 + unat b mod 10)) (u64_be f)),
     fr_ser = (\<lambda>f. Some (u64_be f)),
     fr_de = de64,
     vk_sec1 = u64_be,
     vk_of_sec1 = de64,
     vk_of_sk = id,
     sk_bytes = (\<lambda>k. replicate 24 0 @ u64_be k),
     sk_of_bytes = (\<lambda>b. de64 (drop 24 b)),
     sg_der = u64_be,
     sg_of_der = de64,
     sg_sign = (\<lambda>k m. k + of_nat (nat_of_be m)),
     sg_verify = (\<lambda>k m s. s = k + of_nat (nat_of_be m)),
     ecdh = (\<lambda>a b. u64_be (a * b)),
     hkdf = (\<lambda>s i n. Some (replicate n (of_nat (length s)))),
     aead_seal = (\<lambda>k n p. Some p),
     aead_open = (\<lambda>k n c. Some c),
     pf_ser = (\<lambda>f. Some (u64_be f)),
     pf_de = de64,
     gv_ser = (\<lambda>f. Some (u64_be f)),
     gv_de = de64,
     groth_verify = (\<lambda>v xs p. Some (p = v + sum_list xs))\<rparr>"

lemma bytes_ok_u64_be [simp]: "bytes_ok (u64_be w)"
  by (simp add: bytes_ok_def isize_max_def)

lemma de64_be [simp]: "de64 (u64_be w) = Some w"
  by (simp add: de64_def)

lemma toy_serial_ok: "serial_ok toy_crypto"
  by (simp add: serial_ok_def ser_ok_def toy_crypto_def)

lemma toy_sign_ok: "sign_ok toy_crypto"
  by (simp add: sign_ok_def toy_crypto_def)

lemma toy_channel_ok: "channel_ok toy_crypto"
  by (simp add: channel_ok_def toy_crypto_def mult.commute bytes_ok_def isize_max_def)

end
