(* ===== verification/Wire.thy ===== *)
theory Wire
  imports Crypto
begin

text \<open>
  The messages of the hydra protocol (\<^verbatim>\<open>hydra-toolkit/src/lib.rs\<close>): their in-memory and wire
  forms, every \<open>encode_*\<close>/\<open>decode_*\<close> pair, and the encryption of the verifier's response.
  A decoder ignores bytes after the last field, as the code does.

  The locale \<open>message\<close> is the contract of an encoder with its decoder. The wire forms without
  cryptographic values interpret it outright; for the others the contract holds under the
  serialization laws of \<open>Crypto\<close>.
\<close>

section \<open>Data\<close>

record ('f, 'vk) device_client_infor =
  dci_verifying_key :: 'vk
  dci_measured_value :: string
  dci_merkle_leaf :: 'f
  dci_timestamp :: duration
  dci_period :: duration

record device_client_infor_wire =
  dciw_verifying_key :: "byte list"
  dciw_measured_value :: string
  dciw_merkle_leaf :: "byte list"
  dciw_timestamp :: duration
  dciw_period :: duration

record signed_device_client_infor_wire =
  sdci_device :: device_client_infor_wire
  sdci_signature :: "byte list"

record encrypted_message =
  em_ephemeral_public_key :: "byte list"
  em_nonce :: "byte list"
  em_ciphertext :: "byte list"

record ('vk, 'sk) key_infor =
  signing_key :: 'sk
  verifying_key :: 'vk

record ('f, 'vk, 'sg) response_device_infor =
  rdi_verifying_key :: 'vk
  rdi_attester_addr :: string
  rdi_timestamp :: duration
  rdi_period :: duration
  rdi_sig :: "'sg option"
  rdi_shrubs_path :: "'f list option"
  rdi_shrubs_tag :: "bool list option"

record response_device_infor_wire =
  rdiw_verifying_key :: "byte list"
  rdiw_attester_addr :: string
  rdiw_timestamp :: duration
  rdiw_period :: duration
  rdiw_sig :: "byte list option"
  rdiw_shrubs_path :: "byte list list option"
  rdiw_shrubs_tag :: "bool list option"

record ('f, 'vk) public_context =
  pc_root :: "'f list"
  pc_verifier_pk :: 'vk

record ('f, 'vk, 'sg, 'pf, 'gv) evidence_reply =
  er_proof :: 'pf
  er_vk :: 'gv
  er_sig :: 'sg
  er_pk :: 'vk
  er_timestamp :: duration
  er_period :: duration
  er_authorized_infor :: 'f
  er_timestamp_attester :: duration
  er_period_attester :: duration
  er_proof_timestamp_period_signature :: 'sg

section \<open>Cryptographic values\<close>

definition encode_scalar where
  "encode_scalar C v = ok_or ''serialize BlsScalar failed'' (fr_ser C v)"

definition decode_scalar where
  "decode_scalar C b = ok_or ''deserialize BlsScalar failed'' (fr_de C b)"

definition append_scalar where
  "append_scalar C v = and_then (encode_scalar C v) (\<lambda>b. Inr (append_len_bytes b))"

definition read_scalar where
  "read_scalar C cursor =
     and_then (read_len_bytes cursor) (\<lambda>(b, c). and_then (decode_scalar C b) (\<lambda>x. Inr (x, c)))"

text \<open>An \<open>Fr\<close> takes 32 bytes in memory.\<close>

definition append_scalar_vec where
  "append_scalar_vec C values = append_vec (append_scalar C) values"

definition read_scalar_vec where
  "read_scalar_vec C cursor = read_vec 32 (read_scalar C) cursor"

definition encode_signature where
  "encode_signature C v = sg_der C v"

definition decode_signature where
  "decode_signature C b = ok_or ''deserialize secp256k1 signature failed'' (sg_of_der C b)"

definition append_signature where
  "append_signature C v = append_len_bytes (encode_signature C v)"

definition read_signature where
  "read_signature C cursor =
     and_then (read_len_bytes cursor) (\<lambda>(b, c). and_then (decode_signature C b) (\<lambda>x. Inr (x, c)))"

definition append_verifying_key where
  "append_verifying_key C v = append_len_bytes (vk_sec1 C v)"

definition read_verifying_key where
  "read_verifying_key C cursor =
     and_then (read_len_bytes cursor) (\<lambda>(b, c).
       and_then (ok_or ''deserialize secp256k1 public key failed'' (vk_of_sec1 C b)) (\<lambda>x. Inr (x, c)))"

definition encode_proof where
  "encode_proof C v = ok_or ''serialize Groth16 proof failed'' (pf_ser C v)"

definition decode_proof where
  "decode_proof C b = ok_or ''deserialize Groth16 proof failed'' (pf_de C b)"

definition append_proof where
  "append_proof C v = and_then (encode_proof C v) (\<lambda>b. Inr (append_len_bytes b))"

definition read_proof where
  "read_proof C cursor =
     and_then (read_len_bytes cursor) (\<lambda>(b, c). and_then (decode_proof C b) (\<lambda>x. Inr (x, c)))"

definition encode_ark_vk where
  "encode_ark_vk C v = ok_or ''serialize Groth16 verifying key failed'' (gv_ser C v)"

definition decode_ark_vk where
  "decode_ark_vk C b = ok_or ''deserialize Groth16 verifying key failed'' (gv_de C b)"

definition append_ark_vk where
  "append_ark_vk C v = and_then (encode_ark_vk C v) (\<lambda>b. Inr (append_len_bytes b))"

definition read_ark_vk where
  "read_ark_vk C cursor =
     and_then (read_len_bytes cursor) (\<lambda>(b, c). and_then (decode_ark_vk C b) (\<lambda>x. Inr (x, c)))"

section \<open>Device submissions\<close>

definition device_client_infor_to_wire where
  "device_client_infor_to_wire C v =
     and_then (encode_scalar C (dci_merkle_leaf v)) (\<lambda>leaf.
       Inr \<lparr>dciw_verifying_key = vk_sec1 C (dci_verifying_key v),
            dciw_measured_value = dci_measured_value v,
            dciw_merkle_leaf = leaf,
            dciw_timestamp = dci_timestamp v,
            dciw_period = dci_period v\<rparr>)"

definition device_client_infor_from_wire where
  "device_client_infor_from_wire C w =
     and_then (ok_or ''decode DeviceClientInforWire verifying_key failed''
                 (vk_of_sec1 C (dciw_verifying_key w))) (\<lambda>vk.
       and_then (decode_scalar C (dciw_merkle_leaf w)) (\<lambda>leaf.
         Inr \<lparr>dci_verifying_key = vk,
              dci_measured_value = dciw_measured_value w,
              dci_merkle_leaf = leaf,
              dci_timestamp = dciw_timestamp w,
              dci_period = dciw_period w\<rparr>))"

definition encode_device_client_infor_wire :: "device_client_infor_wire \<Rightarrow> byte list res" where
  "encode_device_client_infor_wire v =
     Inr (append_len_bytes (dciw_verifying_key v) @
          append_string (dciw_measured_value v) @
          append_len_bytes (dciw_merkle_leaf v) @
          append_duration (dciw_timestamp v) @
          append_duration (dciw_period v))"

definition decode_device_client_infor_wire :: "byte list \<Rightarrow> device_client_infor_wire res" where
  "decode_device_client_infor_wire bytes =
     and_then (read_len_bytes bytes) (\<lambda>(vk, c).
     and_then (read_string c) (\<lambda>(measured, c).
     and_then (read_len_bytes c) (\<lambda>(leaf, c).
     and_then (read_duration c) (\<lambda>(ts, c).
     and_then (read_duration c) (\<lambda>(per, c).
       Inr \<lparr>dciw_verifying_key = vk, dciw_measured_value = measured, dciw_merkle_leaf = leaf,
            dciw_timestamp = ts, dciw_period = per\<rparr>)))))"

definition encode_device_client_infor where
  "encode_device_client_infor C v =
     and_then (device_client_infor_to_wire C v) encode_device_client_infor_wire"

definition sign_device_client_infor where
  "sign_device_client_infor C v key =
     and_then (encode_device_client_infor C v) (\<lambda>message. Inr (sg_sign C (signing_key key) message))"

definition sign_device_client_infor_to_wire where
  "sign_device_client_infor_to_wire C v key =
     and_then (sign_device_client_infor C v key) (\<lambda>signature.
       and_then (device_client_infor_to_wire C v) (\<lambda>device.
         Inr \<lparr>sdci_device = device, sdci_signature = encode_signature C signature\<rparr>))"

definition verify_signed_device_client_infor_wire where
  "verify_signed_device_client_infor_wire C sdev =
     and_then (ok_or ''decode signed DeviceClientInfor verifying_key failed''
                 (vk_of_sec1 C (dciw_verifying_key (sdci_device sdev)))) (\<lambda>vk.
     and_then (decode_signature C (sdci_signature sdev)) (\<lambda>signature.
     and_then (encode_device_client_infor_wire (sdci_device sdev)) (\<lambda>message.
     and_then (bail_unless (sg_verify C vk message signature)
                 ''attester DeviceClientInfor signature verification failed'') (\<lambda>_.
       device_client_infor_from_wire C (sdci_device sdev)))))"

definition encode_signed_device_client_infor_wire ::
  "signed_device_client_infor_wire \<Rightarrow> byte list res" where
  "encode_signed_device_client_infor_wire v =
     and_then (encode_device_client_infor_wire (sdci_device v)) (\<lambda>device.
       Inr (append_len_bytes device @ append_len_bytes (sdci_signature v)))"

definition decode_signed_device_client_infor_wire ::
  "byte list \<Rightarrow> signed_device_client_infor_wire res" where
  "decode_signed_device_client_infor_wire bytes =
     and_then (read_len_bytes bytes) (\<lambda>(b, c).
     and_then (decode_device_client_infor_wire b) (\<lambda>device.
     and_then (read_len_bytes c) (\<lambda>(signature, c).
       Inr \<lparr>sdci_device = device, sdci_signature = signature\<rparr>)))"

section \<open>Encrypted messages\<close>

definition encode_encrypted_message :: "encrypted_message \<Rightarrow> byte list res" where
  "encode_encrypted_message v =
     Inr (append_len_bytes (em_ephemeral_public_key v) @
          append_len_bytes (em_nonce v) @
          append_len_bytes (em_ciphertext v))"

definition decode_encrypted_message :: "byte list \<Rightarrow> encrypted_message res" where
  "decode_encrypted_message bytes =
     and_then (read_len_bytes bytes) (\<lambda>(epk, c).
     and_then (read_len_bytes c) (\<lambda>(nonce, c).
     and_then (read_len_bytes c) (\<lambda>(ciphertext, c).
       Inr \<lparr>em_ephemeral_public_key = epk, em_nonce = nonce, em_ciphertext = ciphertext\<rparr>)))"

definition derive_aes_key where
  "derive_aes_key C shared_secret =
     ok_or ''derive AES-GCM key failed''
       (hkdf C shared_secret (bytes_of ''hydra verifier response encryption'') 32)"

text \<open>The ephemeral secret and the nonce come from the system's random source.\<close>

definition encrypt_for_device_pubkey where
  "encrypt_for_device_pubkey C ephemeral_secret nonce plaintext device_pubkey =
     and_then (ok_or ''decode device public key for encryption failed''
                 (vk_of_sec1 C (vk_sec1 C device_pubkey))) (\<lambda>recipient.
     and_then (derive_aes_key C (ecdh C ephemeral_secret recipient)) (\<lambda>key.
     and_then (ok_or ''encrypt verifier response failed'' (aead_seal C key nonce plaintext)) (\<lambda>ct.
       Inr \<lparr>em_ephemeral_public_key = vk_sec1 C (vk_of_sk C ephemeral_secret),
            em_nonce = nonce, em_ciphertext = ct\<rparr>)))"

text \<open>\<open>Nonce::from_slice\<close> panics unless it is given 12 bytes.\<close>

definition decrypt_for_device_key where
  "decrypt_for_device_key C encrypted device_key =
     and_then (ok_or ''decode verifier ephemeral public key failed''
                 (vk_of_sec1 C (em_ephemeral_public_key encrypted))) (\<lambda>epk.
     and_then (ok_or ''load device secret key for decryption failed''
                 (sk_of_bytes C (sk_bytes C (signing_key device_key)))) (\<lambda>secret.
     and_then (derive_aes_key C (ecdh C secret epk)) (\<lambda>key.
       if length (em_nonce encrypted) \<noteq> 12 then
         Inl (Panic ''assertion `left == right` failed: nonce length'')
       else ok_or ''decrypt verifier response failed''
              (aead_open C key (em_nonce encrypted) (em_ciphertext encrypted)))))"

section \<open>Verifier responses\<close>

definition response_device_infor_to_wire where
  "response_device_infor_to_wire C v =
     and_then (case rdi_shrubs_path v of
                 Some path \<Rightarrow> and_then (traverse (encode_scalar C) path) (\<lambda>p. Inr (Some p))
               | None \<Rightarrow> Inr None) (\<lambda>shrubs_path.
       Inr \<lparr>rdiw_verifying_key = vk_sec1 C (rdi_verifying_key v),
            rdiw_attester_addr = rdi_attester_addr v,
            rdiw_timestamp = rdi_timestamp v,
            rdiw_period = rdi_period v,
            rdiw_sig = map_option (encode_signature C) (rdi_sig v),
            rdiw_shrubs_path = shrubs_path,
            rdiw_shrubs_tag = rdi_shrubs_tag v\<rparr>)"

definition response_device_infor_from_wire where
  "response_device_infor_from_wire C w =
     and_then (case rdiw_shrubs_path w of
                 Some path \<Rightarrow> and_then (traverse (decode_scalar C) path) (\<lambda>p. Inr (Some p))
               | None \<Rightarrow> Inr None) (\<lambda>shrubs_path.
     and_then (ok_or ''decode ResponseDeviceInforWire verifying_key failed''
                 (vk_of_sec1 C (rdiw_verifying_key w))) (\<lambda>vk.
     and_then (case rdiw_sig w of
                 Some b \<Rightarrow> and_then (decode_signature C b) (\<lambda>s. Inr (Some s))
               | None \<Rightarrow> Inr None) (\<lambda>sig.
       Inr \<lparr>rdi_verifying_key = vk,
            rdi_attester_addr = rdiw_attester_addr w,
            rdi_timestamp = rdiw_timestamp w,
            rdi_period = rdiw_period w,
            rdi_sig = sig,
            rdi_shrubs_path = shrubs_path,
            rdi_shrubs_tag = rdiw_shrubs_tag w\<rparr>)))"

definition append_path :: "byte list list \<Rightarrow> byte list" where
  "append_path path = u64_be (of_nat (length path)) @ concat (map append_len_bytes path)"

text \<open>A \<open>Vec<u8>\<close> header takes 24 bytes in memory.\<close>

definition read_path :: "byte list \<Rightarrow> (byte list list \<times> byte list) res" where
  "read_path cursor = read_vec 24 read_len_bytes cursor"

definition encode_response_device_infor_wire :: "response_device_infor_wire \<Rightarrow> byte list res" where
  "encode_response_device_infor_wire v =
     Inr (append_len_bytes (rdiw_verifying_key v) @
          append_string (rdiw_attester_addr v) @
          append_duration (rdiw_timestamp v) @
          append_duration (rdiw_period v) @
          append_option append_len_bytes (rdiw_sig v) @
          append_option append_path (rdiw_shrubs_path v) @
          append_option_bool_vec (rdiw_shrubs_tag v))"

definition decode_response_device_infor_wire :: "byte list \<Rightarrow> response_device_infor_wire res" where
  "decode_response_device_infor_wire bytes =
     and_then (read_len_bytes bytes) (\<lambda>(vk, c).
     and_then (read_string c) (\<lambda>(addr, c).
     and_then (read_duration c) (\<lambda>(ts, c).
     and_then (read_duration c) (\<lambda>(per, c).
     and_then (read_option ''Option<Signature bytes> tag invalid'' read_len_bytes c) (\<lambda>(sig, c).
     and_then (read_option ''Option<Vec<Vec<u8>>> tag invalid'' read_path c) (\<lambda>(path, c).
     and_then (read_option_bool_vec c) (\<lambda>(tag, c).
       Inr \<lparr>rdiw_verifying_key = vk, rdiw_attester_addr = addr, rdiw_timestamp = ts,
            rdiw_period = per, rdiw_sig = sig, rdiw_shrubs_path = path,
            rdiw_shrubs_tag = tag\<rparr>)))))))"

definition encode_response_device_infor where
  "encode_response_device_infor C v =
     and_then (response_device_infor_to_wire C v) encode_response_device_infor_wire"

definition decode_response_device_infor where
  "decode_response_device_infor C bytes =
     and_then (decode_response_device_infor_wire bytes) (response_device_infor_from_wire C)"

section \<open>Public contexts\<close>

definition encode_public_context where
  "encode_public_context C v =
     and_then (append_scalar_vec C (pc_root v)) (\<lambda>root.
       Inr (root @ append_verifying_key C (pc_verifier_pk v)))"

definition decode_public_context where
  "decode_public_context C bytes =
     and_then (read_scalar_vec C bytes) (\<lambda>(root, c).
     and_then (read_verifying_key C c) (\<lambda>(pk, c).
       Inr \<lparr>pc_root = root, pc_verifier_pk = pk\<rparr>))"

section \<open>Evidence\<close>

definition encode_evidence_bundle where
  "encode_evidence_bundle C v device_signature =
     and_then (append_proof C (er_proof v)) (\<lambda>proof.
     and_then (append_ark_vk C (er_vk v)) (\<lambda>vk.
     and_then (append_scalar C (er_authorized_infor v)) (\<lambda>infor.
       Inr (proof @ vk @
            append_signature C (er_sig v) @
            append_verifying_key C (er_pk v) @
            append_duration (er_timestamp v) @
            append_duration (er_period v) @
            infor @
            append_duration (er_timestamp_attester v) @
            append_duration (er_period_attester v) @
            append_signature C (er_proof_timestamp_period_signature v) @
            append_signature C device_signature))))"

definition decode_evidence_bundle where
  "decode_evidence_bundle C bytes =
     and_then (read_proof C bytes) (\<lambda>(proof, c).
     and_then (read_ark_vk C c) (\<lambda>(vk, c).
     and_then (read_signature C c) (\<lambda>(sig, c).
     and_then (read_verifying_key C c) (\<lambda>(pk, c).
     and_then (read_duration c) (\<lambda>(ts, c).
     and_then (read_duration c) (\<lambda>(per, c).
     and_then (read_scalar C c) (\<lambda>(infor, c).
     and_then (read_duration c) (\<lambda>(ts_a, c).
     and_then (read_duration c) (\<lambda>(per_a, c).
     and_then (read_signature C c) (\<lambda>(psig, c).
     and_then (read_signature C c) (\<lambda>(dsig, c).
       Inr (\<lparr>er_proof = proof, er_vk = vk, er_sig = sig, er_pk = pk, er_timestamp = ts,
             er_period = per, er_authorized_infor = infor, er_timestamp_attester = ts_a,
             er_period_attester = per_a, er_proof_timestamp_period_signature = psig\<rparr>,
            dsig))))))))))))"

section \<open>Responses on the wire\<close>

definition encode_verifier_response where
  "encode_verifier_response C dev_res ctx =
     and_then (encode_response_device_infor C dev_res) (\<lambda>a.
     and_then (encode_public_context C ctx) (\<lambda>b.
       Inr (append_len_bytes a @ append_len_bytes b)))"

definition decode_verifier_response where
  "decode_verifier_response C bytes =
     and_then (read_len_bytes bytes) (\<lambda>(a, c).
     and_then (read_len_bytes c) (\<lambda>(b, c).
     and_then (decode_response_device_infor C a) (\<lambda>dev_res.
     and_then (decode_public_context C b) (\<lambda>ctx.
       Inr (dev_res, ctx)))))"

definition encode_encrypted_verifier_response where
  "encode_encrypted_verifier_response C ephemeral_secret nonce dev_res ctx device_pubkey =
     and_then (encode_verifier_response C dev_res ctx) (\<lambda>plaintext.
     and_then (encrypt_for_device_pubkey C ephemeral_secret nonce plaintext device_pubkey)
       encode_encrypted_message)"

definition decode_encrypted_verifier_response where
  "decode_encrypted_verifier_response C bytes device_key =
     and_then (decode_encrypted_message bytes) (\<lambda>encrypted.
     and_then (decrypt_for_device_key C encrypted device_key) (\<lambda>plaintext.
       decode_verifier_response C plaintext))"

section \<open>Typed messages\<close>

definition MSG_DEVICE_INFOR :: "byte list" where
  "MSG_DEVICE_INFOR = bytes_of ''DINF''"

definition MSG_PUBLIC_CONTEXT :: "byte list" where
  "MSG_PUBLIC_CONTEXT = bytes_of ''PUBC''"

definition MSG_EVIDENCE :: "byte list" where
  "MSG_EVIDENCE = bytes_of ''EVID''"

definition starts_with :: "'a list \<Rightarrow> 'a list \<Rightarrow> bool" where
  "starts_with prefix xs \<longleftrightarrow> take (length prefix) xs = prefix"

definition encode_typed_message :: "byte list \<Rightarrow> byte list \<Rightarrow> byte list" where
  "encode_typed_message kind payload = kind @ payload"

definition decode_typed where
  "decode_typed kind msg dec bytes =
     (if starts_with kind bytes then dec (drop (length kind) bytes) else Inl (Err msg))"

definition encode_signed_device_client_infor_message where
  "encode_signed_device_client_infor_message v =
     and_then (encode_signed_device_client_infor_wire v) (\<lambda>b.
       Inr (encode_typed_message MSG_DEVICE_INFOR b))"

definition decode_signed_device_client_infor_message where
  "decode_signed_device_client_infor_message bytes =
     decode_typed MSG_DEVICE_INFOR ''not a DeviceClientInfor message''
       decode_signed_device_client_infor_wire bytes"

definition encode_public_context_message where
  "encode_public_context_message C ctx =
     and_then (encode_public_context C ctx) (\<lambda>b.
       Inr (encode_typed_message MSG_PUBLIC_CONTEXT b))"

definition decode_public_context_message where
  "decode_public_context_message C bytes =
     decode_typed MSG_PUBLIC_CONTEXT ''not a PublicContext message''
       (decode_public_context C) bytes"

definition encode_evidence_message where
  "encode_evidence_message C reply device_signature =
     and_then (encode_evidence_bundle C reply device_signature) (\<lambda>b.
       Inr (encode_typed_message MSG_EVIDENCE b))"

definition decode_evidence_message where
  "decode_evidence_message C bytes =
     decode_typed MSG_EVIDENCE ''not an Evidence message'' (decode_evidence_bundle C) bytes"

lemma starts_with_append [simp]: "starts_with p (p @ xs)"
  by (simp add: starts_with_def)

lemma decode_typed_message [simp]:
  "decode_typed kind msg dec (encode_typed_message kind b) = dec b"
  "decode_typed kind msg dec (encode_typed_message kind b @ r) = dec (b @ r)"
  by (simp_all add: decode_typed_def encode_typed_message_def)

section \<open>Frames\<close>

definition MAX_TCP_FRAME_LEN :: nat where
  "MAX_TCP_FRAME_LEN = 512 * 1024 * 1024"

text \<open>The bytes \<open>tcp_send_frame\<close> writes to the stream.\<close>

definition tcp_send_frame :: "byte list \<Rightarrow> byte list" where
  "tcp_send_frame payload = u64_be (of_nat (length payload)) @ payload"

text \<open>\<open>tcp_read_frame\<close> on the bytes that will arrive: the payload and the unread rest. An
  exhausted stream is end of file.\<close>

definition tcp_read_frame :: "byte list \<Rightarrow> (byte list \<times> byte list) res" where
  "tcp_read_frame stream =
     and_then (ok_or ''read TCP frame length failed'' (take_exact 8 stream)) (\<lambda>(len_buf, rest).
       let len = u64_of_be len_buf in
       if MAX_TCP_FRAME_LEN < unat len then Inl (Err ''TCP frame too large'')
       else and_then (alloc 1 (unat len)) (\<lambda>_.
              ok_or ''read TCP frame payload failed'' (take_exact (unat len) rest)))"

end
