(* ===== verification/WireFacts.thy ===== *)
theory WireFacts
  imports Wire
begin

text \<open>
  Round trips of the hydra messages: the contract \<open>message\<close> of an encoder and its decoder, its
  interpretations, the conditional instances for messages with cryptographic values, and the
  properties of the protocol messages and frames.
\<close>

section \<open>The contract of a message\<close>

locale message =
  fixes enc :: "'a \<Rightarrow> byte list res"
    and dec :: "byte list \<Rightarrow> 'a res"
    and ok :: "'a \<Rightarrow> bool"
  assumes decode_encoded: "ok x \<Longrightarrow> \<exists>b. enc x = Inr b \<and> (\<forall>r. dec (b @ r) = Inr x)"
begin

lemma round_trip: "ok x \<Longrightarrow> and_then (enc x) dec = Inr x"
  using decode_encoded [of x] by (metis and_then_simps(2) append_Nil2)

lemma decode_exact: "ok x \<Longrightarrow> \<exists>b. enc x = Inr b \<and> dec b = Inr x"
  using decode_encoded [of x] by (metis append_Nil2)

lemma decode_extended: "ok x \<Longrightarrow> enc x = Inr b \<Longrightarrow> dec (b @ r) = Inr x"
  using decode_encoded [of x] by auto

text \<open>No encoding is a prefix of the encoding of another value.\<close>

lemma prefix_inject:
  "ok x \<Longrightarrow> ok y \<Longrightarrow> enc x = Inr b \<Longrightarrow> enc y = Inr (b @ r) \<Longrightarrow> x = y"
  using decode_extended [of x b r] decode_extended [of y "b @ r" "[]"] by simp

lemma typed_round_trip:
  assumes "ok x"
  shows "\<exists>b. and_then (enc x) (\<lambda>b. Inr (encode_typed_message kind b)) = Inr b \<and>
    decode_typed kind msg dec b = Inr x"
  using decode_encoded [OF assms] by (metis and_then_simps(2) append_Nil2 decode_typed_message(1))

end

text \<open>An encoding that is itself embedded as length-prefixed bytes must fit a vector.\<close>

definition fits :: "byte list res \<Rightarrow> bool" where
  "fits m = (case m of Inr b \<Rightarrow> bytes_ok b | Inl _ \<Rightarrow> True)"

lemma fitsD: "fits m \<Longrightarrow> m = Inr b \<Longrightarrow> bytes_ok b"
  by (simp add: fits_def)

section \<open>Wire forms\<close>

definition dciw_ok :: "device_client_infor_wire \<Rightarrow> bool" where
  "dciw_ok w \<longleftrightarrow>
     bytes_ok (dciw_verifying_key w) \<and> string_ok (dciw_measured_value w) \<and>
     bytes_ok (dciw_merkle_leaf w) \<and> duration_ok (dciw_timestamp w) \<and> duration_ok (dciw_period w)"

definition sdci_ok :: "signed_device_client_infor_wire \<Rightarrow> bool" where
  "sdci_ok s \<longleftrightarrow>
     dciw_ok (sdci_device s) \<and> fits (encode_device_client_infor_wire (sdci_device s)) \<and>
     bytes_ok (sdci_signature s)"

definition em_ok :: "encrypted_message \<Rightarrow> bool" where
  "em_ok m \<longleftrightarrow>
     bytes_ok (em_ephemeral_public_key m) \<and> bytes_ok (em_nonce m) \<and> bytes_ok (em_ciphertext m)"

definition path_ok :: "byte list list \<Rightarrow> bool" where
  "path_ok p \<longleftrightarrow> list_all bytes_ok p \<and> 24 * length p \<le> isize_max"

definition rdiw_ok :: "response_device_infor_wire \<Rightarrow> bool" where
  "rdiw_ok w \<longleftrightarrow>
     bytes_ok (rdiw_verifying_key w) \<and> string_ok (rdiw_attester_addr w) \<and>
     duration_ok (rdiw_timestamp w) \<and> duration_ok (rdiw_period w) \<and>
     pred_option bytes_ok (rdiw_sig w) \<and> pred_option path_ok (rdiw_shrubs_path w) \<and>
     pred_option bool_vec_ok (rdiw_shrubs_tag w)"

lemma read_path_append [simp, codec_simps]:
  assumes "path_ok p"
  shows "read_path (append_path p @ r) = Inr (p, r)"
proof -
  have "append_vec (\<lambda>b. Inr (append_len_bytes b)) p = Inr (append_path p)"
    by (simp add: append_vec_def append_path_def traverse_Inr)
  moreover have "length p < 2 ^ 64"
    using assms isize_max_less [of "length p"] by (simp add: path_ok_def)
  ultimately show ?thesis
    using len_bytes.vec_read_back [of p 24] assms
    by (auto simp: read_path_def path_ok_def list_all_iff)
qed

lemma read_sig_append [simp]:
  "pred_option bytes_ok v \<Longrightarrow>
   read_option msg read_len_bytes (append_option append_len_bytes v @ r) = Inr (v, r)"
  by (rule read_option_append) (cases v; simp)

lemma read_path_option_append [simp]:
  "pred_option path_ok v \<Longrightarrow> read_option msg read_path (append_option append_path v @ r) = Inr (v, r)"
  by (rule read_option_append) (cases v; simp)

interpretation dciw: message encode_device_client_infor_wire decode_device_client_infor_wire dciw_ok
  by unfold_locales
     (simp add: encode_device_client_infor_wire_def decode_device_client_infor_wire_def dciw_ok_def)

interpretation sdci: message encode_signed_device_client_infor_wire
    decode_signed_device_client_infor_wire sdci_ok
proof unfold_locales
  fix x assume ok: "sdci_ok x"
  then obtain b where b: "encode_device_client_infor_wire (sdci_device x) = Inr b"
    "\<And>r. decode_device_client_infor_wire (b @ r) = Inr (sdci_device x)"
    using dciw.decode_encoded by (auto simp: sdci_ok_def)
  then have "bytes_ok b" using ok fitsD by (auto simp: sdci_ok_def)
  then show "\<exists>b. encode_signed_device_client_infor_wire x = Inr b \<and>
      (\<forall>r. decode_signed_device_client_infor_wire (b @ r) = Inr x)"
    using b(1) b(2) [of "[]"] ok
    by (simp add: encode_signed_device_client_infor_wire_def
        decode_signed_device_client_infor_wire_def sdci_ok_def)
qed

interpretation em: message encode_encrypted_message decode_encrypted_message em_ok
  by unfold_locales (simp add: encode_encrypted_message_def decode_encrypted_message_def em_ok_def)

interpretation rdiw: message encode_response_device_infor_wire decode_response_device_infor_wire rdiw_ok
  by unfold_locales
     (simp add: encode_response_device_infor_wire_def decode_response_device_infor_wire_def rdiw_ok_def)

section \<open>Values with cryptographic parts\<close>

lemma append_scalar_codec:
  assumes "serial_ok C"
  shows "codec (append_scalar C) (read_scalar C) (\<lambda>_. True)"
proof
  fix x
  from ser_okD [OF serial_okD(1) [OF assms], of x]
  show "\<exists>b. append_scalar C x = Inr b \<and> (\<forall>r. read_scalar C (b @ r) = Inr (x, r))"
    by (auto simp: append_scalar_def read_scalar_def encode_scalar_def decode_scalar_def)
qed

definition scalars_ok :: "'f list \<Rightarrow> bool" where
  "scalars_ok xs \<longleftrightarrow> 32 * length xs \<le> isize_max"

lemma append_scalar_vec_codec:
  assumes "serial_ok C"
  shows "codec (append_scalar_vec C) (read_scalar_vec C) scalars_ok"
proof
  fix xs :: "'a list"
  assume ok: "scalars_ok xs"
  then have "length xs < 2 ^ 64" using isize_max_less [of "length xs"] by (simp add: scalars_ok_def)
  then show "\<exists>b. append_scalar_vec C xs = Inr b \<and> (\<forall>r. read_scalar_vec C (b @ r) = Inr (xs, r))"
    using codec.vec_read_back [OF append_scalar_codec [OF assms], of xs 32] ok
    by (simp add: append_scalar_vec_def read_scalar_vec_def scalars_ok_def)
qed

lemma append_proof_codec:
  assumes "serial_ok C"
  shows "codec (append_proof C) (read_proof C) (\<lambda>_. True)"
proof
  fix x
  from ser_okD [OF serial_okD(4) [OF assms], of x]
  show "\<exists>b. append_proof C x = Inr b \<and> (\<forall>r. read_proof C (b @ r) = Inr (x, r))"
    by (auto simp: append_proof_def read_proof_def encode_proof_def decode_proof_def)
qed

lemma append_ark_vk_codec:
  assumes "serial_ok C"
  shows "codec (append_ark_vk C) (read_ark_vk C) (\<lambda>_. True)"
proof
  fix x
  from ser_okD [OF serial_okD(5) [OF assms], of x]
  show "\<exists>b. append_ark_vk C x = Inr b \<and> (\<forall>r. read_ark_vk C (b @ r) = Inr (x, r))"
    by (auto simp: append_ark_vk_def read_ark_vk_def encode_ark_vk_def decode_ark_vk_def)
qed

lemma read_signature_append [codec_simps]:
  "serial_ok C \<Longrightarrow> read_signature C (append_signature C s @ r) = Inr (s, r)"
  by (simp add: read_signature_def append_signature_def encode_signature_def decode_signature_def
      serial_ok_simps)

lemma read_verifying_key_append [codec_simps]:
  "serial_ok C \<Longrightarrow> read_verifying_key C (append_verifying_key C k @ r) = Inr (k, r)"
  by (simp add: read_verifying_key_def append_verifying_key_def serial_ok_simps)

section \<open>Device submissions\<close>

lemma encode_scalar_ok:
  assumes "serial_ok C"
  obtains b where "encode_scalar C x = Inr b" "bytes_ok b" "decode_scalar C b = Inr x"
  using ser_okD [OF serial_okD(1) [OF assms], of x] by (auto simp: encode_scalar_def decode_scalar_def)

definition dci_ok where
  "dci_ok v \<longleftrightarrow>
     string_ok (dci_measured_value v) \<and> duration_ok (dci_timestamp v) \<and> duration_ok (dci_period v)"

lemma device_client_infor_wire_trip:
  assumes "serial_ok C" "dci_ok v"
  obtains w where "device_client_infor_to_wire C v = Inr w" "dciw_ok w"
    "device_client_infor_from_wire C w = Inr v" "dciw_verifying_key w = vk_sec1 C (dci_verifying_key v)"
proof -
  obtain b where "encode_scalar C (dci_merkle_leaf v) = Inr b" "bytes_ok b"
    "decode_scalar C b = Inr (dci_merkle_leaf v)"
    using encode_scalar_ok [OF assms(1)] by blast
  then show ?thesis
    using that assms
    by (simp add: device_client_infor_to_wire_def device_client_infor_from_wire_def
        serial_ok_simps [OF assms(1)] dci_ok_def dciw_ok_def)
qed

section \<open>Responses and contexts\<close>

definition rdi_ok where
  "rdi_ok v \<longleftrightarrow>
     string_ok (rdi_attester_addr v) \<and> duration_ok (rdi_timestamp v) \<and> duration_ok (rdi_period v) \<and>
     pred_option scalars_ok (rdi_shrubs_path v) \<and> pred_option bool_vec_ok (rdi_shrubs_tag v)"

lemma traverse_scalars:
  assumes "serial_ok C"
  shows "\<exists>bs. traverse (encode_scalar C) xs = Inr bs \<and> list_all bytes_ok bs \<and>
    length bs = length xs \<and> traverse (decode_scalar C) bs = Inr xs"
proof (induction xs)
  case (Cons x xs)
  obtain b where "encode_scalar C x = Inr b" "bytes_ok b" "decode_scalar C b = Inr x"
    using encode_scalar_ok [OF assms] by blast
  then show ?case using Cons by force
qed simp

lemma response_wire_trip:
  assumes C: "serial_ok C" and v: "rdi_ok v"
  obtains w where "response_device_infor_to_wire C v = Inr w" "rdiw_ok w"
    "response_device_infor_from_wire C w = Inr v"
proof -
  obtain p where p: "(case rdi_shrubs_path v of
        Some path \<Rightarrow> and_then (traverse (encode_scalar C) path) (\<lambda>p. Inr (Some p))
      | None \<Rightarrow> Inr None) = Inr p" "pred_option path_ok p"
    "(case p of
        Some path \<Rightarrow> and_then (traverse (decode_scalar C) path) (\<lambda>p. Inr (Some p))
      | None \<Rightarrow> Inr None) = Inr (rdi_shrubs_path v)"
  proof (cases "rdi_shrubs_path v")
    case None
    then show ?thesis using that [of None] by simp
  next
    case (Some xs)
    then have len: "32 * length xs \<le> isize_max" using v by (simp add: rdi_ok_def scalars_ok_def)
    obtain bs where bs: "traverse (encode_scalar C) xs = Inr bs" "list_all bytes_ok bs"
      "length bs = length xs" "traverse (decode_scalar C) bs = Inr xs"
      using traverse_scalars [OF C] by blast
    then have "path_ok bs" using len by (simp add: path_ok_def)
    then show ?thesis using that [of "Some bs"] Some bs by simp
  qed
  let ?w = "\<lparr>rdiw_verifying_key = vk_sec1 C (rdi_verifying_key v),
      rdiw_attester_addr = rdi_attester_addr v, rdiw_timestamp = rdi_timestamp v,
      rdiw_period = rdi_period v, rdiw_sig = map_option (encode_signature C) (rdi_sig v),
      rdiw_shrubs_path = p, rdiw_shrubs_tag = rdi_shrubs_tag v\<rparr>"
  show ?thesis
  proof (rule that)
    show "response_device_infor_to_wire C v = Inr ?w"
      using p(1) by (simp add: response_device_infor_to_wire_def)
    show "rdiw_ok ?w"
      using p(2) v by (cases "rdi_sig v")
        (simp_all add: rdiw_ok_def rdi_ok_def serial_ok_simps [OF C] encode_signature_def)
    show "response_device_infor_from_wire C ?w = Inr v"
      using p(3) by (cases "rdi_sig v")
        (simp_all add: response_device_infor_from_wire_def serial_ok_simps [OF C]
          encode_signature_def decode_signature_def)
  qed
qed

lemma response_message:
  assumes C: "serial_ok C"
  shows "message (encode_response_device_infor C) (decode_response_device_infor C) rdi_ok"
proof
  fix v :: "('a, 'b, 'd) response_device_infor"
  assume "rdi_ok v"
  then obtain w where w: "response_device_infor_to_wire C v = Inr w" "rdiw_ok w"
    "response_device_infor_from_wire C w = Inr v"
    using response_wire_trip [OF C] by blast
  with rdiw.decode_encoded [OF w(2)]
  show "\<exists>b. encode_response_device_infor C v = Inr b \<and>
      (\<forall>r. decode_response_device_infor C (b @ r) = Inr v)"
    by (auto simp: encode_response_device_infor_def decode_response_device_infor_def)
qed

definition pc_ok where
  "pc_ok v \<longleftrightarrow> scalars_ok (pc_root v)"

lemma public_context_message:
  assumes C: "serial_ok C"
  shows "message (encode_public_context C) (decode_public_context C) pc_ok"
proof
  fix v :: "('a, 'b) public_context"
  assume "pc_ok v"
  then obtain b where "append_scalar_vec C (pc_root v) = Inr b"
    "\<And>r. read_scalar_vec C (b @ r) = Inr (pc_root v, r)"
    using codec.read_back [OF append_scalar_vec_codec [OF C]] by (auto simp: pc_ok_def)
  then show "\<exists>b. encode_public_context C v = Inr b \<and> (\<forall>r. decode_public_context C (b @ r) = Inr v)"
    by (simp add: encode_public_context_def decode_public_context_def
        read_verifying_key_append [OF C])
qed

definition response_pair_ok where
  "response_pair_ok C p \<longleftrightarrow>
     rdi_ok (fst p) \<and> pc_ok (snd p) \<and>
     fits (encode_response_device_infor C (fst p)) \<and> fits (encode_public_context C (snd p))"

lemma verifier_response_message:
  assumes C: "serial_ok C"
  shows "message (\<lambda>(d, c). encode_verifier_response C d c) (decode_verifier_response C)
           (response_pair_ok C)"
proof
  fix p :: "('a, 'b, 'd) response_device_infor \<times> ('a, 'b) public_context"
  assume ok: "response_pair_ok C p"
  obtain d c where p: "p = (d, c)" by (cases p)
  obtain a where a: "encode_response_device_infor C d = Inr a"
    "\<And>r. decode_response_device_infor C (a @ r) = Inr d"
    using message.decode_encoded [OF response_message [OF C], of d] ok
    by (auto simp: response_pair_ok_def p)
  obtain b where b: "encode_public_context C c = Inr b"
    "\<And>r. decode_public_context C (b @ r) = Inr c"
    using message.decode_encoded [OF public_context_message [OF C], of c] ok
    by (auto simp: response_pair_ok_def p)
  have "bytes_ok a" "bytes_ok b" using ok a(1) b(1) by (auto simp: response_pair_ok_def p fits_def)
  then show "\<exists>b. (case p of (d, c) \<Rightarrow> encode_verifier_response C d c) = Inr b \<and>
      (\<forall>r. decode_verifier_response C (b @ r) = Inr p)"
    using a(1) a(2) [of "[]"] b(1) b(2) [of "[]"]
    by (simp add: p encode_verifier_response_def decode_verifier_response_def)
qed

section \<open>Evidence\<close>

definition er_ok where
  "er_ok v \<longleftrightarrow>
     duration_ok (er_timestamp v) \<and> duration_ok (er_period v) \<and>
     duration_ok (er_timestamp_attester v) \<and> duration_ok (er_period_attester v)"

lemma evidence_message:
  assumes C: "serial_ok C"
  shows "message (\<lambda>(v, s). encode_evidence_bundle C v s) (decode_evidence_bundle C) (\<lambda>(v, s). er_ok v)"
proof
  fix p :: "('a, 'b, 'd, 'e, 'f) evidence_reply \<times> 'd"
  obtain v s where p: "p = (v, s)" by (cases p)
  assume "case p of (v, s) \<Rightarrow> er_ok v"
  then have ok: "er_ok v" by (simp add: p)
  note trips = codec.read_back [OF append_proof_codec [OF C], of "er_proof v"]
    codec.read_back [OF append_ark_vk_codec [OF C], of "er_vk v"]
    codec.read_back [OF append_scalar_codec [OF C], of "er_authorized_infor v"]
  from trips obtain a b d where "append_proof C (er_proof v) = Inr a"
    "\<And>r. read_proof C (a @ r) = Inr (er_proof v, r)" "append_ark_vk C (er_vk v) = Inr b"
    "\<And>r. read_ark_vk C (b @ r) = Inr (er_vk v, r)"
    "append_scalar C (er_authorized_infor v) = Inr d"
    "\<And>r. read_scalar C (d @ r) = Inr (er_authorized_infor v, r)" by auto
  then show "\<exists>b. (case p of (v, s) \<Rightarrow> encode_evidence_bundle C v s) = Inr b \<and>
      (\<forall>r. decode_evidence_bundle C (b @ r) = Inr p)"
    using ok by (simp add: p encode_evidence_bundle_def decode_evidence_bundle_def er_ok_def
        read_signature_append [OF C] read_verifying_key_append [OF C])
qed

section \<open>Inversion of the length-prefixed readers\<close>

lemma take_exact_8:
  "take_exact 8 s = Some (b, r) \<longleftrightarrow> (\<exists>w. b = u64_be w \<and> s = u64_be w @ r)"
  unfolding take_exact_Some_iff by (metis length_u64_be(1) u64_be_of_be)

lemma take_exact_None: "take_exact n xs = None \<longleftrightarrow> length xs < n"
  by (simp add: take_exact_def)

lemma u64_be_cases:
  obtains (short) "length s < 8" | (full) w r where "s = u64_be w @ r"
proof (cases "take_exact 8 s")
  case None
  then show ?thesis using short by (simp add: take_exact_None)
next
  case (Some p)
  then show ?thesis using full by (cases p) (auto simp: take_exact_8)
qed

section \<open>Properties\<close>

text \<open>
  C22. Reading length-prefixed bytes succeeds exactly on what the writer wrote, panics exactly
  when the announced length exceeds the largest allocation, whatever bytes follow, and returns
  an error on every other input.
\<close>
theorem read_len_bytes_exact:
  "(read_len_bytes s = Inr (b, r) \<longleftrightarrow> s = append_len_bytes b @ r \<and> bytes_ok b) \<and>
   ((\<exists>m. read_len_bytes s = Inl (Panic m)) \<longleftrightarrow> (\<exists>w t. s = u64_be w @ t \<and> isize_max < unat w))"
proof (cases s rule: u64_be_cases)
  case short
  then have "read_len_bytes s = Inl (Err ''read fixed bytes failed'')"
    by (simp add: read_len_bytes_def read_u64_def read_exact_def take_exact_def)
  then show ?thesis using short by (auto simp: append_len_bytes_def)
next
  case (full w t)
  have inj: "u64_be w @ t = u64_be v @ u \<longleftrightarrow> w = v \<and> t = u" for v u
    by (metis append_eq_append_conv length_u64_be(1) u64_of_be_be)
  have run: "read_len_bytes s =
      and_then (alloc 1 (unat w)) (\<lambda>_. ok_or ''read length-prefixed bytes failed'' (take_exact (unat w) t))"
    by (simp add: read_len_bytes_def full)
  show ?thesis
  proof (cases "unat w \<le> isize_max")
    case True
    have "s = append_len_bytes b @ r \<and> bytes_ok b \<longleftrightarrow> t = b @ r \<and> length b = unat w"
      using True bytes_ok_unat [of b] isize_max_less [of "length b"]
      by (auto simp: full append_len_bytes_def inj bytes_ok_def)
    moreover have "read_len_bytes s = Inr (b, r) \<longleftrightarrow> t = b @ r \<and> length b = unat w"
      using True by (simp add: run take_exact_Some_iff)
    moreover have "read_len_bytes s \<noteq> Inl (Panic m)" for m
      using True by (cases "take_exact (unat w) t") (simp_all add: run)
    ultimately show ?thesis using True inj by (auto simp: full)
  next
    case False
    then have "read_len_bytes s = Inl (Panic ''capacity overflow'')"
      by (simp add: run alloc_def)
    moreover have "\<not> (s = append_len_bytes b @ r \<and> bytes_ok b)"
      using False bytes_ok_unat [of b] by (auto simp: full append_len_bytes_def inj bytes_ok_def)
    ultimately show ?thesis using False full by auto
  qed
qed

text \<open>
  A frame is read exactly when the stream starts with a frame the sender could have
  written, of at most 512 MiB; the rest of the stream is left for the next frame, and no input
  makes the reader panic.
\<close>
theorem tcp_frame_exact:
  "(tcp_read_frame s = Inr (p, r) \<longleftrightarrow> s = tcp_send_frame p @ r \<and> length p \<le> MAX_TCP_FRAME_LEN) \<and>
   tcp_read_frame s \<noteq> Inl (Panic m)"
proof (cases s rule: u64_be_cases)
  case short
  then have "tcp_read_frame s = Inl (Err ''read TCP frame length failed'')"
    by (simp add: tcp_read_frame_def take_exact_def)
  then show ?thesis using short by (auto simp: tcp_send_frame_def)
next
  case (full w t)
  have inj: "u64_be w @ t = u64_be v @ u \<longleftrightarrow> w = v \<and> t = u" for v u
    by (metis append_eq_append_conv length_u64_be(1) u64_of_be_be)
  have max: "n \<le> MAX_TCP_FRAME_LEN \<Longrightarrow> n \<le> isize_max" for n
    by (simp add: MAX_TCP_FRAME_LEN_def isize_max_def)
  have small: "length p \<le> MAX_TCP_FRAME_LEN \<Longrightarrow> unat (of_nat (length p) :: u64) = length p"
    using max [of "length p"] bytes_ok_unat [of p] by (simp add: bytes_ok_def)
  show ?thesis
  proof (cases "unat w \<le> MAX_TCP_FRAME_LEN")
    case True
    then have run: "tcp_read_frame s =
        ok_or ''read TCP frame payload failed'' (take_exact (unat w) t)"
      using max by (simp add: tcp_read_frame_def full)
    have "tcp_read_frame s \<noteq> Inl (Panic m)"
      by (cases "take_exact (unat w) t") (simp_all add: run)
    moreover have "s = tcp_send_frame p @ r \<and> length p \<le> MAX_TCP_FRAME_LEN \<longleftrightarrow>
        t = p @ r \<and> length p = unat w"
      using True small by (auto simp: full tcp_send_frame_def inj)
    ultimately show ?thesis by (simp add: run take_exact_Some_iff)
  next
    case False
    then show ?thesis
      using small by (auto simp: tcp_read_frame_def full tcp_send_frame_def inj)
  qed
qed

lemma signed_submission_runs:
  assumes "serial_ok C" "sign_ok C" "dci_ok v" "fits (encode_device_client_infor C v)"
    and "dci_verifying_key v = vk_of_sk C (signing_key key)"
  shows "\<exists>s b. sign_device_client_infor_to_wire C v key = Inr s \<and>
    encode_signed_device_client_infor_message s = Inr b \<and>
    decode_signed_device_client_infor_message b = Inr s \<and>
    verify_signed_device_client_infor_wire C s = Inr v"
proof -
  obtain w where w: "device_client_infor_to_wire C v = Inr w" "dciw_ok w"
    "device_client_infor_from_wire C w = Inr v" "dciw_verifying_key w = vk_sec1 C (dci_verifying_key v)"
    using device_client_infor_wire_trip [OF assms(1,3)] by blast
  obtain m where m: "encode_device_client_infor_wire w = Inr m"
    using dciw.decode_encoded [OF w(2)] by blast
  let ?sig = "sg_sign C (signing_key key) m"
  let ?s = "\<lparr>sdci_device = w, sdci_signature = sg_der C ?sig\<rparr>"
  have s: "sign_device_client_infor_to_wire C v key = Inr ?s"
    using w(1) m by (simp add: sign_device_client_infor_to_wire_def sign_device_client_infor_def
        encode_device_client_infor_def encode_signature_def)
  have "sdci_ok ?s"
    using w m assms(4) serial_ok_simps [OF assms(1)]
    by (simp add: sdci_ok_def encode_device_client_infor_def)
  from sdci.typed_round_trip [OF this] obtain b where
    "encode_signed_device_client_infor_message ?s = Inr b"
    "decode_signed_device_client_infor_message b = Inr ?s"
    by (auto simp: encode_signed_device_client_infor_message_def
        decode_signed_device_client_infor_message_def)
  moreover have "verify_signed_device_client_infor_wire C ?s = Inr v"
    using w m assms(2,5) serial_ok_simps [OF assms(1)]
    by (simp add: verify_signed_device_client_infor_wire_def decode_signature_def sign_ok_def)
  ultimately show ?thesis using s by blast
qed

text \<open>
  A submission that an attester signs with its own key is decoded by the verifier to the
  same signed form and accepted, giving back the submitted device information.
\<close>
theorem submission_accepted:
  assumes "serial_ok C" "sign_ok C" "dci_ok v" "fits (encode_device_client_infor C v)"
    and "dci_verifying_key v = vk_of_sk C (signing_key key)"
  shows "\<exists>s b. sign_device_client_infor_to_wire C v key = Inr s \<and>
    encode_signed_device_client_infor_message s = Inr b \<and>
    decode_signed_device_client_infor_message b = Inr s \<and>
    verify_signed_device_client_infor_wire C s = Inr v"
  using assms by (rule signed_submission_runs)

definition toy_submission :: "(u64, u64) device_client_infor" where
  "toy_submission = \<lparr>dci_verifying_key = 7, dci_measured_value = ''ab'', dci_merkle_leaf = 9,
     dci_timestamp = Duration 100 5, dci_period = Duration 10 0\<rparr>"

lemma toy_submission_ok:
  "dci_ok toy_submission" "fits (encode_device_client_infor toy_crypto toy_submission)"
  "dci_verifying_key toy_submission = vk_of_sk toy_crypto (signing_key \<lparr>signing_key = 7, verifying_key = (7::u64)\<rparr>)"
  by (simp_all add: dci_ok_def toy_submission_def string_ok_def bytes_of_def isize_max_def
      duration_ok_def nanos_per_sec_def fits_def encode_device_client_infor_def device_client_infor_to_wire_def
      encode_device_client_infor_wire_def encode_scalar_def toy_crypto_def
      append_string_def append_len_bytes_def append_duration_def bytes_ok_def)

theorem submission_accepted_witness:
  "\<exists>s b. sign_device_client_infor_to_wire toy_crypto toy_submission
       \<lparr>signing_key = 7, verifying_key = (7::u64)\<rparr> = Inr s \<and>
    encode_signed_device_client_infor_message s = Inr b \<and>
    decode_signed_device_client_infor_message b = Inr s \<and>
    verify_signed_device_client_infor_wire toy_crypto s = Inr toy_submission"
  by (rule submission_accepted [OF toy_serial_ok toy_sign_ok toy_submission_ok])

text \<open>
  C21. Whatever submission the verifier accepts carries a signature that verifies, under the very
  key of the submission, over the encoding of the fields it returns.
\<close>
theorem accepted_submission_signed:
  assumes "verify_signed_device_client_infor_wire C s = Inr v"
  shows "\<exists>sig m. sg_of_der C (sdci_signature s) = Some sig \<and>
    encode_device_client_infor_wire (sdci_device s) = Inr m \<and>
    sg_verify C (dci_verifying_key v) m sig \<and>
    vk_of_sec1 C (dciw_verifying_key (sdci_device s)) = Some (dci_verifying_key v) \<and>
    fr_de C (dciw_merkle_leaf (sdci_device s)) = Some (dci_merkle_leaf v) \<and>
    dci_measured_value v = dciw_measured_value (sdci_device s) \<and>
    dci_timestamp v = dciw_timestamp (sdci_device s) \<and> dci_period v = dciw_period (sdci_device s)"
  using assms
  by (auto simp: verify_signed_device_client_infor_wire_def device_client_infor_from_wire_def
      decode_signature_def decode_scalar_def res_simps)

definition toy_signed :: signed_device_client_infor_wire where
  "toy_signed = \<lparr>sdci_device = \<lparr>dciw_verifying_key = u64_be 7, dciw_measured_value = ''ab'',
     dciw_merkle_leaf = u64_be 9, dciw_timestamp = Duration 100 5, dciw_period = Duration 10 0\<rparr>,
     sdci_signature = u64_be (7 + of_nat (nat_of_be (append_len_bytes (u64_be 7) @ append_string ''ab'' @
       append_len_bytes (u64_be 9) @ append_duration (Duration 100 5) @ append_duration (Duration 10 0))))\<rparr>"

theorem accepted_submission_signed_witness:
  "\<exists>sig m. encode_device_client_infor_wire (sdci_device toy_signed) = Inr m \<and>
     sg_of_der toy_crypto (sdci_signature toy_signed) = Some sig \<and> sg_verify toy_crypto 7 m sig"
proof -
  have "verify_signed_device_client_infor_wire toy_crypto toy_signed = Inr toy_submission"
    by (simp add: verify_signed_device_client_infor_wire_def toy_signed_def toy_crypto_def
        decode_signature_def encode_device_client_infor_wire_def device_client_infor_from_wire_def
        decode_scalar_def toy_submission_def)
  from accepted_submission_signed [OF this] show ?thesis by (auto simp: toy_submission_def)
qed

lemma encrypted_response_runs:
  assumes "serial_ok C" "channel_ok C" "response_pair_ok C (dev_res, ctx)" "length nonce = 12"
    and "\<And>p. encode_verifier_response C dev_res ctx = Inr p \<Longrightarrow> length p < 2 ^ 36"
  shows "\<exists>b. encode_encrypted_verifier_response C eph nonce dev_res ctx
               (vk_of_sk C (signing_key key)) = Inr b \<and>
    (\<forall>r. decode_encrypted_verifier_response C (b @ r) key = Inr (dev_res, ctx))"
proof -
  obtain p where p: "encode_verifier_response C dev_res ctx = Inr p"
    "decode_verifier_response C p = Inr (dev_res, ctx)"
    using message.decode_exact [OF verifier_response_message [OF assms(1)] assms(3)] by auto
  define shared where "shared = ecdh C eph (vk_of_sk C (signing_key key))"
  obtain k where k: "derive_aes_key C shared = Inr k" "length k = 32"
    using channel_okD(2) [OF assms(2)] by (auto simp: derive_aes_key_def)
  obtain ct where ct: "aead_seal C k nonce p = Some ct" "bytes_ok ct" "aead_open C k nonce ct = Some p"
    using channel_okD(3) [OF assms(2) k(2) assms(4) assms(5) [OF p(1)]] by blast
  let ?m = "\<lparr>em_ephemeral_public_key = vk_sec1 C (vk_of_sk C eph), em_nonce = nonce, em_ciphertext = ct\<rparr>"
  have enc: "encrypt_for_device_pubkey C eph nonce p (vk_of_sk C (signing_key key)) = Inr ?m"
    using k(1) ct(1) by (simp add: encrypt_for_device_pubkey_def serial_ok_simps [OF assms(1)] shared_def)
  have "ecdh C (signing_key key) (vk_of_sk C eph) = shared"
    unfolding shared_def by (rule channel_okD(1) [OF assms(2)])
  then have dec: "decrypt_for_device_key C ?m key = Inr p"
    using k(1) ct(3) assms(4)
    by (simp add: decrypt_for_device_key_def serial_ok_simps [OF assms(1)] serial_okD(7) [OF assms(1)])
  have "em_ok ?m"
    using ct(2) assms(4) serial_ok_simps(1) [OF assms(1)]
    by (simp add: em_ok_def bytes_ok_def [of nonce] isize_max_def)
  from em.decode_encoded [OF this] show ?thesis
    using p enc dec
    by (auto simp: encode_encrypted_verifier_response_def decode_encrypted_verifier_response_def)
qed

text \<open>
  C20. What the verifier encrypts for the public key of a device is decrypted and decoded by the
  holder of the secret key to the same response and public context, for every ephemeral secret
  and 12-byte nonce, and whatever bytes follow the message.
\<close>
theorem encrypted_response_round_trip:
  assumes "serial_ok C" "channel_ok C" "response_pair_ok C (dev_res, ctx)" "length nonce = 12"
    and "\<And>p. encode_verifier_response C dev_res ctx = Inr p \<Longrightarrow> length p < 2 ^ 36"
  shows "\<exists>b. encode_encrypted_verifier_response C eph nonce dev_res ctx
               (vk_of_sk C (signing_key key)) = Inr b \<and>
    (\<forall>r. decode_encrypted_verifier_response C (b @ r) key = Inr (dev_res, ctx))"
  using assms by (rule encrypted_response_runs)

definition toy_response :: "(u64, u64, u64) response_device_infor" where
  "toy_response = \<lparr>rdi_verifying_key = 7, rdi_attester_addr = ''h:1'', rdi_timestamp = Duration 100 5,
     rdi_period = Duration 10 0, rdi_sig = Some 3, rdi_shrubs_path = Some [4, 5],
     rdi_shrubs_tag = Some [True, False]\<rparr>"

definition toy_context :: "(u64, u64) public_context" where
  "toy_context = \<lparr>pc_root = [1, 2], pc_verifier_pk = 11\<rparr>"

lemmas toy_encoding = encode_response_device_infor_def response_device_infor_to_wire_def
  encode_response_device_infor_wire_def encode_public_context_def append_scalar_vec_def
  append_vec_def append_scalar_def encode_scalar_def append_verifying_key_def encode_signature_def
  append_option_def append_path_def append_option_bool_vec_def append_bool_vec_def
  append_bool_def append_string_def append_len_bytes_def append_duration_def
  encode_verifier_response_def toy_crypto_def toy_response_def toy_context_def

lemma toy_pair_ok: "response_pair_ok toy_crypto (toy_response, toy_context)"
proof -
  have "rdi_ok toy_response"
    by (simp add: rdi_ok_def toy_response_def string_ok_def bytes_of_def isize_max_def duration_ok_def
        nanos_per_sec_def scalars_ok_def bool_vec_ok_def)
  moreover have "pc_ok toy_context" by (simp add: pc_ok_def toy_context_def scalars_ok_def isize_max_def)
  ultimately show ?thesis
    by (simp add: response_pair_ok_def fits_def toy_encoding bytes_ok_def isize_max_def)
qed

theorem encrypted_response_round_trip_witness:
  "\<exists>b. encode_encrypted_verifier_response toy_crypto 13 (replicate 12 0) toy_response toy_context 7 = Inr b \<and>
     (\<forall>r. decode_encrypted_verifier_response toy_crypto (b @ r)
            \<lparr>signing_key = 7, verifying_key = (7 :: u64)\<rparr> = Inr (toy_response, toy_context))"
proof -
  have "length p < 2 ^ 36" if "encode_verifier_response toy_crypto toy_response toy_context = Inr p" for p
    using that by (auto simp: toy_encoding)
  from encrypted_response_round_trip [OF toy_serial_ok toy_channel_ok toy_pair_ok _ this,
      where nonce = "replicate 12 0" and eph = 13 and key = "\<lparr>signing_key = 7, verifying_key = (7 :: u64)\<rparr>"]
  show ?thesis by (simp add: toy_crypto_def)
qed

text \<open>
  An evidence message decodes to the reply and the signature it was built from, and a
  message of one kind is never read as the other kind.
\<close>
theorem evidence_message_round_trip:
  assumes "serial_ok C" "er_ok v"
  shows "\<exists>b. encode_evidence_message C v s = Inr b \<and> decode_evidence_message C b = Inr (v, s) \<and>
    decode_public_context_message C b = Inl (Err ''not a PublicContext message'')"
proof -
  obtain b where "encode_evidence_bundle C v s = Inr b" "decode_evidence_bundle C b = Inr (v, s)"
    using message.decode_exact [OF evidence_message [OF assms(1)], of "(v, s)"] assms(2) by auto
  then show ?thesis
    by (simp add: encode_evidence_message_def decode_evidence_message_def decode_public_context_message_def)
       (simp add: decode_typed_def encode_typed_message_def starts_with_def
        MSG_EVIDENCE_def MSG_PUBLIC_CONTEXT_def bytes_of_def)
qed

definition toy_evidence :: "(u64, u64, u64, u64, u64) evidence_reply" where
  "toy_evidence = \<lparr>er_proof = 1, er_vk = 2, er_sig = 3, er_pk = 4, er_timestamp = Duration 5 0,
     er_period = Duration 6 0, er_authorized_infor = 7, er_timestamp_attester = Duration 8 0,
     er_period_attester = Duration 9 0, er_proof_timestamp_period_signature = 10\<rparr>"

theorem evidence_message_round_trip_witness:
  "\<exists>b. encode_evidence_message toy_crypto toy_evidence 12 = Inr b \<and>
     decode_evidence_message toy_crypto b = Inr (toy_evidence, 12)"
proof -
  have "er_ok toy_evidence"
    by (simp add: er_ok_def toy_evidence_def duration_ok_def nanos_per_sec_def)
  from evidence_message_round_trip [OF toy_serial_ok this, of 12] show ?thesis by auto
qed

text \<open>
  A public context message decodes to the context it was built from, and no encoded context
  is a prefix of another one.
\<close>
theorem public_context_round_trip:
  assumes "serial_ok C" "pc_ok v" "pc_ok w"
  shows "\<exists>b. encode_public_context_message C v = Inr b \<and> decode_public_context_message C b = Inr v \<and>
    (\<forall>r. encode_public_context_message C w = Inr (b @ r) \<longrightarrow> w = v)"
proof -
  note pc = public_context_message [OF assms(1)]
  obtain b where b: "encode_public_context C v = Inr b" "decode_public_context C b = Inr v"
    using message.decode_exact [OF pc assms(2)] by blast
  have "w = v" if "encode_public_context_message C w = Inr ((MSG_PUBLIC_CONTEXT @ b) @ r)" for r
  proof -
    from that have "encode_public_context C w = Inr (b @ r)"
      by (auto simp: encode_public_context_message_def encode_typed_message_def res_simps)
    then show ?thesis using message.prefix_inject [OF pc assms(2,3) b(1)] by simp
  qed
  then show ?thesis using b
    by (auto simp: encode_public_context_message_def decode_public_context_message_def
        encode_typed_message_def decode_typed_def)
qed

theorem public_context_round_trip_witness:
  "\<exists>b. encode_public_context_message toy_crypto toy_context = Inr b \<and>
     decode_public_context_message toy_crypto b = Inr toy_context"
proof -
  have "pc_ok toy_context" by (simp add: pc_ok_def toy_context_def scalars_ok_def isize_max_def)
  from public_context_round_trip [OF toy_serial_ok this this] show ?thesis by auto
qed

end
