(* ===== verification/Evidence.thy ===== *)
theory Evidence
  imports WireFacts ShrubsPath
begin

text \<open>
  Keys, leaves, authorizations and evidence: the constructors and signing bytes of
  \<^verbatim>\<open>hydra-toolkit/src/lib.rs\<close>, the verifier's authorization signature
  (\<^verbatim>\<open>verifier/src/lib.rs\<close>), and the attester's circuit and evidence
  (\<^verbatim>\<open>attester/src/lib.rs\<close>).

  The clock and the measurement file are arguments: \<open>now = None\<close> is a system time before the
  epoch, \<open>measurement = None\<close> a missing \<^verbatim>\<open>example.txt\<close>. Groth16 setup and proving are the record
  \<open>groth\<close>.
\<close>

section \<open>Environment\<close>

definition read_measurement_file :: "string option \<Rightarrow> string res" where
  "read_measurement_file measurement =
     (case measurement of Some s \<Rightarrow> Inr s | None \<Rightarrow> Inl (Panic ''read measurement file failed''))"

definition current_unix_duration :: "duration option \<Rightarrow> duration res" where
  "current_unix_duration now = ok_or ''system time is before UNIX_EPOCH'' now"

definition expect :: "string \<Rightarrow> 'a res \<Rightarrow> 'a res" where
  "expect msg m = (case m of Inl (Err e) \<Rightarrow> Inl (Panic msg) | _ \<Rightarrow> m)"

lemma expect_simps [simp, res_simps]:
  "expect msg (Inr x) = Inr x" "expect msg (Inl (Err e)) = Inl (Panic msg)"
  "expect msg m = Inr x \<longleftrightarrow> m = Inr x"
  by (auto simp: expect_def split: sum.splits failure.splits)

definition fr_of_bytes where
  "fr_of_bytes C b = fr_of_nat C (nat_of_be b)"

definition fr_of_secs where
  "fr_of_secs C d = fr_of_nat C (unat (as_secs d))"

section \<open>Freshness\<close>

definition verify_device_client_infor_freshness where
  "verify_device_client_infor_freshness now v =
     and_then (ok_or ''DeviceClientInfor timestamp + period overflow''
                 (checked_add (dci_timestamp v) (dci_period v))) (\<lambda>expires_at.
     and_then (current_unix_duration now) (\<lambda>t.
       bail_unless (t < expires_at) ''DeviceClientInfor expired''))"

section \<open>Leaves and authorizations\<close>

definition generate_device_merkle_leaf where
  "generate_device_merkle_leaf C measurement key =
     and_then (read_measurement_file measurement) (\<lambda>m.
       let sk = fr_of_bytes C (sk_bytes C (signing_key key));
           pk = fr_of_bytes C (vk_sec1 C (verifying_key key));
           ar = fr_of_bytes C (bytes_of m);
           c = hash2 C ar sk
       in Inr (hash2 C c pk))"

definition device_client_infor_new where
  "device_client_infor_new now measurement vk leaf =
     and_then (read_measurement_file measurement) (\<lambda>m.
     and_then (expect ''system time is before UNIX_EPOCH'' (current_unix_duration now)) (\<lambda>t.
       Inr \<lparr>dci_verifying_key = vk, dci_measured_value = m, dci_merkle_leaf = leaf,
            dci_timestamp = t, dci_period = duration_from_secs 8640000\<rparr>))"

definition generate_device_client_infor where
  "generate_device_client_infor C now measurement key =
     and_then (generate_device_merkle_leaf C measurement key) (\<lambda>leaf.
       device_client_infor_new now measurement (verifying_key key) leaf)"

definition response_device_infor_new where
  "response_device_infor_new now pk =
     and_then (expect ''system time failed'' (current_unix_duration now)) (\<lambda>t.
       Inr \<lparr>rdi_verifying_key = pk, rdi_attester_addr = '''', rdi_timestamp = t,
            rdi_period = duration_from_secs 8640000, rdi_sig = None,
            rdi_shrubs_path = None, rdi_shrubs_tag = None\<rparr>)"

definition generate_verifier_authoried_infor where
  "generate_verifier_authoried_infor C ar pk time peri =
     (let temp_1 = hash2 C pk ar; temp_2 = hash2 C temp_1 time in hash2 C temp_2 peri)"

definition generate_device_authoried_infor where
  "generate_device_authoried_infor C dev tim =
     (let pk = fr_of_bytes C (vk_sec1 C (dci_verifying_key dev));
          ar = fr_of_bytes C (bytes_of (dci_measured_value dev));
          time = fr_of_secs C (rdi_timestamp tim);
          peri = fr_of_secs C (rdi_period tim);
          temp_1 = hash2 C pk ar;
          temp_2 = hash2 C temp_1 time
      in hash2 C temp_2 peri)"

text \<open>The message of the authorization signature, built in the same way on both sides.\<close>

definition verifier_sig_message where
  "verifier_sig_message C pk infor ts per =
     vk_sec1 C pk @ bytes_of (fr_show C infor) @ u64_be (as_secs ts) @ u64_be (as_secs per)"

definition verifier_compute_sig where
  "verifier_compute_sig C verifier_key tim infor =
     sg_sign C (signing_key verifier_key)
       (verifier_sig_message C (rdi_verifying_key tim) infor (rdi_timestamp tim) (rdi_period tim))"

section \<open>Signing bytes of the evidence\<close>

definition append_field :: "byte list \<Rightarrow> byte list \<Rightarrow> byte list" where
  "append_field name data =
     u64_be (of_nat (length name)) @ name @ u64_be (of_nat (length data)) @ data"

definition serialize_duration :: "duration \<Rightarrow> byte list" where
  "serialize_duration d = u64_be (as_secs d) @ u32_be (subsec_nanos d)"

definition serialize_ark :: "byte list option \<Rightarrow> byte list res" where
  "serialize_ark b = ok_or ''SerializationError'' b"

definition proof_timestamp_period_signing_bytes where
  "proof_timestamp_period_signing_bytes C proof ts per =
     and_then (serialize_ark (pf_ser C proof)) (\<lambda>p.
       Inr (append_field (bytes_of ''proof'') p @
            append_field (bytes_of ''timestamp_attester'') (serialize_duration ts) @
            append_field (bytes_of ''period_attester'') (serialize_duration per)))"

definition sign_proof_timestamp_period where
  "sign_proof_timestamp_period C key proof ts per =
     and_then (proof_timestamp_period_signing_bytes C proof ts per) (\<lambda>msg. Inr (sg_sign C key msg))"

definition to_signing_bytes_all_fields where
  "to_signing_bytes_all_fields C v =
     and_then (serialize_ark (pf_ser C (er_proof v))) (\<lambda>proof.
     and_then (serialize_ark (gv_ser C (er_vk v))) (\<lambda>vk.
     and_then (serialize_ark (fr_ser C (er_authorized_infor v))) (\<lambda>infor.
       Inr (append_field (bytes_of ''proof'') proof @
            append_field (bytes_of ''vk'') vk @
            append_field (bytes_of ''sig'') (sg_der C (er_sig v)) @
            append_field (bytes_of ''pk'') (vk_sec1 C (er_pk v)) @
            append_field (bytes_of ''timestamp'') (serialize_duration (er_timestamp v)) @
            append_field (bytes_of ''period'') (serialize_duration (er_period v)) @
            append_field (bytes_of ''authorized_infor'') infor @
            append_field (bytes_of ''timestamp_attester'') (serialize_duration (er_timestamp_attester v)) @
            append_field (bytes_of ''period_attester'') (serialize_duration (er_period_attester v)) @
            append_field (bytes_of ''proof_timestamp_period_signature'')
              (sg_der C (er_proof_timestamp_period_signature v))))))"

definition EVIDENCE_REPLY_ATTESTER_PERIOD_SECS :: u64 where
  "EVIDENCE_REPLY_ATTESTER_PERIOD_SECS = 2 * 60"

definition evidence_reply_new where
  "evidence_reply_new C now proof vk sig pk ts per infor key =
     and_then (expect ''system time is before UNIX_EPOCH'' (current_unix_duration now)) (\<lambda>ts_a.
       let per_a = duration_from_secs EVIDENCE_REPLY_ATTESTER_PERIOD_SECS in
       and_then (expect ''serialize EvidenceReply proof freshness fields failed''
                   (sign_proof_timestamp_period C key proof ts_a per_a)) (\<lambda>psig.
         Inr \<lparr>er_proof = proof, er_vk = vk, er_sig = sig, er_pk = pk, er_timestamp = ts,
              er_period = per, er_authorized_infor = infor, er_timestamp_attester = ts_a,
              er_period_attester = per_a, er_proof_timestamp_period_signature = psig\<rparr>))"

definition gen_public_inputs where
  "gen_public_inputs C v root =
     [fr_of_bytes C (vk_sec1 C (er_pk v))] @ root @
     [er_authorized_infor v, fr_of_secs C (er_timestamp v), fr_of_secs C (er_period v)]"

section \<open>Device configuration and circuit\<close>

record ('f, 'vk, 'sk, 'sg) device_config_infor =
  dc_signing_key :: 'sk
  dc_verifying_key :: 'vk
  dc_measured_value :: 'f
  dc_timestamp :: duration
  dc_period :: duration
  dc_merkle_leaf :: 'f
  dc_merkle_path :: "'f list option"
  dc_merkle_tag :: "bool list option"
  dc_authorized_infor :: 'f
  dc_signature :: "'sg option"

definition device_config_infor_new where
  "device_config_infor_new C dev_key dev_cli dec_res =
     (let pk = fr_of_bytes C (vk_sec1 C (verifying_key dev_key));
          ar = fr_of_bytes C (bytes_of (dci_measured_value dev_cli));
          time = fr_of_secs C (rdi_timestamp dec_res);
          peri = fr_of_secs C (rdi_period dec_res)
      in \<lparr>dc_signing_key = signing_key dev_key,
          dc_verifying_key = verifying_key dev_key,
          dc_measured_value = ar,
          dc_timestamp = rdi_timestamp dec_res,
          dc_period = rdi_period dec_res,
          dc_merkle_leaf = dci_merkle_leaf dev_cli,
          dc_merkle_path = rdi_shrubs_path dec_res,
          dc_merkle_tag = rdi_shrubs_tag dec_res,
          dc_authorized_infor = generate_verifier_authoried_infor C ar pk time peri,
          dc_signature = rdi_sig dec_res\<rparr>)"

record 'f circuit =
  cc_pk :: 'f
  cc_sk :: 'f
  cc_ar :: 'f
  cc_time :: 'f
  cc_period :: 'f
  cc_output :: 'f
  cc_root :: "'f list"
  cc_path :: "'f list option"
  cc_tag :: "bool list option"

definition circuit_new where
  "circuit_new C cfg root path tag =
     \<lparr>cc_pk = fr_of_bytes C (vk_sec1 C (dc_verifying_key cfg)),
      cc_sk = fr_of_bytes C (sk_bytes C (dc_signing_key cfg)),
      cc_ar = dc_measured_value cfg,
      cc_time = fr_of_secs C (dc_timestamp cfg),
      cc_period = fr_of_secs C (dc_period cfg),
      cc_output = dc_authorized_infor cfg,
      cc_root = root, cc_path = path, cc_tag = tag\<rparr>"

text \<open>The public inputs, in the order of the \<open>new_input\<close> calls.\<close>

definition circuit_inputs :: "'f circuit \<Rightarrow> 'f list" where
  "circuit_inputs c = [cc_pk c] @ cc_root c @ [cc_output c, cc_time c, cc_period c]"

text \<open>
  \<open>generate_constraints\<close> on the assigned values: \<open>Inr b\<close> tells whether all enforced equations
  hold; an error or a panic is one of synthesis.
\<close>

definition generate_constraints :: "('f \<Rightarrow> 'f \<Rightarrow> 'f) \<Rightarrow> 'f circuit \<Rightarrow> bool res" where
  "generate_constraints h c =
     (let m = h (cc_ar c) (cc_sk c);
          leaf = h m (cc_pk c)
      in and_then
           (case (cc_path c, cc_tag c) of
              (Some path, Some tag) \<Rightarrow>
                if length path \<noteq> length tag then Inl (Err ''Unsatisfiable'')
                else
                  let top = foldl (\<lambda>l i. if tag ! i then h l (path ! i) else h (path ! i) l)
                              leaf [0..<length tag]
                  in Inr (foldl (\<lambda>res r. res \<or> top = r) False (cc_root c))
            | (None, None) \<Rightarrow> and_then (at (cc_root c) 0) (\<lambda>r. Inr (leaf = r))
            | _ \<Rightarrow> Inl (Err ''Unsatisfiable''))
           (\<lambda>member.
             let result_1 = h (cc_pk c) (cc_ar c);
                 result_2 = h result_1 (cc_time c);
                 result = h result_2 (cc_period c)
             in Inr (member \<and> cc_output c = result)))"

text \<open>Groth16 setup and proving; the number stands for the randomness drawn.\<close>

record ('f, 'gp, 'gv, 'pf) groth =
  groth_setup :: "'f circuit \<Rightarrow> nat \<Rightarrow> ('gp \<times> 'gv) res"
  groth_prove :: "'gp \<Rightarrow> 'f circuit \<Rightarrow> nat \<Rightarrow> 'pf res"

text \<open>Completeness of Groth16: a satisfied circuit gives a proof that verifies.\<close>

definition groth_complete where
  "groth_complete C G \<longleftrightarrow>
     (\<forall>c r s. generate_constraints (hash2 C) c = Inr True \<longrightarrow>
        (\<exists>pk vk pf. groth_setup G c r = Inr (pk, vk) \<and> groth_prove G pk c s = Inr pf \<and>
           groth_verify C vk (circuit_inputs c) pf = Some True))"

definition generate_device_evidence_from_config where
  "generate_device_evidence_from_config C G now r s root cfg =
     (let circuit = circuit_new C cfg root (dc_merkle_path cfg) (dc_merkle_tag cfg) in
      and_then (expect ''unwrap on setup'' (groth_setup G circuit r)) (\<lambda>(pkk, vk).
      and_then (expect ''unwrap on prove'' (groth_prove G pkk circuit s)) (\<lambda>proof.
      and_then (case dc_signature cfg of
                  Some sig \<Rightarrow> Inr sig
                | None \<Rightarrow> Inl (Panic ''DeviceConfigInfor requires verifier signature'')) (\<lambda>sig.
      and_then (evidence_reply_new C now proof vk sig (dc_verifying_key cfg) (dc_timestamp cfg)
                  (dc_period cfg) (dc_authorized_infor cfg) (dc_signing_key cfg)) (\<lambda>reply.
      and_then (expect ''serialize EvidenceReply failed'' (to_signing_bytes_all_fields C reply)) (\<lambda>msg.
        Inr (reply, sg_sign C (dc_signing_key cfg) msg)))))))"

section \<open>The circuit\<close>

lemma circuit_loop_fold_path:
  assumes "length p = length t"
  shows "foldl (\<lambda>l i. if t ! i then h l (p ! i) else h (p ! i) l) x [0..<length t] = fold_path h x p t"
  using assms
proof (induction p t arbitrary: x rule: list_induct2)
  case (Cons s p b t)
  have "foldl (\<lambda>l i. if (b # t) ! i then h l ((s # p) ! i) else h ((s # p) ! i) l) x
          [0..<length (b # t)] =
        foldl (\<lambda>l i. if t ! i then h l (p ! i) else h (p ! i) l) (if b then h x s else h s x)
          [0..<length t]"
  proof -
    have "[0..<length (b # t)] = 0 # map Suc [0..<length t]"
      by (simp add: map_Suc_upt upt_conv_Cons del: upt_Suc)
    then show ?thesis by (simp only: foldl.simps foldl_map) (simp cong: if_cong)
  qed
  then show ?case using Cons.IH by simp
qed simp

lemma membership_loop: "foldl (\<lambda>res r. res \<or> x = r) b rs \<longleftrightarrow> b \<or> x \<in> set rs"
  by (induction rs arbitrary: b) auto

lemma circuit_output_eq:
  "generate_verifier_authoried_infor C ar pk time peri = hash2 C (hash2 C (hash2 C pk ar) time) peri"
  by (simp add: generate_verifier_authoried_infor_def Let_def)

lemma circuit_satisfied_eq:
  "generate_constraints h c = Inr True \<longleftrightarrow>
     (\<exists>leaf. leaf = h (h (cc_ar c) (cc_sk c)) (cc_pk c) \<and>
       ((\<exists>p t. cc_path c = Some p \<and> cc_tag c = Some t \<and> length p = length t \<and>
           fold_path h leaf p t \<in> set (cc_root c)) \<or>
        (cc_path c = None \<and> cc_tag c = None \<and> cc_root c \<noteq> [] \<and> leaf = hd (cc_root c)))) \<and>
     cc_output c = h (h (h (cc_pk c) (cc_ar c)) (cc_time c)) (cc_period c)"
proof (cases "(cc_path c, cc_tag c)" rule: prod.exhaust)
  case (Pair pp tt)
  then have *: "cc_path c = pp" "cc_tag c = tt" by simp_all
  show ?thesis
  proof (cases pp)
    case None
    then show ?thesis
      using * by (cases tt) (auto simp: generate_constraints_def Let_def at_def hd_conv_nth)
  next
    case (Some p)
    show ?thesis
    proof (cases tt)
      case None
      then show ?thesis using * Some by (simp add: generate_constraints_def Let_def)
    next
      case (Some t)
      then show ?thesis
        using * \<open>pp = Some p\<close>
        by (cases "length p = length t")
           (simp_all add: generate_constraints_def Let_def circuit_loop_fold_path membership_loop)
    qed
  qed
qed

text \<open>
  The circuit is satisfied exactly when the leaf \<open>H(H(ar, sk), pk)\<close> opens one of the public
  roots along a path and tags of equal length, or is itself the first root when there is no path,
  and the output is \<open>H(H(H(pk, ar), time), period)\<close>.
\<close>
theorem circuit_satisfied_iff:
  "generate_constraints h c = Inr True \<longleftrightarrow>
     (\<exists>leaf. leaf = h (h (cc_ar c) (cc_sk c)) (cc_pk c) \<and>
       ((\<exists>p t. cc_path c = Some p \<and> cc_tag c = Some t \<and> length p = length t \<and>
           fold_path h leaf p t \<in> set (cc_root c)) \<or>
        (cc_path c = None \<and> cc_tag c = None \<and> cc_root c \<noteq> [] \<and> leaf = hd (cc_root c)))) \<and>
     cc_output c = h (h (h (cc_pk c) (cc_ar c)) (cc_time c)) (cc_period c)"
  by (rule circuit_satisfied_eq)

lemma evidence_public_inputs:
  assumes "generate_device_evidence_from_config C G now r s root cfg = Inr (reply, sig)"
  shows "gen_public_inputs C reply root =
    circuit_inputs (circuit_new C cfg root (dc_merkle_path cfg) (dc_merkle_tag cfg))"
  using assms
  by (auto simp: generate_device_evidence_from_config_def evidence_reply_new_def gen_public_inputs_def
      circuit_inputs_def circuit_new_def Let_def and_then_Inr_iff split: option.splits)

text \<open>
  C18. The relying party verifies against the public inputs the attester proved with: key, root
  list, authorization, time and period in the order in which the circuit allocates them.
\<close>
theorem public_inputs_agree:
  assumes "generate_device_evidence_from_config C G now r s root cfg = Inr (reply, sig)"
  shows "gen_public_inputs C reply root =
    circuit_inputs (circuit_new C cfg root (dc_merkle_path cfg) (dc_merkle_tag cfg))"
  using assms by (rule evidence_public_inputs)

definition toy_groth :: "(u64, u64, u64, u64) groth" where
  "toy_groth = \<lparr>groth_setup = (\<lambda>c r. Inr (2, 2)),
     groth_prove = (\<lambda>pk c s. Inr (pk + sum_list (circuit_inputs c)))\<rparr>"

definition toy_config :: "(u64, u64, u64, u64) device_config_infor" where
  "toy_config = \<lparr>dc_signing_key = 4, dc_verifying_key = 4, dc_measured_value = 5,
     dc_timestamp = Duration 5 0, dc_period = Duration 6 0, dc_merkle_leaf = 9,
     dc_merkle_path = Some [3], dc_merkle_tag = Some [True], dc_authorized_infor = 7,
     dc_signature = Some 3\<rparr>"

lemma toy_groth_complete: "groth_complete toy_crypto toy_groth"
  by (simp add: groth_complete_def toy_groth_def toy_crypto_def)

lemma serialize_ark_total:
  "serial_ok C \<Longrightarrow> \<exists>b. serialize_ark (pf_ser C p) = Inr b"
  "serial_ok C \<Longrightarrow> \<exists>b. serialize_ark (gv_ser C v) = Inr b"
  "serial_ok C \<Longrightarrow> \<exists>b. serialize_ark (fr_ser C x) = Inr b"
  using ser_okD [OF serial_okD(4), of C p] ser_okD [OF serial_okD(5), of C v]
    ser_okD [OF serial_okD(1), of C x]
  by (auto simp: serialize_ark_def)

lemma to_signing_bytes_total:
  assumes "serial_ok C"
  shows "\<exists>m. to_signing_bytes_all_fields C v = Inr m"
  using serialize_ark_total(1) [OF assms, of "er_proof v"] serialize_ark_total(2) [OF assms, of "er_vk v"]
    serialize_ark_total(3) [OF assms, of "er_authorized_infor v"]
  by (auto simp: to_signing_bytes_all_fields_def)

lemma evidence_reply_new_total:
  assumes "serial_ok C"
  shows "\<exists>reply. evidence_reply_new C (Some t) proof vk sig pk ts per infor key = Inr reply"
  using serialize_ark_total(1) [OF assms, of "proof"]
  by (auto simp: evidence_reply_new_def current_unix_duration_def sign_proof_timestamp_period_def
      proof_timestamp_period_signing_bytes_def Let_def)

lemma evidence_from_config_total:
  assumes "serial_ok C" "groth_setup G (circuit_new C cfg root (dc_merkle_path cfg) (dc_merkle_tag cfg)) r
      = Inr (pk, vk)"
    and "groth_prove G pk (circuit_new C cfg root (dc_merkle_path cfg) (dc_merkle_tag cfg)) s = Inr pf"
    and "dc_signature cfg = Some vsig"
  obtains reply m where
    "evidence_reply_new C (Some t) pf vk vsig (dc_verifying_key cfg) (dc_timestamp cfg) (dc_period cfg)
       (dc_authorized_infor cfg) (dc_signing_key cfg) = Inr reply"
    "to_signing_bytes_all_fields C reply = Inr m"
    "generate_device_evidence_from_config C G (Some t) r s root cfg =
       Inr (reply, sg_sign C (dc_signing_key cfg) m)"
proof -
  obtain reply where r: "evidence_reply_new C (Some t) pf vk vsig (dc_verifying_key cfg)
      (dc_timestamp cfg) (dc_period cfg) (dc_authorized_infor cfg) (dc_signing_key cfg) = Inr reply"
    using evidence_reply_new_total [OF assms(1)] by metis
  obtain m where "to_signing_bytes_all_fields C reply = Inr m"
    using to_signing_bytes_total [OF assms(1)] by blast
  then show ?thesis
    using that r assms by (simp add: generate_device_evidence_from_config_def Let_def)
qed

theorem public_inputs_agree_witness:
  "\<exists>reply sig. generate_device_evidence_from_config toy_crypto toy_groth (Some (Duration 1 0)) 0 0 [1, 2]
       toy_config = Inr (reply, sig) \<and>
     gen_public_inputs toy_crypto reply [1, 2] = circuit_inputs
       (circuit_new toy_crypto toy_config [1, 2] (Some [3]) (Some [True]))"
proof -
  obtain reply m where g: "generate_device_evidence_from_config toy_crypto toy_groth (Some (Duration 1 0))
      0 0 [1, 2] toy_config = Inr (reply, sg_sign toy_crypto (dc_signing_key toy_config) m)"
    by (rule evidence_from_config_total [OF toy_serial_ok, where G = toy_groth and cfg = toy_config
          and root = "[1, 2]" and r = 0 and s = 0 and t = "Duration 1 0"])
       (auto simp: toy_groth_def toy_config_def)
  from public_inputs_agree [OF g] g show ?thesis by (auto simp: toy_config_def)
qed

section \<open>Signing bytes are unambiguous\<close>

lemma append_field_inject:
  assumes "append_field n a @ r = append_field n b @ s" "bytes_ok a" "bytes_ok b"
  shows "a = b \<and> r = s"
proof -
  have "append_len_bytes a @ r = append_len_bytes b @ s"
    using assms(1) by (simp add: append_field_def append_len_bytes_def)
  then show ?thesis using len_bytes.prefix_free [OF assms(2,3) refl refl] by simp
qed

lemma append_field_eq_iff:
  assumes "bytes_ok a" "bytes_ok b"
  shows "append_field n a @ r = append_field n b @ s \<longleftrightarrow> a = b \<and> r = s"
    and "append_field n a = append_field n b \<longleftrightarrow> a = b"
  using append_field_inject [OF _ assms, of n r s] append_field_inject [OF _ assms, of n "[]" "[]"]
  by auto

lemma serialize_duration_bytes_ok [simp]: "bytes_ok (serialize_duration d)"
  by (simp add: bytes_ok_def serialize_duration_def isize_max_def)

lemma serialize_duration_inject: "serialize_duration a = serialize_duration b \<Longrightarrow> a = b"
proof -
  assume "serialize_duration a = serialize_duration b"
  then have "u64_be (as_secs a) = u64_be (as_secs b)" "u32_be (subsec_nanos a) = u32_be (subsec_nanos b)"
    by (auto simp: serialize_duration_def)
  then have "as_secs a = as_secs b" "subsec_nanos a = subsec_nanos b"
    by (metis u64_of_be_be, metis u32_of_be_be)
  then show ?thesis by (cases a; cases b) simp
qed

lemma ser_inject:
  assumes "ser_ok ser de" "ser x = Some b" "ser y = Some b"
  shows "x = y"
  using ser_okD [OF assms(1), of x] ser_okD [OF assms(1), of y] assms(2,3) by auto

text \<open>
  C19. The bytes the attester signs determine every field of the evidence reply: a signature over
  one reply is not a signature over another one.
\<close>
theorem signing_bytes_inject:
  fixes v w :: "('f, 'vk, 'sg, 'pf, 'gv) evidence_reply"
  assumes C: "serial_ok C" and v: "to_signing_bytes_all_fields C v = Inr m"
    and w: "to_signing_bytes_all_fields C w = Inr m"
  shows "v = w"
proof -
  note ser = serial_okD(1-5) [OF C]
  have ok: "ser x = Some b \<Longrightarrow> ser_ok ser de \<Longrightarrow> bytes_ok b" for ser de b and x :: 'x
    using ser_okD [of ser de x] by auto
  obtain p k f p' k' f' where parts:
    "pf_ser C (er_proof v) = Some p" "gv_ser C (er_vk v) = Some k" "fr_ser C (er_authorized_infor v) = Some f"
    "pf_ser C (er_proof w) = Some p'" "gv_ser C (er_vk w) = Some k'" "fr_ser C (er_authorized_infor w) = Some f'"
    using v w by (auto simp: to_signing_bytes_all_fields_def serialize_ark_def and_then_Inr_iff)
  have oks: "bytes_ok p" "bytes_ok k" "bytes_ok f" "bytes_ok p'" "bytes_ok k'" "bytes_ok f'"
    using ok [OF parts(1) ser(4)] ok [OF parts(2) ser(5)] ok [OF parts(3) ser(1)]
      ok [OF parts(4) ser(4)] ok [OF parts(5) ser(5)] ok [OF parts(6) ser(1)] by simp_all
  from v w have "p = p' \<and> k = k' \<and> sg_der C (er_sig v) = sg_der C (er_sig w) \<and>
      vk_sec1 C (er_pk v) = vk_sec1 C (er_pk w) \<and>
      serialize_duration (er_timestamp v) = serialize_duration (er_timestamp w) \<and>
      serialize_duration (er_period v) = serialize_duration (er_period w) \<and> f = f' \<and>
      serialize_duration (er_timestamp_attester v) = serialize_duration (er_timestamp_attester w) \<and>
      serialize_duration (er_period_attester v) = serialize_duration (er_period_attester w) \<and>
      sg_der C (er_proof_timestamp_period_signature v) = sg_der C (er_proof_timestamp_period_signature w)"
    using append_field_eq_iff oks serial_ok_simps(1,3) [OF C]
    by (auto simp: to_signing_bytes_all_fields_def serialize_ark_def parts)
  then have "er_proof v = er_proof w" "er_vk v = er_vk w" "er_authorized_infor v = er_authorized_infor w"
    "er_sig v = er_sig w" "er_pk v = er_pk w" "er_timestamp v = er_timestamp w"
    "er_period v = er_period w" "er_timestamp_attester v = er_timestamp_attester w"
    "er_period_attester v = er_period_attester w"
    "er_proof_timestamp_period_signature v = er_proof_timestamp_period_signature w"
    using ser_inject [OF ser(4)] ser_inject [OF ser(5)] ser_inject [OF ser(1)] parts
      ser_inject [OF ser(2), of "er_pk v" "vk_sec1 C (er_pk v)" "er_pk w"]
      ser_inject [OF ser(3), of _ "sg_der C (er_sig v)"]
      ser_inject [OF ser(3), of _ "sg_der C (er_proof_timestamp_period_signature v)"]
      serialize_duration_inject
    by metis+
  then show ?thesis by simp
qed

theorem signing_bytes_inject_witness:
  "to_signing_bytes_all_fields toy_crypto toy_evidence \<noteq>
   to_signing_bytes_all_fields toy_crypto (toy_evidence\<lparr>er_period := Duration 7 0\<rparr>)"
proof
  assume eq: "to_signing_bytes_all_fields toy_crypto toy_evidence =
    to_signing_bytes_all_fields toy_crypto (toy_evidence\<lparr>er_period := Duration 7 0\<rparr>)"
  obtain m where m: "to_signing_bytes_all_fields toy_crypto toy_evidence = Inr m"
    using to_signing_bytes_total [OF toy_serial_ok] by blast
  from signing_bytes_inject [OF toy_serial_ok m m [unfolded eq]] show False
    by (simp add: toy_evidence_def)
qed

end
