(* ===== verification/RelyingParty.thy ===== *)
theory RelyingParty
  imports Evidence
begin

text \<open>
  The relying party's side of hydra: the checks of \<^verbatim>\<open>relying-party/src/lib.rs\<close> and the handler of
  \<^verbatim>\<open>relying-party/src/hydra_listener.rs\<close>, which caches the verifier's public context and
  answers evidence messages. What is printed is part of the result where the code only prints.
\<close>

section \<open>Checks\<close>

definition rely_party_verifier_sig where
  "rely_party_verifier_sig C reply verifier_pk =
     (if sg_verify C verifier_pk
           (verifier_sig_message C (er_pk reply) (er_authorized_infor reply)
              (er_timestamp reply) (er_period reply)) (er_sig reply)
      then ''verifier authorization signature verified''
      else ''verifier authorization signature verification failed'')"

text \<open>The printed lines and the returned value; the two signature checks only print.\<close>

definition rely_party_verification where
  "rely_party_verification C root reply signature verifier_pk =
     (let public_inputs = gen_public_inputs C reply root in
      and_then (expect ''serialize EvidenceReply failed'' (to_signing_bytes_all_fields C reply)) (\<lambda>msg.
        let line1 = (if sg_verify C (er_pk reply) msg signature
                     then ''attester EvidenceReply signature verified''
                     else ''attester EvidenceReply signature verification failed'');
            line2 = rely_party_verifier_sig C reply verifier_pk
        in case groth_verify C (er_vk reply) public_inputs (er_proof reply) of
             None \<Rightarrow> Inr ([line1, line2, ''relying-party proof verification failed''], False)
           | Some True \<Rightarrow>
               Inr ([line1, line2, ''relying-party proof verification success'',
                     ''attester evidence verification success''], True)
           | Some False \<Rightarrow>
               Inr ([line1, line2, ''relying-party proof verification failed'',
                     ''attester evidence verification failed''], False)))"

definition verify_evidence_reply_attester_signature where
  "verify_evidence_reply_attester_signature C reply signature =
     and_then (expect ''serialize EvidenceReply failed'' (to_signing_bytes_all_fields C reply)) (\<lambda>msg.
       bail_unless (sg_verify C (er_pk reply) msg signature)
         ''attester EvidenceReply signature verification failed'')"

definition verify_evidence_reply_attester_freshness where
  "verify_evidence_reply_attester_freshness now reply =
     and_then (ok_or ''EvidenceReply timestamp_attester + period_attester overflow''
                 (checked_add (er_timestamp_attester reply) (er_period_attester reply))) (\<lambda>expires_at.
     and_then (current_unix_duration now) (\<lambda>t.
       bail_unless (t < expires_at) ''EvidenceReply expired''))"

definition verify_evidence_reply_proof_timestamp_period_signature where
  "verify_evidence_reply_proof_timestamp_period_signature C reply =
     and_then (with_context ''serialize EvidenceReply proof freshness fields failed''
                 (proof_timestamp_period_signing_bytes C (er_proof reply)
                    (er_timestamp_attester reply) (er_period_attester reply))) (\<lambda>msg.
       bail_unless (sg_verify C (er_pk reply) msg (er_proof_timestamp_period_signature reply))
         ''attester proof/timestamp_attester/period_attester signature verification failed'')"

section \<open>The listener\<close>

text \<open>
  One connection: the cached context afterwards, the acknowledgement frames sent, and how the
  handler ended. \<open>saved\<close> tells whether writing the context file succeeds.
\<close>

definition listener_handle where
  "listener_handle C now saved frame st =
     (case frame of
        Inl e \<Rightarrow> (st, [], Inl e)
      | Inr bytes \<Rightarrow>
          if starts_with MSG_PUBLIC_CONTEXT bytes then
            (case with_context ''decode PublicContext failed''
                    (decode_public_context_message C bytes) of
               Inl e \<Rightarrow> (st, [], Inl e)
             | Inr ctx \<Rightarrow>
                 if saved then (Some ctx, [], Inr ())
                 else (st, [], Inl (Err ''save PublicContext failed'')))
          else if starts_with MSG_EVIDENCE bytes then
            (case with_context ''decode EvidenceReply failed'' (decode_evidence_message C bytes) of
               Inl e \<Rightarrow> (st, [], Inl e)
             | Inr (reply, sig) \<Rightarrow>
                 (case and_then (verify_evidence_reply_attester_freshness now reply) (\<lambda>_.
                       and_then (verify_evidence_reply_proof_timestamp_period_signature C reply) (\<lambda>_.
                         verify_evidence_reply_attester_signature C reply sig)) of
                    Inl e \<Rightarrow> (st, [], Inl e)
                  | Inr _ \<Rightarrow>
                      (case st of
                         None \<Rightarrow> (st, [''verification failed: missing PublicContext''],
                                  Inl (Err ''missing PublicContext''))
                       | Some ctx \<Rightarrow>
                           (case rely_party_verification C (pc_root ctx) reply sig (pc_verifier_pk ctx) of
                              Inl e \<Rightarrow> (st, [], Inl e)
                            | Inr (lines, verified) \<Rightarrow>
                                (st, [if verified then ''verification success''
                                      else ''verification failed''], Inr ())))))
          else (st, [], Inl (Err ''unknown message type'')))"

text \<open>The spawned task answers an error, but not a panic, with an error frame.\<close>

definition listener_connection where
  "listener_connection C now saved frame st =
     (case listener_handle C now saved frame st of
        (st', acks, Inl (Err e)) \<Rightarrow> (st', acks @ [''error: '' @ e])
      | (st', acks, _) \<Rightarrow> (st', acks))"

text \<open>A run of the listener over connections, each with its clock, file outcome and frame.\<close>

definition listener_run where
  "listener_run C st conns =
     foldl (\<lambda>(st, acks) (now, saved, frame).
       case listener_connection C now saved frame st of (st', a) \<Rightarrow> (st', acks @ a)) (st, []) conns"

section \<open>What an acceptance means\<close>

lemma listener_success:
  assumes "listener_handle C now saved frame st = (st', acks, r)" "''verification success'' \<in> set acks"
  obtains bytes reply sig ctx lines where
    "frame = Inr bytes" "starts_with MSG_EVIDENCE bytes"
    "decode_evidence_message C bytes = Inr (reply, sig)" "st = Some ctx" "st' = st"
    "verify_evidence_reply_attester_freshness now reply = Inr ()"
    "verify_evidence_reply_proof_timestamp_period_signature C reply = Inr ()"
    "verify_evidence_reply_attester_signature C reply sig = Inr ()"
    "rely_party_verification C (pc_root ctx) reply sig (pc_verifier_pk ctx) = Inr (lines, True)"
  using assms
  by (auto simp: listener_handle_def and_then_Inr_iff split: sum.splits if_splits option.splits prod.splits)

lemma ack_success_handle:
  assumes "''verification success'' \<in> set (snd (listener_connection C now saved frame st))"
  shows "''verification success'' \<in> set (fst (snd (listener_handle C now saved frame st)))"
  using assms
  by (auto simp: listener_connection_def split: prod.splits sum.splits failure.splits)

lemma verification_True:
  assumes "rely_party_verification C root r s k = Inr (l, True)"
  shows "groth_verify C (er_vk r) (gen_public_inputs C r root) (er_proof r) = Some True"
proof (cases "groth_verify C (er_vk r) (gen_public_inputs C r root) (er_proof r)")
  case None
  then show ?thesis
    using assms by (simp add: rely_party_verification_def Let_def and_then_Inr_iff)
next
  case (Some v)
  then show ?thesis
    using assms by (cases v) (simp_all add: rely_party_verification_def Let_def and_then_Inr_iff)
qed

lemma verdict_key:
  "(case rely_party_verification C root r s k of Inl e \<Rightarrow> g e | Inr (l, v) \<Rightarrow> f v) =
   (case rely_party_verification C root r s k' of Inl e \<Rightarrow> g e | Inr (l, v) \<Rightarrow> f v)"
  by (cases "expect ''serialize EvidenceReply failed'' (to_signing_bytes_all_fields C r)")
     (simp_all add: rely_party_verification_def Let_def split: option.split bool.split)

lemma listener_handle_context:
  assumes "starts_with MSG_PUBLIC_CONTEXT b"
  shows "listener_handle C now saved (Inr b) st =
    (case with_context ''decode PublicContext failed'' (decode_public_context_message C b) of
       Inl e \<Rightarrow> (st, [], Inl e)
     | Inr ctx \<Rightarrow> if saved then (Some ctx, [], Inr ()) else (st, [], Inl (Err ''save PublicContext failed'')))"
  using assms by (simp add: listener_handle_def)

lemma listener_handle_keeps:
  assumes "\<not> starts_with MSG_PUBLIC_CONTEXT b"
  shows "fst (listener_handle C now saved (Inr b) st) = st"
  using assms
  by (simp add: listener_handle_def split: sum.split option.split prod.split)

lemma fst_listener_connection:
  "fst (listener_connection C now saved frame st) = fst (listener_handle C now saved frame st)"
  by (cases "listener_handle C now saved frame st")
     (simp add: listener_connection_def split: sum.split failure.split)

section \<open>Honest evidence is accepted\<close>

lemma proof_bytes_total:
  "serial_ok C \<Longrightarrow> \<exists>m. proof_timestamp_period_signing_bytes C p t d = Inr m"
  using ser_okD [OF serial_okD(4), of C p]
  by (auto simp: proof_timestamp_period_signing_bytes_def serialize_ark_def)

lemma signing_bytes_total:
  assumes "serial_ok C"
  shows "\<exists>m. to_signing_bytes_all_fields C v = Inr m"
  using ser_okD [OF serial_okD(4) [OF assms], of "er_proof v"]
    ser_okD [OF serial_okD(5) [OF assms], of "er_vk v"]
    ser_okD [OF serial_okD(1) [OF assms], of "er_authorized_infor v"]
  by (auto simp: to_signing_bytes_all_fields_def serialize_ark_def)

lemma listener_accepts:
  assumes "decode_evidence_message C b = Inr (reply, sig)" "starts_with MSG_EVIDENCE b"
    and "verify_evidence_reply_attester_freshness now reply = Inr ()"
    and "verify_evidence_reply_proof_timestamp_period_signature C reply = Inr ()"
    and "verify_evidence_reply_attester_signature C reply sig = Inr ()"
    and "rely_party_verification C (pc_root ctx) reply sig (pc_verifier_pk ctx) = Inr (l, True)"
  shows "listener_connection C now saved (Inr b) (Some ctx) = (Some ctx, [''verification success''])"
proof -
  have "\<not> starts_with MSG_PUBLIC_CONTEXT b"
    using assms(2)
    by (simp add: starts_with_def MSG_EVIDENCE_def MSG_PUBLIC_CONTEXT_def bytes_of_def)
  then show ?thesis
    using assms by (simp add: listener_connection_def listener_handle_def)
qed

lemma honest_evidence_accepted:
  assumes C: "serial_ok C" "sign_ok C"
    and reply: "evidence_reply_new C (Some t) proof vk vsig (vk_of_sk C sk) ts per infor sk = Inr reply"
    and msg: "to_signing_bytes_all_fields C reply = Inr m"
    and times: "duration_ok t" "duration_ok t'" "duration_ok ts" "duration_ok per"
      "duration_nanos t + 120 * nanos_per_sec < 2 ^ 64 * nanos_per_sec"
      "duration_nanos t' < duration_nanos t + 120 * nanos_per_sec"
    and groth: "groth_verify C vk (gen_public_inputs C reply (pc_root ctx)) proof = Some True"
  shows "\<exists>b. encode_evidence_message C reply (sg_sign C sk m) = Inr b \<and>
    listener_connection C (Some t') saved (Inr b) (Some ctx) = (Some ctx, [''verification success''])"
proof -
  let ?per = "duration_from_secs EVIDENCE_REPLY_ATTESTER_PERIOD_SECS"
  have per: "duration_nanos ?per = 120 * nanos_per_sec"
    by (simp add: duration_nanos_from_secs EVIDENCE_REPLY_ATTESTER_PERIOD_SECS_def)
  obtain m1 where m1: "proof_timestamp_period_signing_bytes C proof t ?per = Inr m1"
    using proof_bytes_total [OF C(1)] by blast
  have fields: "er_proof reply = proof" "er_vk reply = vk" "er_pk reply = vk_of_sk C sk"
    "er_timestamp_attester reply = t" "er_period_attester reply = ?per" "er_timestamp reply = ts"
    "er_period reply = per" "er_proof_timestamp_period_signature reply = sg_sign C sk m1"
    using reply m1
    by (auto simp: evidence_reply_new_def current_unix_duration_def sign_proof_timestamp_period_def Let_def)
  have sv: "sg_verify C (vk_of_sk C sk) x (sg_sign C sk x)" for x using C(2) by (simp add: sign_ok_def)
  obtain e where e: "checked_add t ?per = Some e"
    using checked_add_defined [of t ?per] times per by auto
  have "t' < e" using open_window [OF times(1) _ times(2) e] times(6) per by simp
  then have fresh: "verify_evidence_reply_attester_freshness (Some t') reply = Inr ()"
    by (simp add: verify_evidence_reply_attester_freshness_def fields e current_unix_duration_def)
  have psig: "verify_evidence_reply_proof_timestamp_period_signature C reply = Inr ()"
    by (simp add: verify_evidence_reply_proof_timestamp_period_signature_def fields m1 sv)
  have asig: "verify_evidence_reply_attester_signature C reply (sg_sign C sk m) = Inr ()"
    by (simp add: verify_evidence_reply_attester_signature_def msg fields sv)
  obtain l where ver: "rely_party_verification C (pc_root ctx) reply (sg_sign C sk m) (pc_verifier_pk ctx)
      = Inr (l, True)"
    using msg groth by (simp add: rely_party_verification_def Let_def fields)
  have "er_ok reply" using times by (simp add: er_ok_def fields)
  then obtain b where b: "encode_evidence_message C reply (sg_sign C sk m) = Inr b"
    "decode_evidence_message C b = Inr (reply, sg_sign C sk m)" "starts_with MSG_EVIDENCE b"
    using message.typed_round_trip [OF evidence_message [OF C(1)], of "(reply, sg_sign C sk m)" MSG_EVIDENCE
        "''not an Evidence message''"]
    by (auto simp: encode_evidence_message_def decode_evidence_message_def decode_typed_def split: if_splits)
  from listener_accepts [OF b(2,3) fresh psig asig ver] b(1) show ?thesis by blast
qed

text \<open>
  C14. When the relying party acknowledges success, it held a public context, and the evidence
  decoded from the frame was fresh, carried a valid freshness signature and a valid signature
  over all its fields under the attester's key, and its proof verified against the public
  inputs made of that key, the cached root list and the claimed time window.
\<close>
theorem success_requires_checks:
  assumes "''verification success'' \<in> set (snd (listener_connection C now saved frame st))"
  shows "\<exists>b reply sig ctx t e m1 m2. frame = Inr b \<and> decode_evidence_message C b = Inr (reply, sig) \<and>
    st = Some ctx \<and> now = Some t \<and>
    checked_add (er_timestamp_attester reply) (er_period_attester reply) = Some e \<and> t < e \<and>
    proof_timestamp_period_signing_bytes C (er_proof reply) (er_timestamp_attester reply)
      (er_period_attester reply) = Inr m1 \<and>
    sg_verify C (er_pk reply) m1 (er_proof_timestamp_period_signature reply) \<and>
    to_signing_bytes_all_fields C reply = Inr m2 \<and> sg_verify C (er_pk reply) m2 sig \<and>
    groth_verify C (er_vk reply)
      ([fr_of_bytes C (vk_sec1 C (er_pk reply))] @ pc_root ctx @
       [er_authorized_infor reply, fr_of_secs C (er_timestamp reply), fr_of_secs C (er_period reply)])
      (er_proof reply) = Some True"
proof -
  obtain st' acks r where h: "listener_handle C now saved frame st = (st', acks, r)"
    by (metis prod_cases3)
  then have "''verification success'' \<in> set acks" using ack_success_handle [OF assms] by simp
  from listener_success [OF h this] obtain b reply sig ctx lines where *:
    "frame = Inr b" "decode_evidence_message C b = Inr (reply, sig)" "st = Some ctx"
    "verify_evidence_reply_attester_freshness now reply = Inr ()"
    "verify_evidence_reply_proof_timestamp_period_signature C reply = Inr ()"
    "verify_evidence_reply_attester_signature C reply sig = Inr ()"
    "rely_party_verification C (pc_root ctx) reply sig (pc_verifier_pk ctx) = Inr (lines, True)"
    by metis
  from *(4) obtain t e where fresh: "now = Some t"
    "checked_add (er_timestamp_attester reply) (er_period_attester reply) = Some e" "t < e"
    by (auto simp: verify_evidence_reply_attester_freshness_def current_unix_duration_def res_simps)
  from *(5) obtain m1 where psig: "proof_timestamp_period_signing_bytes C (er_proof reply)
      (er_timestamp_attester reply) (er_period_attester reply) = Inr m1"
    "sg_verify C (er_pk reply) m1 (er_proof_timestamp_period_signature reply)"
    by (auto simp: verify_evidence_reply_proof_timestamp_period_signature_def res_simps)
  from *(6) obtain m2 where asig: "to_signing_bytes_all_fields C reply = Inr m2"
    "sg_verify C (er_pk reply) m2 sig"
    by (auto simp: verify_evidence_reply_attester_signature_def res_simps)
  from *(7) have groth: "groth_verify C (er_vk reply) (gen_public_inputs C reply (pc_root ctx))
      (er_proof reply) = Some True"
    by (rule verification_True)
  show ?thesis
    by (rule exI [of _ b], rule exI [of _ reply], rule exI [of _ sig], rule exI [of _ ctx],
        rule exI [of _ t], rule exI [of _ e], rule exI [of _ m1], rule exI [of _ m2])
       (simp only: *(1-3) fresh psig asig groth [unfolded gen_public_inputs_def] simp_thms)
qed

lemma toy_evidence_accepted:
  "\<exists>b. listener_connection toy_crypto (Some (Duration 101 0)) True (Inr b) (Some toy_context) =
     (Some toy_context, [''verification success''])"
proof -
  let ?C = toy_crypto
  let ?proof = "2 + sum_list ([fr_of_bytes ?C (vk_sec1 ?C (vk_of_sk ?C 4))] @ pc_root toy_context @
      [7, fr_of_secs ?C (Duration 5 0), fr_of_secs ?C (Duration 6 0)])"
  obtain m1 where "proof_timestamp_period_signing_bytes ?C ?proof (Duration 100 0)
      (duration_from_secs EVIDENCE_REPLY_ATTESTER_PERIOD_SECS) = Inr m1"
    using proof_bytes_total [OF toy_serial_ok] by blast
  then obtain reply :: "(u64, u64, u64, u64, u64) evidence_reply" where reply: "evidence_reply_new ?C (Some (Duration 100 0)) ?proof 2 3
      (vk_of_sk ?C 4) (Duration 5 0) (Duration 6 0) 7 4 = Inr reply"
    by (simp add: evidence_reply_new_def current_unix_duration_def sign_proof_timestamp_period_def Let_def)
  obtain m where m: "to_signing_bytes_all_fields ?C reply = Inr m"
    using signing_bytes_total [OF toy_serial_ok] by blast
  have fields: "er_pk reply = vk_of_sk ?C 4" "er_authorized_infor reply = 7"
    "er_timestamp reply = Duration 5 0" "er_period reply = Duration 6 0"
    using reply by (auto simp: evidence_reply_new_def current_unix_duration_def Let_def and_then_Inr_iff)
  have "groth_verify ?C 2 (gen_public_inputs ?C reply (pc_root toy_context)) ?proof = Some True"
    unfolding gen_public_inputs_def fields by (simp only: toy_crypto_def crypto.simps simp_thms)
  from honest_evidence_accepted [OF toy_serial_ok toy_sign_ok reply m, where t' = "Duration 101 0"
      and ctx = toy_context and saved = True, OF _ _ _ _ _ _ this]
  show ?thesis by (auto simp: duration_ok_def duration_nanos_def nanos_per_sec_def)
qed

theorem success_requires_checks_witness:
  "\<exists>b reply sig. ''verification success'' \<in>
       set (snd (listener_connection toy_crypto (Some (Duration 101 0)) True (Inr b) (Some toy_context))) \<and>
     decode_evidence_message toy_crypto b = Inr (reply, sig) \<and>
     groth_verify toy_crypto (er_vk reply)
       ([fr_of_bytes toy_crypto (vk_sec1 toy_crypto (er_pk reply))] @ [1, 2] @
        [er_authorized_infor reply, fr_of_secs toy_crypto (er_timestamp reply),
         fr_of_secs toy_crypto (er_period reply)]) (er_proof reply) = Some True"
proof -
  obtain b where b: "listener_connection toy_crypto (Some (Duration 101 0)) True (Inr b) (Some toy_context) =
      (Some toy_context, [''verification success''])"
    using toy_evidence_accepted by blast
  then have "''verification success'' \<in>
      set (snd (listener_connection toy_crypto (Some (Duration 101 0)) True (Inr b) (Some toy_context)))"
    by simp
  from success_requires_checks [OF this] this show ?thesis by (auto simp: toy_context_def)
qed

definition verdict where
  "verdict C now b root k =
     (if starts_with MSG_EVIDENCE b then
        (case with_context ''decode EvidenceReply failed'' (decode_evidence_message C b) of
           Inl e \<Rightarrow> ([], Inl e)
         | Inr (reply, sig) \<Rightarrow>
             (case and_then (verify_evidence_reply_attester_freshness now reply) (\<lambda>_.
                   and_then (verify_evidence_reply_proof_timestamp_period_signature C reply) (\<lambda>_.
                     verify_evidence_reply_attester_signature C reply sig)) of
                Inl e \<Rightarrow> ([], Inl e)
              | Inr _ \<Rightarrow>
                  (case rely_party_verification C root reply sig k of
                     Inl e \<Rightarrow> ([], Inl e)
                   | Inr (lines, v) \<Rightarrow>
                       ([if v then ''verification success'' else ''verification failed''], Inr ()))))
      else ([], Inl (Err ''unknown message type'')))"

lemma verdict_of:
  assumes "\<not> starts_with MSG_PUBLIC_CONTEXT b"
  shows "snd (listener_handle C now saved (Inr b) (Some ctx)) =
    verdict C now b (pc_root ctx) (pc_verifier_pk ctx)"
  using assms by (simp add: listener_handle_def verdict_def split: sum.split prod.split)

lemma verdict_of_key: "verdict C now b root k = verdict C now b root k'"
proof (cases "with_context ''decode EvidenceReply failed'' (decode_evidence_message C b)")
  case (Inl e)
  then show ?thesis by (simp add: verdict_def)
next
  case (Inr p)
  obtain reply sig where p: "p = (reply, sig)" by (cases p)
  show ?thesis
    unfolding verdict_def Inr p sum.case prod.case
    by (simp only: verdict_key [where C = C and root = root and r = reply and s = sig and k = k and k' = k'
          and g = "\<lambda>e. ([], Inl e)"
          and f = "\<lambda>v. ([if v then ''verification success'' else ''verification failed''], Inr ())"])
qed

text \<open>
  C24. The verdict and every acknowledgement are the same for every verifier key in the cached
  context: the verifier's authorization signature is printed about, never enforced.
\<close>
theorem verdict_ignores_verifier_key:
  "snd (listener_handle C now saved frame (Some (ctx\<lparr>pc_verifier_pk := k\<rparr>))) =
   snd (listener_handle C now saved frame (Some ctx))"
proof (cases frame)
  case (Inl e)
  then show ?thesis by (simp add: listener_handle_def)
next
  case (Inr b)
  show ?thesis
  proof (cases "starts_with MSG_PUBLIC_CONTEXT b")
    case True
    then show ?thesis by (simp add: Inr listener_handle_context split: sum.split)
  next
    case False
    then show ?thesis
      by (simp add: Inr verdict_of [of b] verdict_of_key [of C now b "pc_root ctx" k "pc_verifier_pk ctx"])
  qed
qed

definition saved_context where
  "saved_context C = (\<lambda>(now :: duration option, saved, frame).
     case frame of
       Inl e \<Rightarrow> None
     | Inr b \<Rightarrow>
         if saved \<and> starts_with MSG_PUBLIC_CONTEXT b then
           (case decode_public_context_message C b of Inl e \<Rightarrow> None | Inr ctx \<Rightarrow> Some ctx)
         else None)"

lemma connection_state:
  "fst (listener_connection C now saved frame st) =
     (case saved_context C (now, saved, frame) of None \<Rightarrow> st | Some ctx \<Rightarrow> Some ctx)"
proof (cases frame)
  case (Inl e)
  then show ?thesis by (simp add: fst_listener_connection listener_handle_def saved_context_def)
next
  case (Inr b)
  show ?thesis
  proof (cases "starts_with MSG_PUBLIC_CONTEXT b")
    case True
    show ?thesis
    proof (cases "decode_public_context_message C b")
      case (Inl e)
      then show ?thesis using True \<open>frame = Inr b\<close>
        by (cases e) (simp_all add: fst_listener_connection listener_handle_context saved_context_def)
    next
      case (Inr ctx)
      then show ?thesis using True \<open>frame = Inr b\<close>
        by (simp add: fst_listener_connection listener_handle_context saved_context_def)
    qed
  next
    case False
    then show ?thesis
      by (simp add: Inr fst_listener_connection listener_handle_keeps saved_context_def)
  qed
qed

text \<open>
  After any run of connections the relying party trusts the last public context that
  decoded and was saved, and keeps the one it had otherwise; evidence never changes it.
\<close>
theorem cached_context_is_last_saved:
  "fst (listener_run C st conns) =
     (case rev (List.map_filter (saved_context C) conns) of [] \<Rightarrow> st | ctx # _ \<Rightarrow> Some ctx)"
proof (induction conns rule: rev_induct)
  case Nil
  then show ?case by (simp add: listener_run_def map_filter_simps)
next
  case (snoc conn conns)
  obtain now saved frame where conn: "conn = (now, saved, frame)" by (cases conn)
  have "fst (listener_run C st (conns @ [conn])) =
      fst (listener_connection C now saved frame (fst (listener_run C st conns)))"
    by (simp add: listener_run_def conn split: prod.split)
  then show ?case
    using snoc by (simp add: connection_state conn map_filter_def split: option.split)
qed

end
