(* ===== verification/HydraDaemon.thy ===== *)
theory HydraDaemon
  imports Evidence Accumulator
begin

text \<open>
  The verifier's hydra daemon (\<^verbatim>\<open>verifier/src/hydra_daemon.rs\<close>): submissions are queued, the first
  one of a window starts a timer, and when it fires the batch is inserted into the tree and
  answered.

  \<^item> What the code does under the state lock is a function on \<open>verifier_state\<close>; \<open>process_batch\<close>
    composes these critical sections with the sends between them.
  \<^item> the theory \<open>DaemonSteps\<close> lets any number of tasks interleave at the points where the code releases
    the lock.
  \<^item> A socket is a number. \<open>outcome\<close> lists the sends and file writes attempted, in order; the
    code only prints when one of them fails.
\<close>

record ('f, 'vk, 'sg) attester_session =
  as_socket :: nat
  as_dev_infor :: "('f, 'vk) device_client_infor"
  as_merkle_leaf :: 'f
  as_response :: "('f, 'vk, 'sg) response_device_infor option"
  as_attester_addr :: string

record ('f, 'vk, 'sg) verifier_state =
  vs_root :: "'f list"
  vs_old_leaves :: "'f list"
  vs_pending :: "('f, 'vk, 'sg) attester_session list"
  vs_active :: "('f, 'vk, 'sg) attester_session list"
  vs_has_created_tree :: bool
  vs_batch_timer_running :: bool

definition verifier_state_new :: "('f, 'vk, 'sg) verifier_state" where
  "verifier_state_new = \<lparr>vs_root = [], vs_old_leaves = [], vs_pending = [], vs_active = [],
     vs_has_created_tree = False, vs_batch_timer_running = False\<rparr>"

datatype outcome =
    ToAttester nat "byte list"
  | ToRelyingParty string "byte list"
  | Persist string "byte list res"

section \<open>Submissions\<close>

text \<open>The new state, and whether the caller must start the batch timer.\<close>

definition queue_attester ::
  "nat \<Rightarrow> ('f, 'vk) device_client_infor \<Rightarrow> string \<Rightarrow> ('f, 'vk, 'sg) verifier_state
   \<Rightarrow> ('f, 'vk, 'sg) verifier_state \<times> bool" where
  "queue_attester socket dev addr st =
     (let item = \<lparr>as_socket = socket, as_dev_infor = dev, as_merkle_leaf = dci_merkle_leaf dev,
                  as_response = None, as_attester_addr = addr\<rparr>;
          st' = st\<lparr>vs_pending := vs_pending st @ [item]\<rparr>
      in if vs_batch_timer_running st then (st', False)
         else (st'\<lparr>vs_batch_timer_running := True\<rparr>, True))"

definition handle_request where
  "handle_request C now frame socket addr st =
     and_then frame (\<lambda>bytes.
       if starts_with MSG_DEVICE_INFOR bytes then
         and_then (with_context ''decode signed attester DeviceClientInfor failed''
                     (decode_signed_device_client_infor_message bytes)) (\<lambda>sdev.
         and_then (with_context ''verify attester DeviceClientInfor signature failed''
                     (verify_signed_device_client_infor_wire C sdev)) (\<lambda>dev.
         and_then (with_context ''verify DeviceClientInfor freshness failed''
                     (verify_device_client_infor_freshness now dev)) (\<lambda>_.
           Inr (queue_attester socket dev addr st))))
       else Inl (Err ''unknown hydra message type''))"

section \<open>Inserting a batch\<close>

type_synonym ('f, 'vk, 'sg) snapshot = "nat \<times> ('f, 'vk, 'sg) attester_session"

record ('f, 'vk, 'sg) batch =
  b_affected :: "('f, 'vk, 'sg) snapshot list"
  b_unaffected :: "('f, 'vk, 'sg) snapshot list"
  b_new :: "('f, 'vk, 'sg) snapshot list"
  b_root :: "'f list"
  b_leaves :: "'f list"
  b_ctx :: "('f, 'vk) public_context"

text \<open>\<open>filter_map(|index| active.get(index).cloned().map(|item| (index, item)))\<close>.\<close>

definition snapshots_at :: "'a list \<Rightarrow> nat list \<Rightarrow> (nat \<times> 'a) list" where
  "snapshots_at xs is = List.map_filter (\<lambda>i. map_option (Pair i) (get xs i)) is"

text \<open>The first critical section of \<open>process_batch\<close>. \<open>None\<close> is the early return.\<close>

definition insert_pending where
  "insert_pending C verifier_key st =
     (if vs_pending st = [] then Inr (st\<lparr>vs_batch_timer_running := False\<rparr>, None)
      else
        let old_total = length (vs_active st);
            pending = vs_pending st;
            inserted = length pending;
            batch_leaves = map as_merkle_leaf pending
        in and_then
             (if vs_has_created_tree st then
                and_then (insert_batch_devices (hash2 C) (vs_root st) (vs_old_leaves st) batch_leaves)
                  (\<lambda>(root, rest). Inr (root, vs_old_leaves st @ batch_leaves))
              else
                let leaves = vs_old_leaves st @ batch_leaves
                in Inr (create_batch_devices (hash2 C) [] leaves, leaves))
             (\<lambda>(root, leaves).
               let active = vs_active st @ pending in
               and_then
                 (if old_total = 0 then Inr []
                  else and_then (affected_indices old_total inserted) (\<lambda>js. Inr (map (\<lambda>j. j - 1) js)))
                 (\<lambda>affected_old.
                   let needs_path_refresh =
                         foldl (\<lambda>v i. if i < length v then v[i := True] else v)
                           (replicate old_total False) affected_old;
                       st' = st\<lparr>vs_root := root, vs_old_leaves := leaves, vs_pending := [],
                                vs_active := active, vs_has_created_tree := True,
                                vs_batch_timer_running := False\<rparr>
                   in Inr (st', Some
                        \<lparr>b_affected = snapshots_at active affected_old,
                         b_unaffected = filter (\<lambda>(i, _). \<not> needs_path_refresh ! i)
                                          (enumerate 0 (take old_total active)),
                         b_new = snapshots_at active [old_total..<old_total + inserted],
                         b_root = root, b_leaves = leaves,
                         b_ctx = \<lparr>pc_root = root, pc_verifier_pk = verifying_key verifier_key\<rparr>\<rparr>))))"

section \<open>Responses\<close>

record ('f, 'vk, 'sg) computed_response =
  cr_index :: nat
  cr_socket :: nat
  cr_attester_addr :: string
  cr_response :: "('f, 'vk, 'sg) response_device_infor"
  cr_encrypted :: "byte list"

text \<open>The clock reading, ephemeral secret and nonce drawn while building one response.\<close>

type_synonym 'sk draw = "duration option \<times> 'sk \<times> byte list"

definition build_encrypted_attester_response where
  "build_encrypted_attester_response C verifier_key root leaves ctx dr index item =
     (case dr of (now, eph, nonce) \<Rightarrow>
        and_then (case as_response item of
                    Some r \<Rightarrow> Inr r
                  | None \<Rightarrow> response_device_infor_new now (dci_verifying_key (as_dev_infor item))) (\<lambda>base.
        and_then (find_device_shrubs_path_tag (hash2 C) root leaves (as_merkle_leaf item)) (\<lambda>(path, tag).
          let dev_res = base\<lparr>rdi_attester_addr := as_attester_addr item,
                             rdi_shrubs_path := path, rdi_shrubs_tag := tag\<rparr>;
              infor = generate_device_authoried_infor C (as_dev_infor item) dev_res;
              sig = verifier_compute_sig C verifier_key dev_res infor;
              dev_res' = dev_res\<lparr>rdi_sig := Some sig\<rparr>
          in and_then (encode_encrypted_verifier_response C eph nonce dev_res' ctx
                         (dci_verifying_key (as_dev_infor item))) (\<lambda>encrypted.
               Inr \<lparr>cr_index = index, cr_socket = as_socket item,
                    cr_attester_addr = as_attester_addr item, cr_response = dev_res',
                    cr_encrypted = encrypted\<rparr>))))"

definition alphanumeric :: "char \<Rightarrow> bool" where
  "alphanumeric c \<longleftrightarrow>
     (CHR ''0'' \<le> c \<and> c \<le> CHR ''9'') \<or> (CHR ''A'' \<le> c \<and> c \<le> CHR ''Z'') \<or> (CHR ''a'' \<le> c \<and> c \<le> CHR ''z'')"

text \<open>The file below \<open>verifier-responses\<close> that holds a response.\<close>

definition response_file :: "string \<Rightarrow> string" where
  "response_file addr = map (\<lambda>c. if alphanumeric c then c else CHR ''_'') addr @ ''.bin''"

definition persist_response where
  "persist_response C r = Persist (response_file (rdi_attester_addr r)) (encode_response_device_infor C r)"

text \<open>What the second lock does with the results of the parallel computation.\<close>

fun store_responses where
  "store_responses C st [] = (st, [], [])"
| "store_responses C st (Inl e # rs) = store_responses C st rs"
| "store_responses C st (Inr c # rs) =
     (let active = vs_active st;
          active' = (if cr_index c < length active
                     then active[cr_index c := (active ! cr_index c)\<lparr>as_response := Some (cr_response c)\<rparr>]
                     else active)
      in case store_responses C (st\<lparr>vs_active := active'\<rparr>) rs of (st', writes, sends) \<Rightarrow>
           (st', persist_response C (cr_response c) # writes,
            ToAttester (cr_socket c) (tcp_send_frame (cr_encrypted c)) # sends))"

fun find_panic :: "'a res list \<Rightarrow> string option" where
  "find_panic [] = None"
| "find_panic (Inl (Panic p) # rs) = Some p"
| "find_panic (_ # rs) = find_panic rs"

text \<open>A panic in the parallel computation is one of the task.\<close>

definition compute_store_and_send_responses where
  "compute_store_and_send_responses C verifier_key b draws snaps st =
     (if snaps = [] then Inr (st, [])
      else
        let computed = map (\<lambda>(index, item).
              build_encrypted_attester_response C verifier_key (b_root b) (b_leaves b) (b_ctx b)
                (draws index) index item) snaps
        in case find_panic computed of
             Some p \<Rightarrow> Inl (Panic p)
           | None \<Rightarrow>
               (case store_responses C st computed of (st', writes, sends) \<Rightarrow>
                  Inr (st', writes @ sends)))"

definition send_context_only_refreshes where
  "send_context_only_refreshes C snaps ctx =
     (if snaps = [] then []
      else case encode_public_context_message C ctx of
             Inl e \<Rightarrow> []
           | Inr m \<Rightarrow> map (\<lambda>(index, item). ToAttester (as_socket item) (tcp_send_frame m)) snaps)"

definition publish_public_context_to_all where
  "publish_public_context_to_all C addrs ctx =
     concat (map (\<lambda>addr. case encode_public_context_message C ctx of
               Inl e \<Rightarrow> []
             | Inr m \<Rightarrow> [ToRelyingParty addr (tcp_send_frame m)]) addrs)"

text \<open>One timer: the critical sections and sends in the order of the code.\<close>

definition process_batch where
  "process_batch C verifier_key addrs draws st =
     and_then (insert_pending C verifier_key st) (\<lambda>(st1, ob).
       case ob of
         None \<Rightarrow> Inr (st1, [])
       | Some b \<Rightarrow>
           and_then (compute_store_and_send_responses C verifier_key b draws (b_affected b) st1) (\<lambda>(st2, o1).
             let o2 = send_context_only_refreshes C (b_unaffected b) (b_ctx b);
                 o3 = publish_public_context_to_all C addrs (b_ctx b)
             in and_then (compute_store_and_send_responses C verifier_key b draws (b_new b) st2)
                  (\<lambda>(st3, o4). Inr (st3, o1 @ o2 @ o3 @ o4))))"

end
