(* ===== verification/DaemonFacts.thy ===== *)
theory DaemonFacts
  imports HydraDaemon
begin

text \<open>
  The invariant of the hydra daemon, its preservation by every critical section, and what holds of
  the messages it sends, first for one batch and then for every interleaving of tasks.
\<close>

section \<open>The invariant\<close>

text \<open>What never changes in a session once it is queued.\<close>

definition session_key where
  "session_key s = (as_socket s, as_dev_infor s, as_merkle_leaf s, as_attester_addr s)"

definition vs_ok where
  "vs_ok h st \<longleftrightarrow>
     vs_old_leaves st = map as_merkle_leaf (vs_active st) \<and>
     vs_root st = shrubs_roots h (vs_old_leaves st) \<and>
     (vs_has_created_tree st \<longleftrightarrow> vs_active st \<noteq> []) \<and>
     (\<forall>s \<in> set (vs_active st @ vs_pending st). as_merkle_leaf s = dci_merkle_leaf (as_dev_infor s)) \<and>
     (\<forall>s \<in> set (vs_active st @ vs_pending st). \<forall>r. as_response s = Some r \<longrightarrow>
        rdi_verifying_key r = dci_verifying_key (as_dev_infor s)) \<and>
     (vs_pending st \<noteq> [] \<longrightarrow> vs_batch_timer_running st) \<and>
     length (vs_active st) + length (vs_pending st) \<le> isize_max"

lemma vs_ok_new: "vs_ok h verifier_state_new"
  by (simp add: vs_ok_def verifier_state_new_def)

lemma vs_ok_queue:
  assumes "vs_ok h st" "queue_attester socket dev addr st = (st', spawn)"
    and "length (vs_active st) + length (vs_pending st) < isize_max"
  shows "vs_ok h st' \<and> (spawn \<longleftrightarrow> \<not> vs_batch_timer_running st) \<and> vs_batch_timer_running st' \<and>
    vs_active st' = vs_active st \<and> vs_old_leaves st' = vs_old_leaves st \<and> vs_root st' = vs_root st"
  using assms by (auto simp: vs_ok_def queue_attester_def Let_def split: if_splits)

section \<open>Inserting the pending batch\<close>

lemma map_filter_snapshots:
  assumes "\<forall>i\<in>set is. i < length xs"
  shows "snapshots_at xs is = map (\<lambda>i. (i, xs ! i)) is"
  using assms by (induction "is") (auto simp: snapshots_at_def map_filter_simps)

lemma refresh_flags:
  assumes "j < length v"
  shows "foldl (\<lambda>v i. if i < length v then v[i := True] else v) v is ! j \<longleftrightarrow> v ! j \<or> j \<in> set is"
  using assms by (induction "is" arbitrary: v) (auto simp: nth_list_update)

lemma filter_enumerate:
  "filter (\<lambda>(i, _). P i) (enumerate 0 xs) = map (\<lambda>i. (i, xs ! i)) (filter P [0..<length xs])"
proof -
  have "enumerate 0 xs = map (\<lambda>i. (i, xs ! i)) [0..<length xs]"
    by (rule nth_equalityI) (simp_all add: nth_enumerate_eq)
  then show ?thesis by (simp add: filter_map comp_def)
qed

text \<open>The 0-based old attesters whose path is recomputed.\<close>

definition moved_old :: "nat \<Rightarrow> nat \<Rightarrow> nat list" where
  "moved_old n m = filter (\<lambda>i. find_owner_root (i + 1) n \<noteq> find_owner_root (i + 1) (n + m)) [0..<n]"

lemma affected_indices_moved:
  assumes "0 < n"
  shows "affected_indices n m = Inr (map Suc (moved_old n m))"
proof -
  have "[1..<n + 1] = map Suc [0..<n]" by (simp add: map_Suc_upt)
  then show ?thesis
    using affected_indices_eq [OF assms, of m]
    by (simp only: moved_old_def filter_map comp_def) simp
qed

lemma moved_old_less: "i \<in> set (moved_old n m) \<Longrightarrow> i < n"
  by (simp add: moved_old_def)

lemma insert_pending_runs:
  fixes C :: "('f, 'vk, 'sk, 'sg, 'pf, 'gv) crypto" and st :: "('f, 'vk, 'tg) verifier_state"
  assumes ok: "vs_ok (hash2 C) st" and ne: "vs_pending st \<noteq> []"
  defines "active \<equiv> vs_active st @ vs_pending st" and "n \<equiv> length (vs_active st)"
    and "m \<equiv> length (vs_pending st)"
  defines "leaves \<equiv> map as_merkle_leaf active"
  defines "root \<equiv> shrubs_roots (hash2 C) leaves"
  shows "insert_pending C vkey st =
    Inr (st\<lparr>vs_root := root, vs_old_leaves := leaves, vs_pending := [], vs_active := active,
            vs_has_created_tree := True, vs_batch_timer_running := False\<rparr>,
         Some \<lparr>b_affected = map (\<lambda>i. (i, active ! i)) (moved_old n m),
               b_unaffected = map (\<lambda>i. (i, active ! i)) (filter (\<lambda>i. i \<notin> set (moved_old n m)) [0..<n]),
               b_new = map (\<lambda>i. (i, active ! i)) [n..<n + m],
               b_root = root, b_leaves = leaves,
               b_ctx = \<lparr>pc_root = root, pc_verifier_pk = verifying_key vkey\<rparr>\<rparr>)"
proof -
  let ?new = "map as_merkle_leaf (vs_pending st)"
  have len: "length (vs_old_leaves st) < 2 ^ 64"
    using ok isize_max_less [of "length (vs_old_leaves st)"] by (simp add: vs_ok_def)
  have lv: "vs_old_leaves st @ ?new = leaves" using ok by (simp add: vs_ok_def leaves_def active_def)
  have tree: "(if vs_has_created_tree st then
        and_then (insert_batch_devices (hash2 C) (vs_root st) (vs_old_leaves st) ?new)
          (\<lambda>(root, rest). Inr (root, vs_old_leaves st @ ?new))
      else let leaves = vs_old_leaves st @ ?new in Inr (create_batch_devices (hash2 C) [] leaves, leaves))
      = Inr (root, leaves)"
  proof (cases "vs_has_created_tree st")
    case True
    then have "vs_old_leaves st \<noteq> []" using ok by (simp add: vs_ok_def)
    then have "insert_batch_devices (hash2 C) (vs_root st) (vs_old_leaves st) ?new =
        Inr (root, if odd (length (vs_old_leaves st)) then [] else ?new)"
      using insert_batch_devices_correct [OF _ _ len, of ?new "hash2 C"] ne ok lv
      by (simp add: vs_ok_def root_def)
    then show ?thesis using True lv by simp
  next
    case False
    then show ?thesis by (simp add: Let_def lv root_def shrubs_roots_def)
  qed
  have aff: "(if n = 0 then Inr [] else and_then (affected_indices n m) (\<lambda>js. Inr (map (\<lambda>j. j - 1) js)))
      = (Inr (moved_old n m) :: nat list res)"
    by (simp add: affected_indices_moved comp_def moved_old_def)
  have lens: "length active = n + m" by (simp add: active_def n_def m_def)
  have aff_snaps: "snapshots_at active (moved_old n m) = map (\<lambda>i. (i, active ! i)) (moved_old n m)"
    using moved_old_less lens by (intro map_filter_snapshots) force
  have new_snaps: "snapshots_at active [n..<n + m] = map (\<lambda>i. (i, active ! i)) [n..<n + m]"
    using lens by (intro map_filter_snapshots) auto
  have un_snaps: "filter (\<lambda>(i, _). \<not> foldl (\<lambda>v i. if i < length v then v[i := True] else v)
        (replicate n False) (moved_old n m) ! i) (enumerate 0 (take n active)) =
      map (\<lambda>i. (i, active ! i)) (filter (\<lambda>i. i \<notin> set (moved_old n m)) [0..<n])"
    unfolding filter_enumerate using lens by (auto simp: refresh_flags intro!: map_cong filter_cong)
  show ?thesis
    using ne unfolding insert_pending_def Let_def tree [unfolded Let_def] and_then_simps prod.case
    unfolding active_def [symmetric] n_def [symmetric] m_def [symmetric] aff and_then_simps
      aff_snaps new_snaps un_snaps by simp
qed

lemma vs_ok_insert:
  fixes C :: "('f, 'vk, 'sk, 'sg, 'pf, 'gv) crypto" and st :: "('f, 'vk, 'tg) verifier_state"
  assumes ok: "vs_ok (hash2 C) st" and run: "insert_pending C vkey st = Inr (st', ob)"
  shows "vs_ok (hash2 C) st' \<and> \<not> vs_batch_timer_running st' \<and> vs_pending st' = [] \<and>
    vs_active st' = vs_active st @ vs_pending st"
proof (cases "vs_pending st = []")
  case True
  then show ?thesis using ok run by (auto simp: insert_pending_def vs_ok_def)
next
  case False
  from run [unfolded insert_pending_runs [OF ok False]] have
    "st' = st\<lparr>vs_root := shrubs_roots (hash2 C) (map as_merkle_leaf (vs_active st @ vs_pending st)),
      vs_old_leaves := map as_merkle_leaf (vs_active st @ vs_pending st), vs_pending := [],
      vs_active := vs_active st @ vs_pending st, vs_has_created_tree := True,
      vs_batch_timer_running := False\<rparr>" by simp
  then show ?thesis using ok False by (auto simp: vs_ok_def)
qed

section \<open>Computations that return errors but never panic\<close>

definition no_panic :: "'a res \<Rightarrow> bool" where
  "no_panic m \<longleftrightarrow> (case m of Inl (Panic p) \<Rightarrow> False | _ \<Rightarrow> True)"

named_theorems no_panics \<open>composition of computations that never panic\<close>

lemma no_panic_Inr [simp, no_panics]: "no_panic (Inr x)"
  by (simp add: no_panic_def)

lemma no_panic_Err [simp, no_panics]: "no_panic (Inl (Err e))"
  by (simp add: no_panic_def)

lemma no_panic_ok_or [no_panics]: "no_panic (ok_or e x)"
  by (cases x) simp_all

lemma no_panic_bind [no_panics]:
  "no_panic m \<Longrightarrow> (\<And>x. m = Inr x \<Longrightarrow> no_panic (f x)) \<Longrightarrow> no_panic (and_then m f)"
  by (cases m) (auto simp: no_panic_def)

lemma no_panic_traverse [no_panics]:
  "(\<And>x. x \<in> set xs \<Longrightarrow> no_panic (f x)) \<Longrightarrow> no_panic (traverse f xs)"
  by (induction xs) (auto intro!: no_panic_bind)

lemma no_panicD: "no_panic m \<Longrightarrow> m \<noteq> Inl (Panic p)"
  by (auto simp: no_panic_def)

lemma encode_encrypted_no_panic:
  "no_panic (encode_encrypted_verifier_response C eph nonce r ctx pk)"
  unfolding encode_encrypted_verifier_response_def encode_verifier_response_def
    encode_response_device_infor_def response_device_infor_to_wire_def
    encode_response_device_infor_wire_def encode_public_context_def append_scalar_vec_def append_vec_def
    append_scalar_def encode_scalar_def encrypt_for_device_pubkey_def derive_aes_key_def
    encode_encrypted_message_def
  by (auto intro!: no_panics split: option.split)

section \<open>Building one response\<close>

text \<open>What a response for a session states: the path of its leaf, its address and key, and an
  authorization signature over the response's own window.\<close>

definition response_for where
  "response_for C vkey root leaves item r \<longleftrightarrow>
     find_device_shrubs_path_tag (hash2 C) root leaves (as_merkle_leaf item) =
       Inr (rdi_shrubs_path r, rdi_shrubs_tag r) \<and>
     rdi_verifying_key r = dci_verifying_key (as_dev_infor item) \<and>
     rdi_attester_addr r = as_attester_addr item \<and>
     rdi_sig r = Some (sg_sign C (signing_key vkey)
       (verifier_sig_message C (rdi_verifying_key r)
          (generate_device_authoried_infor C (as_dev_infor item) r) (rdi_timestamp r) (rdi_period r)))"

definition keeps_key where
  "keeps_key item \<longleftrightarrow>
     (\<forall>r. as_response item = Some r \<longrightarrow> rdi_verifying_key r = dci_verifying_key (as_dev_infor item))"

lemma base_response:
  fixes item :: "('f, 'vk, 'sg) attester_session"
  assumes "keeps_key item"
  shows "\<exists>base. (case as_response item of Some r \<Rightarrow> Inr r
      | None \<Rightarrow> response_device_infor_new (Some t) (dci_verifying_key (as_dev_infor item))) = Inr base \<and>
    rdi_verifying_key base = dci_verifying_key (as_dev_infor item)"
  using assms
  by (cases "as_response item")
     (auto simp: keeps_key_def response_device_infor_new_def current_unix_duration_def)

lemma infor_same_window:
  "generate_device_authoried_infor C d (r\<lparr>rdi_sig := s\<rparr>) = generate_device_authoried_infor C d r"
  by (simp add: generate_device_authoried_infor_def)

lemma build_response_runs:
  fixes C :: "('f, 'vk, 'sk, 'sg, 'pf, 'gv) crypto" and item :: "('f, 'vk, 'sg) attester_session"
  assumes key: "keeps_key item" and draw: "dr = (Some t, eph, nonce)"
    and root: "root = shrubs_roots (hash2 C) leaves"
  obtains r where "response_for C vkey root leaves item r"
    "build_encrypted_attester_response C vkey root leaves ctx dr i item =
      and_then (encode_encrypted_verifier_response C eph nonce r ctx (dci_verifying_key (as_dev_infor item)))
        (\<lambda>enc. Inr \<lparr>cr_index = i, cr_socket = as_socket item, cr_attester_addr = as_attester_addr item,
                 cr_response = r, cr_encrypted = enc\<rparr>)"
proof -
  obtain base where base: "(case as_response item of Some r \<Rightarrow> Inr r
      | None \<Rightarrow> response_device_infor_new (Some t) (dci_verifying_key (as_dev_infor item))) = Inr base"
    "rdi_verifying_key base = dci_verifying_key (as_dev_infor item)"
    using base_response [OF key] by blast
  obtain path tag where pt: "find_device_shrubs_path_tag (hash2 C) root leaves (as_merkle_leaf item) =
      Inr (path, tag)"
    using find_device_sound [of "hash2 C" leaves "as_merkle_leaf item"] root by auto
  define r0 where "r0 = base\<lparr>rdi_attester_addr := as_attester_addr item,
      rdi_shrubs_path := path, rdi_shrubs_tag := tag\<rparr>"
  define r where "r = r0\<lparr>rdi_sig := Some (verifier_compute_sig C vkey r0
      (generate_device_authoried_infor C (as_dev_infor item) r0))\<rparr>"
  have "response_for C vkey root leaves item r"
    using pt base(2) infor_same_window [where C = C and d = "as_dev_infor item" and r = r0]
    by (simp add: response_for_def r_def r0_def verifier_compute_sig_def)
  moreover have "build_encrypted_attester_response C vkey root leaves ctx dr i item =
      and_then (encode_encrypted_verifier_response C eph nonce r ctx (dci_verifying_key (as_dev_infor item)))
        (\<lambda>enc. Inr \<lparr>cr_index = i, cr_socket = as_socket item, cr_attester_addr = as_attester_addr item,
                 cr_response = r, cr_encrypted = enc\<rparr>)"
    unfolding build_encrypted_attester_response_def draw prod.case base(1) pt and_then_simps Let_def
    by (simp only: r_def r0_def)
  ultimately show ?thesis by (rule that)
qed

section \<open>Storing responses\<close>

fun store_active where
  "store_active active [] = active"
| "store_active active (Inl e # rs) = store_active active rs"
| "store_active active (Inr c # rs) =
     store_active (if cr_index c < length active
       then active[cr_index c := (active ! cr_index c)\<lparr>as_response := Some (cr_response c)\<rparr>]
       else active) rs"

lemma store_responses_eq:
  "store_responses C st rs =
     (st\<lparr>vs_active := store_active (vs_active st) rs\<rparr>,
      map (\<lambda>c. persist_response C (cr_response c)) (List.map_filter (case_sum (\<lambda>_. None) Some) rs),
      map (\<lambda>c. ToAttester (cr_socket c) (tcp_send_frame (cr_encrypted c)))
        (List.map_filter (case_sum (\<lambda>_. None) Some) rs))"
  by (induction C st rs rule: store_responses.induct) (simp_all add: Let_def map_filter_simps)

lemma length_store_active [simp]: "length (store_active active rs) = length active"
  by (induction active rs rule: store_active.induct) simp_all

lemma store_active_key:
  "map session_key (store_active active rs) = map session_key active"
  by (induction active rs rule: store_active.induct)
     (auto simp: map_update session_key_def intro!: list_update_same_conv [THEN iffD2] nth_equalityI
        simp: nth_list_update)

lemma find_panic_None: "find_panic rs = None \<longleftrightarrow> (\<forall>r\<in>set rs. no_panic r)"
  by (induction rs rule: find_panic.induct) (auto simp: no_panic_def)

lemma session_keys_nth:
  assumes "map session_key a = map session_key b" "i < length b"
  shows "i < length a \<and> session_key (a ! i) = session_key (b ! i)"
  using assms by (metis length_map nth_map)

lemma session_keys_leaves:
  assumes "map session_key a = map session_key b"
  shows "map as_merkle_leaf a = map as_merkle_leaf b"
  using arg_cong [OF assms, of "map (\<lambda>(s, d, l, n). l)"] by (simp add: session_key_def comp_def)

lemma store_active_all:
  assumes "\<forall>s\<in>set active. P s"
    and "\<And>c s. Inr c \<in> set rs \<Longrightarrow> cr_index c < length active \<Longrightarrow>
      session_key s = session_key (active ! cr_index c) \<Longrightarrow> P (s\<lparr>as_response := Some (cr_response c)\<rparr>)"
  shows "\<forall>s\<in>set (store_active active rs). P s"
  using assms
proof (induction active rs rule: store_active.induct)
  case (3 active c rs)
  let ?upd = "active[cr_index c := (active ! cr_index c)\<lparr>as_response := Some (cr_response c)\<rparr>]"
  show ?case
  proof (cases "cr_index c < length active")
    case True
    have key: "session_key (?upd ! i) = session_key (active ! i)" if "i < length active" for i
      using that True by (cases "i = cr_index c") (simp_all add: session_key_def)
    have "\<forall>s\<in>set ?upd. P s"
      using 3(2) 3(3) [of c "active ! cr_index c"] True by (auto dest!: set_update_subset_insert [THEN subsetD])
    then have "\<forall>s\<in>set (store_active ?upd rs). P s"
      using 3(1) 3(3) True key by simp
    then show ?thesis using True by simp
  next
    case False
    then show ?thesis using 3 by simp
  qed
qed simp_all

lemma store_active_nth:
  assumes "j < length active" "distinct (map cr_index cs)"
  shows "store_active active (map Inr cs) ! j =
    (case map_of (map (\<lambda>c. (cr_index c, c)) cs) j of
       None \<Rightarrow> active ! j
     | Some c \<Rightarrow> (active ! j)\<lparr>as_response := Some (cr_response c)\<rparr>)"
  using assms
proof (induction cs arbitrary: active)
  case (Cons c cs)
  show ?case
  proof (cases "cr_index c = j")
    case True
    then have "map_of (map (\<lambda>c. (cr_index c, c)) cs) j = None"
      using Cons.prems(2) by (auto simp: map_of_eq_None_iff)
    then show ?thesis using Cons True by simp
  next
    case False
    then show ?thesis
      using Cons by (cases "cr_index c < length active") (auto split: option.split)
  qed
qed simp

definition snaps_ok where
  "snaps_ok active snaps \<longleftrightarrow>
     (\<forall>(i, item) \<in> set snaps. i < length active \<and> session_key item = session_key (active ! i) \<and>
        keeps_key item)"

lemma vs_ok_keeps: "vs_ok h st \<Longrightarrow> \<forall>s\<in>set (vs_active st @ vs_pending st). keeps_key s"
  unfolding vs_ok_def keeps_key_def by blast

text \<open>A message to an attester that answers one of the snapshots.\<close>

definition answers ::
  "('f, 'vk, 'sk, 'sg, 'pf, 'gv) crypto \<Rightarrow> ('vk, 'sk) key_infor \<Rightarrow> ('f, 'vk, 'sg) batch
   \<Rightarrow> ('f, 'vk, 'sg) snapshot list \<Rightarrow> outcome \<Rightarrow> bool" where
  "answers C vkey b snaps msg \<longleftrightarrow>
     (\<exists>i item (r :: ('f, 'vk, 'sg) response_device_infor) eph nonce enc. (i, item) \<in> set snaps \<and>
        response_for C vkey (b_root b) (b_leaves b) item r \<and>
        encode_encrypted_verifier_response C eph nonce r (b_ctx b)
          (dci_verifying_key (as_dev_infor item)) = Inr enc \<and>
        msg = ToAttester (as_socket item) (tcp_send_frame enc))"

definition draws_ok where
  "draws_ok draws \<longleftrightarrow> (\<forall>i. \<exists>t eph nonce. draws i = (Some t, eph, nonce))"

lemma build_all:
  fixes C :: "('f, 'vk, 'sk, 'sg, 'pf, 'gv) crypto" and snaps :: "('f, 'vk, 'sg) snapshot list"
  assumes "b_root b = shrubs_roots (hash2 C) (b_leaves b)" "draws_ok draws" "(i, item) \<in> set snaps"
    "\<forall>(i, item) \<in> set snaps. keeps_key item"
  obtains t eph nonce r where "draws i = (Some t, eph, nonce)"
    "response_for C vkey (b_root b) (b_leaves b) item r"
    "build_encrypted_attester_response C vkey (b_root b) (b_leaves b) (b_ctx b) (draws i) i item =
      and_then (encode_encrypted_verifier_response C eph nonce r (b_ctx b) (dci_verifying_key (as_dev_infor item)))
        (\<lambda>enc. Inr \<lparr>cr_index = i, cr_socket = as_socket item, cr_attester_addr = as_attester_addr item,
                 cr_response = r, cr_encrypted = enc\<rparr>)"
proof -
  obtain t eph nonce where d: "draws i = (Some t, eph, nonce)" using assms(2) by (metis draws_ok_def)
  have "keeps_key item" using assms(3,4) by auto
  then show ?thesis
    by (rule build_response_runs [OF _ d assms(1), where vkey = vkey and ctx = "b_ctx b" and i = i])
       (rule that [OF d])
qed

text \<open>A response that was built is for one of the snapshots, and its message answers it.\<close>

lemma built_response:
  fixes C :: "('f, 'vk, 'sk, 'sg, 'pf, 'gv) crypto" and snaps :: "('f, 'vk, 'sg) snapshot list"
  assumes root: "b_root b = shrubs_roots (hash2 C) (b_leaves b)" and draws: "draws_ok draws"
    and keeps: "\<forall>(i, item) \<in> set snaps. keeps_key item"
    and c: "Inr c \<in> set (map (\<lambda>(index, item). build_encrypted_attester_response C vkey (b_root b) (b_leaves b)
      (b_ctx b) (draws index) index item) snaps)"
  shows "\<exists>item. (cr_index c, item) \<in> set snaps \<and> response_for C vkey (b_root b) (b_leaves b) item (cr_response c) \<and>
      answers C vkey b snaps (ToAttester (cr_socket c) (tcp_send_frame (cr_encrypted c)))"
proof -
  obtain i item where i: "(i, item) \<in> set snaps" "build_encrypted_attester_response C vkey (b_root b)
      (b_leaves b) (b_ctx b) (draws i) i item = Inr c" using c by auto
  obtain t eph nonce r where r: "response_for C vkey (b_root b) (b_leaves b) item r"
    "build_encrypted_attester_response C vkey (b_root b) (b_leaves b) (b_ctx b) (draws i) i item =
    and_then (encode_encrypted_verifier_response C eph nonce r (b_ctx b) (dci_verifying_key (as_dev_infor item)))
      (\<lambda>enc. Inr \<lparr>cr_index = i, cr_socket = as_socket item, cr_attester_addr = as_attester_addr item,
               cr_response = r, cr_encrypted = enc\<rparr>)"
    by (rule build_all [OF root draws i(1) keeps, where vkey = vkey])
  from trans [OF r(2) [symmetric] i(2)] obtain enc where enc: "encode_encrypted_verifier_response C eph nonce r (b_ctx b)
      (dci_verifying_key (as_dev_infor item)) = Inr enc"
    and c: "c = \<lparr>cr_index = i, cr_socket = as_socket item, cr_attester_addr = as_attester_addr item,
               cr_response = r, cr_encrypted = enc\<rparr>"
    by (auto simp: and_then_Inr_iff)
  have "answers C vkey b snaps (ToAttester (as_socket item) (tcp_send_frame enc))"
    unfolding answers_def using i(1) r(1) enc by blast
  then show ?thesis using i(1) r(1) by (intro exI [of _ item]) (simp add: c)
qed

text \<open>Storing responses for the right keys keeps a state well formed.\<close>

lemma store_active_ok:
  fixes st :: "('f, 'vk, 'sg) verifier_state"
  assumes ok: "vs_ok h st"
    and key: "\<And>c (s :: ('f, 'vk, 'sg) attester_session). Inr c \<in> set rs \<Longrightarrow> session_key s = session_key (vs_active st ! cr_index c) \<Longrightarrow>
      rdi_verifying_key (cr_response c) = dci_verifying_key (as_dev_infor s)"
  shows "vs_ok h (st\<lparr>vs_active := store_active (vs_active st) rs\<rparr>)" (is "vs_ok h ?st")
proof -
  have "\<forall>s\<in>set (store_active (vs_active st) rs). as_merkle_leaf s = dci_merkle_leaf (as_dev_infor s) \<and>
      (\<forall>r. as_response s = Some r \<longrightarrow> rdi_verifying_key r = dci_verifying_key (as_dev_infor s))"
  proof (rule store_active_all)
    show "\<forall>s\<in>set (vs_active st). as_merkle_leaf s = dci_merkle_leaf (as_dev_infor s) \<and>
        (\<forall>r. as_response s = Some r \<longrightarrow> rdi_verifying_key r = dci_verifying_key (as_dev_infor s))"
      using ok by (auto simp: vs_ok_def)
    fix c and s :: "('f, 'vk, 'sg) attester_session"
    assume c: "Inr c \<in> set rs" "cr_index c < length (vs_active st)"
      "session_key s = session_key (vs_active st ! cr_index c)"
    have "as_merkle_leaf (vs_active st ! cr_index c) = dci_merkle_leaf (as_dev_infor (vs_active st ! cr_index c))"
      using ok c(2) by (auto simp: vs_ok_def)
    then show "as_merkle_leaf (s\<lparr>as_response := Some (cr_response c)\<rparr>) =
        dci_merkle_leaf (as_dev_infor (s\<lparr>as_response := Some (cr_response c)\<rparr>)) \<and>
      (\<forall>r. as_response (s\<lparr>as_response := Some (cr_response c)\<rparr>) = Some r \<longrightarrow>
         rdi_verifying_key r = dci_verifying_key (as_dev_infor (s\<lparr>as_response := Some (cr_response c)\<rparr>)))"
      using key [OF c(1,3)] c(3) by (simp add: session_key_def)
  qed
  moreover have "map session_key (vs_active ?st) = map session_key (vs_active st)"
    by (simp add: store_active_key)
  ultimately show ?thesis
    using ok session_keys_leaves [of "vs_active ?st" "vs_active st"] by (auto simp: vs_ok_def)
qed

lemma successes_Inr: "c \<in> set (List.map_filter (case_sum (\<lambda>_. None) Some) rs) \<Longrightarrow> Inr c \<in> set rs"
  by (induction rs) (auto simp: map_filter_simps split: sum.splits)

lemma compute_runs:
  fixes C :: "('f, 'vk, 'sk, 'sg, 'pf, 'gv) crypto" and snaps :: "('f, 'vk, 'sg) snapshot list"
    and st :: "('f, 'vk, 'sg) verifier_state"
  assumes root: "b_root b = shrubs_roots (hash2 C) (b_leaves b)" and draws: "draws_ok draws"
    and snaps: "snaps_ok (vs_active st) snaps" and ok: "vs_ok (hash2 C) st"
  obtains st' outs where
    "compute_store_and_send_responses C vkey b draws snaps st = Inr (st', outs)" "vs_ok (hash2 C) st'"
    "map session_key (vs_active st') = map session_key (vs_active st)"
    "st' = st\<lparr>vs_active := store_active (vs_active st) (map (\<lambda>(index, item).
       build_encrypted_attester_response C vkey (b_root b) (b_leaves b) (b_ctx b) (draws index) index item)
       snaps)\<rparr>"
    "\<forall>out\<in>set outs. (\<exists>f e. out = Persist f e) \<or> answers C vkey b snaps out"
proof -
  have keeps: "\<forall>(i, item) \<in> set snaps. keeps_key item" using snaps by (auto simp: snaps_ok_def)
  let ?rs = "map (\<lambda>(index, item). build_encrypted_attester_response C vkey (b_root b) (b_leaves b)
      (b_ctx b) (draws index) index item) snaps"
  let ?st = "st\<lparr>vs_active := store_active (vs_active st) ?rs\<rparr>" and ?oks = "List.map_filter (case_sum (\<lambda>_. None) Some) ?rs"
  have "no_panic (build_encrypted_attester_response C vkey (b_root b) (b_leaves b) (b_ctx b)
      (draws i) i item)" if "(i, item) \<in> set snaps" for i item
    using build_all [OF root draws that keeps, where vkey = vkey]
    by (metis encode_encrypted_no_panic no_panic_bind no_panic_Inr)
  then have np: "find_panic ?rs = None" by (auto simp: find_panic_None)
  note res = built_response [OF root draws keeps, where vkey = vkey]
  have keys: "map session_key (vs_active ?st) = map session_key (vs_active st)"
    by (simp add: store_active_key)
  have run: "compute_store_and_send_responses C vkey b draws snaps st = Inr (?st,
      if snaps = [] then [] else map (\<lambda>c. persist_response C (cr_response c)) ?oks @
      map (\<lambda>c. ToAttester (cr_socket c) (tcp_send_frame (cr_encrypted c))) ?oks)" (is "_ = Inr (_, ?outs)")
    using np by (cases "snaps = []")
      (simp_all add: compute_store_and_send_responses_def Let_def store_responses_eq)
  have new_key: "rdi_verifying_key (cr_response c) = dci_verifying_key (as_dev_infor s)"
    if "Inr c \<in> set ?rs" "session_key s = session_key (vs_active st ! cr_index c)" for c s
    using res [OF that(1)] snaps that(2) by (fastforce simp: response_for_def snaps_ok_def session_key_def)
  have "(\<exists>f e. out = Persist f e) \<or> answers C vkey b snaps out" if out: "out \<in> set ?outs" for out
  proof -
    have "out \<in> (\<lambda>c. persist_response C (cr_response c)) ` set ?oks \<or>
        out \<in> (\<lambda>c. ToAttester (cr_socket c) (tcp_send_frame (cr_encrypted c))) ` set ?oks"
      using out by (cases "snaps = []") (simp_all only: if_True if_False simp_thms list.set set_append
          set_map Un_iff empty_iff)
    then show ?thesis using res [OF successes_Inr] by (auto simp: persist_response_def)
  qed
  then show ?thesis by (intro that [OF run store_active_ok [OF ok new_key] keys refl]) auto
qed

end
