(* ===== verification/DaemonProps.thy ===== *)
theory DaemonProps
  imports DaemonFacts
begin

text \<open>
  Properties of the hydra daemon: one timer run from a well-formed state, the paths its attesters
  hold afterwards, and the invariant of every interleaving of its tasks.
\<close>

section \<open>One batch\<close>

lemma session_key_eqD:
  assumes "session_key a = session_key b"
  shows "as_socket a = as_socket b" "as_dev_infor a = as_dev_infor b"
    "as_merkle_leaf a = as_merkle_leaf b" "as_attester_addr a = as_attester_addr b"
  using assms by (simp_all add: session_key_def)

lemma snaps_ok_indices:
  assumes "\<forall>i\<in>set is. i < length active" "\<forall>s\<in>set active. keeps_key s"
  shows "snaps_ok active (map (\<lambda>i. (i, active ! i)) is)"
  using assms by (auto simp: snaps_ok_def)

lemma snaps_ok_keys:
  assumes "snaps_ok active snaps" "map session_key active' = map session_key active"
  shows "snaps_ok active' snaps"
  using assms session_keys_nth [OF assms(2)] unfolding snaps_ok_def by fastforce

lemma snaps_ok_append: "snaps_ok active snaps \<Longrightarrow> snaps_ok (active @ rest) snaps"
  unfolding snaps_ok_def by (auto simp: nth_append)

text \<open>A batch in flight: its tree was built from a prefix of the leaves, and its snapshots are
  sessions of the daemon.\<close>

definition batch_ok where
  "batch_ok C vkey st b \<longleftrightarrow>
     b_root b = shrubs_roots (hash2 C) (b_leaves b) \<and>
     b_ctx b = \<lparr>pc_root = b_root b, pc_verifier_pk = verifying_key vkey\<rparr> \<and>
     (\<exists>n \<le> length (vs_old_leaves st). b_leaves b = take n (vs_old_leaves st)) \<and>
     snaps_ok (vs_active st) (b_affected b @ b_unaffected b @ b_new b)"

lemma insert_pending_ok:
  fixes C :: "('f, 'vk, 'sk, 'sg, 'pf, 'gv) crypto" and st :: "('f, 'vk, 'tg) verifier_state"
  assumes ok: "vs_ok (hash2 C) st" and ne: "vs_pending st \<noteq> []"
  obtains st' b where "insert_pending C vkey st = Inr (st', Some b)" "vs_ok (hash2 C) st'"
    "batch_ok C vkey st' b" "vs_active st' = vs_active st @ vs_pending st"
    "vs_pending st' = []" "\<not> vs_batch_timer_running st'" "b_leaves b = vs_old_leaves st'"
    "map fst (b_affected b) = moved_old (length (vs_active st)) (length (vs_pending st))"
    "map fst (b_unaffected b) = filter (\<lambda>i. i \<notin> set (map fst (b_affected b))) [0..<length (vs_active st)]"
    "map fst (b_new b) = [length (vs_active st)..<length (vs_active st') ]"
    "\<forall>(i, item) \<in> set (b_affected b @ b_unaffected b @ b_new b). item = vs_active st' ! i"
proof -
  note run = insert_pending_runs [OF ok ne, of vkey]
  from vs_ok_insert [OF ok run] have ok': "vs_ok (hash2 C) (st\<lparr>vs_root :=
      shrubs_roots (hash2 C) (map as_merkle_leaf (vs_active st @ vs_pending st)),
      vs_old_leaves := map as_merkle_leaf (vs_active st @ vs_pending st), vs_pending := [],
      vs_active := vs_active st @ vs_pending st, vs_has_created_tree := True,
      vs_batch_timer_running := False\<rparr>)" (is "vs_ok _ ?st'") by blast
  have keeps: "\<forall>s\<in>set (vs_active st @ vs_pending st). keeps_key s" by (rule vs_ok_keeps [OF ok])
  have less: "i < length (vs_active st)" "i < length (vs_active st) + k"
    if "i \<in> set (moved_old (length (vs_active st)) m)" for i m k
    using moved_old_less [OF that] by simp_all
  show ?thesis
    by (rule that [OF run ok'])
       (use less keeps in \<open>auto simp: batch_ok_def snaps_ok_def nth_append comp_def\<close>)
qed

text \<open>Attesters that are told something in a batch: everybody, exactly once.\<close>

lemma moved_partition:
  "distinct (moved_old n m @ filter (\<lambda>i. i \<notin> set (moved_old n m)) [0..<n] @ [n..<n + m]) \<and>
   set (moved_old n m @ filter (\<lambda>i. i \<notin> set (moved_old n m)) [0..<n] @ [n..<n + m]) = {0..<n + m}"
  by (auto simp: moved_old_def)

definition current_answer where
  "current_answer C vkey st out \<longleftrightarrow>
     (\<exists>b snaps. b_root b = vs_root st \<and> b_leaves b = vs_old_leaves st \<and>
        b_ctx b = \<lparr>pc_root = vs_root st, pc_verifier_pk = verifying_key vkey\<rparr> \<and>
        snaps_ok (vs_active st) snaps \<and> answers C vkey b snaps out)"

lemma process_batch_runs:
  fixes C :: "('f, 'vk, 'sk, 'sg, 'pf, 'gv) crypto" and st :: "('f, 'vk, 'sg) verifier_state"
  assumes ok: "vs_ok (hash2 C) st" and ne: "vs_pending st \<noteq> []" and d: "draws_ok draws"
  obtains st1 b st2 o1 st3 o4 where
    "insert_pending C vkey st = Inr (st1, Some b)" "vs_ok (hash2 C) st1" "batch_ok C vkey st1 b"
    "compute_store_and_send_responses C vkey b draws (b_affected b) st1 = Inr (st2, o1)"
    "compute_store_and_send_responses C vkey b draws (b_new b) st2 = Inr (st3, o4)"
    "vs_ok (hash2 C) st3" "map session_key (vs_active st3) = map session_key (vs_active st @ vs_pending st)"
    "process_batch C vkey addrs draws st = Inr (st3, o1 @
       send_context_only_refreshes C (b_unaffected b) (b_ctx b) @
       publish_public_context_to_all C addrs (b_ctx b) @ o4)"
    "\<forall>out\<in>set (o1 @ o4). (\<exists>f e. out = Persist f e) \<or>
       answers C vkey b (b_affected b @ b_unaffected b @ b_new b) out"
    "snaps_ok (vs_active st3) (b_affected b @ b_unaffected b @ b_new b)"
    "b_leaves b = vs_old_leaves st3" "b_root b = vs_root st3" "vs_pending st3 = []"
    "\<not> vs_batch_timer_running st3" "st2 = st1\<lparr>vs_active := vs_active st2\<rparr>"
proof -
  obtain st1 b where i: "insert_pending C vkey st = Inr (st1, Some b)" "vs_ok (hash2 C) st1"
    "batch_ok C vkey st1 b" "vs_active st1 = vs_active st @ vs_pending st"
    "vs_pending st1 = []" "\<not> vs_batch_timer_running st1" "b_leaves b = vs_old_leaves st1"
    by (rule insert_pending_ok [OF ok ne, of vkey])
  have root: "b_root b = shrubs_roots (hash2 C) (b_leaves b)" using i(3) by (simp add: batch_ok_def)
  have snaps: "snaps_ok (vs_active st1) (b_affected b @ b_unaffected b @ b_new b)"
    using i(3) by (simp add: batch_ok_def)
  then have sub: "snaps_ok (vs_active st1) (b_affected b)" "snaps_ok (vs_active st1) (b_new b)"
    by (auto simp: snaps_ok_def)
  obtain st2 o1 where c1: "compute_store_and_send_responses C vkey b draws (b_affected b) st1 = Inr (st2, o1)"
    "vs_ok (hash2 C) st2" "map session_key (vs_active st2) = map session_key (vs_active st1)"
    "st2 = st1\<lparr>vs_active := vs_active st2\<rparr>"
    "\<forall>out\<in>set o1. (\<exists>f e. out = Persist f e) \<or> answers C vkey b (b_affected b) out"
    by (rule compute_runs [OF root d sub(1) i(2), of vkey]) auto
  obtain st3 o4 where c2: "compute_store_and_send_responses C vkey b draws (b_new b) st2 = Inr (st3, o4)"
    "vs_ok (hash2 C) st3" "map session_key (vs_active st3) = map session_key (vs_active st2)"
    "st3 = st2\<lparr>vs_active := vs_active st3\<rparr>"
    "\<forall>out\<in>set o4. (\<exists>f e. out = Persist f e) \<or> answers C vkey b (b_new b) out"
    by (rule compute_runs [OF root d snaps_ok_keys [OF sub(2) c1(3)] c1(2), of vkey]) auto
  have keys: "map session_key (vs_active st3) = map session_key (vs_active st1)" using c1(3) c2(3) by simp
  have same: "vs_old_leaves st3 = vs_old_leaves st1" "vs_pending st3 = vs_pending st1"
    "vs_batch_timer_running st3 = vs_batch_timer_running st1" "vs_root st3 = vs_root st1"
    by (subst c2(4), simp, subst c1(4), simp)+
  have mono: "answers C vkey b s out \<Longrightarrow> set s \<subseteq> set s' \<Longrightarrow> answers C vkey b s' out" for s s' out
    unfolding answers_def by blast
  have all: "answers C vkey b (b_affected b @ b_unaffected b @ b_new b) out"
    if "answers C vkey b (b_affected b) out \<or> answers C vkey b (b_new b) out" for out
    using that by (elim disjE) (erule mono, force)+
  show ?thesis
  proof (rule that [OF i(1-3) c1(1) c2(1,2)])
    show "process_batch C vkey addrs draws st = Inr (st3, o1 @
       send_context_only_refreshes C (b_unaffected b) (b_ctx b) @
       publish_public_context_to_all C addrs (b_ctx b) @ o4)"
      using i(1) c1(1) c2(1) by (simp add: process_batch_def Let_def)
    show "\<forall>out\<in>set (o1 @ o4). (\<exists>f e. out = Persist f e) \<or>
       answers C vkey b (b_affected b @ b_unaffected b @ b_new b) out"
      using c1(5) c2(5) all by (metis Un_iff set_append)
    show "snaps_ok (vs_active st3) (b_affected b @ b_unaffected b @ b_new b)"
      by (rule snaps_ok_keys [OF snaps keys])
    show "b_root b = vs_root st3" using i(2,7) root same by (simp add: vs_ok_def)
  qed (use keys i same c1(4) in auto)
qed

fun is_publication :: "outcome \<Rightarrow> bool" where
  "is_publication (ToRelyingParty addr m) = True"
| "is_publication _ = False"

lemma no_publication: "(\<forall>out\<in>set outs. (\<exists>f e. out = Persist f e) \<or> answers C vkey b snaps out) \<Longrightarrow> filter is_publication outs = []"
  by (auto simp: filter_empty_conv answers_def)

lemma refreshes_no_publication: "filter is_publication (send_context_only_refreshes C snaps ctx) = []"
  by (auto simp: send_context_only_refreshes_def filter_empty_conv split: sum.split)

lemma publications:
  "filter is_publication (publish_public_context_to_all C addrs ctx) =
     (case encode_public_context_message C ctx of
        Inl e \<Rightarrow> [] | Inr m \<Rightarrow> map (\<lambda>addr. ToRelyingParty addr (tcp_send_frame m)) addrs)"
  by (induction addrs) (auto simp: publish_public_context_to_all_def split: sum.split)

text \<open>
  C15. From a well-formed state, and while the clock can be read, a timer run ends without a panic. It empties the queue, clears the
  timer flag and makes every queued attester active in arrival order; the state's root list is then that
  of the tree built from scratch over the leaves of all active attesters. When the queue was not empty,
  the frames sent to relying parties are exactly one to each configured address, in their order, with
  this root list and the verifier's public key (none if that does not encode); a run over an empty queue
  sends them nothing.
\<close>
theorem process_batch_correct:
  fixes C :: "('f, 'vk, 'sk, 'sg, 'pf, 'gv) crypto" and st :: "('f, 'vk, 'sg) verifier_state"
    and vkey :: "('vk, 'sk) key_infor"
  assumes "vs_ok (hash2 C) st" "draws_ok draws"
  shows "\<exists>st' outs. process_batch C vkey addrs draws st = Inr (st', outs) \<and> vs_ok (hash2 C) st' \<and>
    vs_pending st' = [] \<and> \<not> vs_batch_timer_running st' \<and>
    map session_key (vs_active st') = map session_key (vs_active st @ vs_pending st) \<and>
    vs_root st' = create_batch_devices (hash2 C) [] (map as_merkle_leaf (vs_active st @ vs_pending st)) \<and>
    filter is_publication outs =
      (if vs_pending st = [] then []
       else case encode_public_context_message C \<lparr>pc_root = vs_root st', pc_verifier_pk = verifying_key vkey\<rparr> of
              Inl e \<Rightarrow> [] | Inr m \<Rightarrow> map (\<lambda>addr. ToRelyingParty addr (tcp_send_frame m)) addrs)"
proof (cases "vs_pending st = []")
  case True
  then have run: "process_batch C vkey addrs draws st = Inr (st\<lparr>vs_batch_timer_running := False\<rparr>, [])"
    by (simp add: process_batch_def insert_pending_def)
  show ?thesis
    unfolding run using assms(1) True by (auto simp: vs_ok_def shrubs_roots_def)
next
  case False
  show ?thesis
  proof (rule process_batch_runs [OF assms(1) False assms(2), where vkey = vkey and addrs = addrs],
      goal_cases)
    case (1 st1 b st2 o1 st3 o4)
    have root: "vs_root st3 = shrubs_roots (hash2 C) (map as_merkle_leaf (vs_active st @ vs_pending st))"
      using 1(6) session_keys_leaves [OF 1(7)] by (simp add: vs_ok_def)
    have "filter is_publication o1 = []" "filter is_publication o4 = []"
      using 1(9) by (auto intro!: no_publication)
    moreover have "b_ctx b = \<lparr>pc_root = vs_root st3, pc_verifier_pk = verifying_key vkey\<rparr>"
      using 1(3,12) by (simp add: batch_ok_def)
    ultimately have "filter is_publication (o1 @ send_context_only_refreshes C (b_unaffected b) (b_ctx b) @
        publish_public_context_to_all C addrs (b_ctx b) @ o4) =
      (case encode_public_context_message C \<lparr>pc_root = vs_root st3, pc_verifier_pk = verifying_key vkey\<rparr> of
         Inl e \<Rightarrow> [] | Inr m \<Rightarrow> map (\<lambda>addr. ToRelyingParty addr (tcp_send_frame m)) addrs)"
      by (simp add: refreshes_no_publication publications)
    moreover have "vs_root st3 = create_batch_devices (hash2 C) [] (map as_merkle_leaf (vs_active st @ vs_pending st))"
      using root by (simp add: shrubs_roots_def)
    ultimately show ?case using 1(6-8,13,14) False by auto
  qed
qed

definition toy_dev :: "u64 \<Rightarrow> (u64, u64) device_client_infor" where
  "toy_dev k = \<lparr>dci_verifying_key = k, dci_measured_value = ''ab'', dci_merkle_leaf = k,
     dci_timestamp = Duration 100 5, dci_period = Duration 10 0\<rparr>"

definition toy_state :: "(u64, u64, u64) verifier_state" where
  "toy_state = fst (queue_attester 2 (toy_dev 9) ''b'' (fst (queue_attester 1 (toy_dev 7) ''a''
     verifier_state_new)))"

definition toy_draws :: "nat \<Rightarrow> u64 draw" where
  "toy_draws i = (Some (Duration 200 0), 13, replicate 12 0)"

definition toy_vkey :: "(u64, u64) key_infor" where
  "toy_vkey = \<lparr>signing_key = 11, verifying_key = 11\<rparr>"

lemma toy_state_ok: "vs_ok h toy_state"
  by (simp add: vs_ok_def toy_state_def queue_attester_def verifier_state_new_def toy_dev_def
      isize_max_def Let_def)

lemma toy_draws_ok: "draws_ok toy_draws"
  by (simp add: draws_ok_def toy_draws_def)

lemma toy_encode_scalar: "encode_scalar toy_crypto = (\<lambda>x. Inr (u64_be x))"
  by (rule ext) (simp add: encode_scalar_def toy_crypto_def)

lemma toy_context_encodes: "is_ok (encode_public_context toy_crypto ctx)"
  by (simp add: encode_public_context_def append_scalar_vec_def append_vec_def append_scalar_def toy_encode_scalar
      traverse_Inr)

theorem process_batch_correct_witness:
  "\<exists>st' outs m. process_batch toy_crypto toy_vkey [''rp''] toy_draws toy_state = Inr (st', outs) \<and>
     vs_root st' = create_batch_devices (hash2 toy_crypto) [] [7, 9] \<and>
     encode_public_context_message toy_crypto \<lparr>pc_root = vs_root st', pc_verifier_pk = 11\<rparr> = Inr m \<and>
     filter is_publication outs = [ToRelyingParty ''rp'' (tcp_send_frame m)]"
proof -
  have leaves: "map as_merkle_leaf (vs_active toy_state @ vs_pending toy_state) = [7, 9]" and ne: "vs_pending toy_state \<noteq> []"
    by (simp_all add: toy_state_def queue_attester_def verifier_state_new_def toy_dev_def Let_def)
  have ok: "vs_ok (hash2 toy_crypto) toy_state" by (rule toy_state_ok)
  obtain st' outs where run: "process_batch toy_crypto toy_vkey [''rp''] toy_draws toy_state = Inr (st', outs)"
    and root: "vs_root st' = create_batch_devices (hash2 toy_crypto) [] [7, 9]"
    and pubs: "filter is_publication outs =
      (case encode_public_context_message toy_crypto \<lparr>pc_root = vs_root st', pc_verifier_pk = verifying_key toy_vkey\<rparr> of
         Inl e \<Rightarrow> [] | Inr m \<Rightarrow> map (\<lambda>addr. ToRelyingParty addr (tcp_send_frame m)) [''rp''])"
    using process_batch_correct [OF ok toy_draws_ok, where vkey = toy_vkey and addrs = "[''rp'']"] leaves ne by auto
  obtain m where "encode_public_context_message toy_crypto \<lparr>pc_root = vs_root st', pc_verifier_pk = 11\<rparr> = Inr m"
    using toy_context_encodes [of "\<lparr>pc_root = vs_root st', pc_verifier_pk = 11\<rparr>"]
    by (auto simp: encode_public_context_message_def is_ok_iff)
  then show ?thesis using run root pubs by (simp add: toy_vkey_def)
qed

section \<open>The paths attesters hold\<close>

definition responses_current where
  "responses_current C st \<longleftrightarrow>
     (\<forall>i < length (vs_active st). \<exists>r. as_response (vs_active st ! i) = Some r \<and>
        find_device_shrubs_path_tag (hash2 C) (vs_root st) (vs_old_leaves st)
          (as_merkle_leaf (vs_active st ! i)) = Inr (rdi_shrubs_path r, rdi_shrubs_tag r))"

definition builds_succeed where
  "builds_succeed C vkey draws b snaps \<longleftrightarrow>
     (\<forall>(i, item) \<in> set snaps. is_ok (build_encrypted_attester_response C vkey (b_root b) (b_leaves b)
        (b_ctx b) (draws i) i item))"

lemma compute_store_active:
  "compute_store_and_send_responses C vkey b draws snaps st = Inr (st', outs) \<Longrightarrow>
   st' = st\<lparr>vs_active := store_active (vs_active st) (map (\<lambda>(index, item).
     build_encrypted_attester_response C vkey (b_root b) (b_leaves b) (b_ctx b) (draws index) index item) snaps)\<rparr>"
  by (auto simp: compute_store_and_send_responses_def Let_def store_responses_eq
      split: if_splits option.splits)

lemma store_snaps:
  fixes C :: "('f, 'vk, 'sk, 'sg, 'pf, 'gv) crypto" and snaps :: "('f, 'vk, 'sg) snapshot list"
    and active :: "('f, 'vk, 'sg) attester_session list"
  assumes root: "b_root b = shrubs_roots (hash2 C) (b_leaves b)" and d: "draws_ok draws"
    and ok: "snaps_ok active snaps" and builds: "builds_succeed C vkey draws b snaps"
    and dist: "distinct (map fst snaps)" and j: "j < length active"
  defines "active' \<equiv> store_active active (map (\<lambda>(index, item). build_encrypted_attester_response C vkey
      (b_root b) (b_leaves b) (b_ctx b) (draws index) index item) snaps)"
  shows "j \<notin> set (map fst snaps) \<Longrightarrow> active' ! j = active ! j"
    and "(j, item) \<in> set snaps \<Longrightarrow> \<exists>r. as_response (active' ! j) = Some r \<and>
      response_for C vkey (b_root b) (b_leaves b) item r"
proof -
  let ?build = "\<lambda>(index, item). build_encrypted_attester_response C vkey (b_root b) (b_leaves b)
      (b_ctx b) (draws index) index item"
  define cs where "cs = map (\<lambda>p. projr (?build p)) snaps"
  have keeps: "\<forall>(i, item) \<in> set snaps. keeps_key item" using ok by (auto simp: snaps_ok_def)
  have one: "\<exists>c. ?build (i, item) = Inr c \<and> cr_index c = i \<and>
      response_for C vkey (b_root b) (b_leaves b) item (cr_response c)" if m: "(i, item) \<in> set snaps" for i item
  proof -
    obtain t eph nonce r where "draws i = (Some t, eph, nonce)" and r: "response_for C vkey (b_root b) (b_leaves b) item r"
      "build_encrypted_attester_response C vkey (b_root b) (b_leaves b) (b_ctx b) (draws i) i item =
        and_then (encode_encrypted_verifier_response C eph nonce r (b_ctx b) (dci_verifying_key (as_dev_infor item)))
          (\<lambda>enc. Inr \<lparr>cr_index = i, cr_socket = as_socket item, cr_attester_addr = as_attester_addr item,
                   cr_response = r, cr_encrypted = enc\<rparr>)"
      by (rule build_all [where b = b and vkey = vkey, OF root d m keeps])
    have "is_ok (build_encrypted_attester_response C vkey (b_root b) (b_leaves b) (b_ctx b) (draws i) i item)"
      using builds m by (auto simp: builds_succeed_def)
    then obtain c where c: "build_encrypted_attester_response C vkey (b_root b) (b_leaves b) (b_ctx b)
        (draws i) i item = Inr c" by (auto simp: is_ok_iff)
    then have "cr_index c = i \<and> cr_response c = r" using r(2) by (auto simp: and_then_Inr_iff)
    then show ?thesis using c r(1) by simp
  qed
  have rs: "map ?build snaps = map Inr cs" unfolding cs_def using one by fastforce
  have idx: "map cr_index cs = map fst snaps" unfolding cs_def using one by fastforce
  have nth: "active' ! j = (case map_of (map (\<lambda>c. (cr_index c, c)) cs) j of
       None \<Rightarrow> active ! j | Some c \<Rightarrow> (active ! j)\<lparr>as_response := Some (cr_response c)\<rparr>)"
    unfolding active'_def rs by (rule store_active_nth [OF j]) (simp add: idx dist)
  show "active' ! j = active ! j" if "j \<notin> set (map fst snaps)"
  proof -
    have "map_of (map (\<lambda>c. (cr_index c, c)) cs) j = None"
      using that unfolding idx [symmetric] by (simp add: map_of_eq_None_iff image_image)
    then show ?thesis using nth by simp
  qed
  show "\<exists>r. as_response (active' ! j) = Some r \<and> response_for C vkey (b_root b) (b_leaves b) item r"
    if m: "(j, item) \<in> set snaps"
  proof -
    obtain c where c: "?build (j, item) = Inr c" "cr_index c = j"
      "response_for C vkey (b_root b) (b_leaves b) item (cr_response c)" using one [OF m] by blast
    have "c \<in> set cs" unfolding cs_def using m c(1) by force
    then have "map_of (map (\<lambda>c. (cr_index c, c)) cs) j = Some c"
      using c(2) dist by (intro map_of_is_SomeI) (auto simp: comp_def idx)
    then show ?thesis using nth c(3) by simp
  qed
qed

lemma snapshots_distinct:
  assumes "map fst a = moved_old n m" "map fst u = filter (\<lambda>i. i \<notin> set (map fst a)) [0..<n]"
    and "map fst w = [n..<n + m]"
  shows "distinct (map fst a)" "distinct (map fst w)" "set (map fst a) \<subseteq> {0..<n}"
    "set (map fst w) = {n..<n + m}"
  using moved_partition [of n m] assms by (auto dest: moved_old_less)

lemma untouched_response_current:
  fixes st :: "('f, 'vk, 'sg) verifier_state"
  assumes ok: "vs_ok h st" "vs_ok h st'" and act: "map session_key (vs_active st') =
      map session_key (vs_active st @ vs_pending st)"
    and cf: "clash_free h (map as_merkle_leaf (vs_active st @ vs_pending st))"
    and i: "i < length (vs_active st)" "i \<notin> set (moved_old (length (vs_active st)) (length (vs_pending st)))"
    and r: "find_device_shrubs_path_tag h (vs_root st) (vs_old_leaves st) (as_merkle_leaf (vs_active st ! i)) = res"
  shows "find_device_shrubs_path_tag h (vs_root st') (vs_old_leaves st')
    (as_merkle_leaf (vs_active st ! i)) = res"
proof -
  let ?xs = "map as_merkle_leaf (vs_active st)" and ?ys = "map as_merkle_leaf (vs_pending st)"
  have leaves: "vs_old_leaves st' = ?xs @ ?ys" "vs_root st' = shrubs_roots h (?xs @ ?ys)"
    using ok(2) session_keys_leaves [OF act] by (simp_all add: vs_ok_def)
  have old: "vs_old_leaves st = ?xs" "vs_root st = shrubs_roots h ?xs" using ok(1) by (simp_all add: vs_ok_def)
  have "affected_indices (length ?xs) (length ?ys) =
      Inr (map Suc (moved_old (length (vs_active st)) (length (vs_pending st))))"
    using affected_indices_moved i(1) by (metis length_map gr_implies_not0 gr0I)
  moreover have "i + 1 \<notin> set (map Suc (moved_old (length (vs_active st)) (length (vs_pending st))))"
    using i(2) by auto
  ultimately have "find_device_shrubs_path_tag h (shrubs_roots h (?xs @ ?ys)) (?xs @ ?ys) (?xs ! i) =
      find_device_shrubs_path_tag h (shrubs_roots h ?xs) ?xs (?xs ! i)"
    using shrubs.locate_stable [where h = h and xs = ?xs and ys = ?ys and i = i] cf i(1) by simp
  then show ?thesis using leaves old r i(1) by simp
qed

lemma inserted_batch:
  fixes C :: "('f, 'vk, 'sk, 'sg, 'pf, 'gv) crypto" and st :: "('f, 'vk, 'tg) verifier_state"
  assumes "vs_ok (hash2 C) st" "vs_pending st \<noteq> []" "insert_pending C vkey st = Inr (st1, Some b)"
  shows "vs_active st1 = vs_active st @ vs_pending st"
    "map fst (b_affected b) = moved_old (length (vs_active st)) (length (vs_pending st))"
    "map fst (b_unaffected b) = filter (\<lambda>i. i \<notin> set (map fst (b_affected b))) [0..<length (vs_active st)]"
    "map fst (b_new b) = [length (vs_active st)..<length (vs_active st) + length (vs_pending st)]"
    "\<forall>(i, item) \<in> set (b_affected b @ b_new b). item = vs_active st1 ! i"
proof -
  obtain st' b' where i: "insert_pending C vkey st = Inr (st', Some b')"
    "vs_active st' = vs_active st @ vs_pending st"
    "map fst (b_affected b') = moved_old (length (vs_active st)) (length (vs_pending st))"
    "map fst (b_unaffected b') = filter (\<lambda>i. i \<notin> set (map fst (b_affected b'))) [0..<length (vs_active st)]"
    "map fst (b_new b') = [length (vs_active st)..<length (vs_active st')]"
    "\<forall>(i, item) \<in> set (b_affected b' @ b_unaffected b' @ b_new b'). item = vs_active st' ! i"
    by (rule insert_pending_ok [OF assms(1,2), of vkey])
  have "st' = st1" "b' = b" using i(1) assms(3) by simp_all
  note i = i [unfolded this]
  show "vs_active st1 = vs_active st @ vs_pending st"
    "map fst (b_affected b) = moved_old (length (vs_active st)) (length (vs_pending st))"
    "map fst (b_unaffected b) = filter (\<lambda>i. i \<notin> set (map fst (b_affected b))) [0..<length (vs_active st)]"
    by (fact i(2), fact i(3), fact i(4))
  show "map fst (b_new b) = [length (vs_active st)..<length (vs_active st) + length (vs_pending st)]"
    using i(5) by (simp add: i(2))
  show "\<forall>(i, item) \<in> set (b_affected b @ b_new b). item = vs_active st1 ! i" using i(6) by auto
qed

text \<open>The two passes of a batch: who gets an answer, and who is left as he was.\<close>

lemma two_stores:
  fixes C :: "('f, 'vk, 'sk, 'sg, 'pf, 'gv) crypto" and st1 :: "('f, 'vk, 'sg) verifier_state"
  assumes root: "b_root b = shrubs_roots (hash2 C) (b_leaves b)" and d: "draws_ok draws"
    and snaps: "snaps_ok (vs_active st1) a" "snaps_ok (vs_active st1) w"
    and builds: "builds_succeed C vkey draws b (a @ w)" and dist: "distinct (map fst a)" "distinct (map fst w)"
    and first: "compute_store_and_send_responses C vkey b draws a st1 = Inr (st2, o1)"
    and second: "compute_store_and_send_responses C vkey b draws w st2 = Inr (st3, o4)"
    and items: "\<forall>(i, item) \<in> set (a @ w). item = vs_active st1 ! i" and j: "j < length (vs_active st1)"
  shows "j \<in> set (map fst (a @ w)) \<Longrightarrow> \<exists>r. as_response (vs_active st3 ! j) = Some r \<and>
      response_for C vkey (b_root b) (b_leaves b) (vs_active st1 ! j) r"
    and "j \<notin> set (map fst (a @ w)) \<Longrightarrow> vs_active st3 ! j = vs_active st1 ! j"
proof -
  let ?store = "\<lambda>active snaps. store_active active (map (\<lambda>(index, item).
      build_encrypted_attester_response C vkey (b_root b) (b_leaves b) (b_ctx b) (draws index) index item) snaps)"
  have bs: "builds_succeed C vkey draws b a" "builds_succeed C vkey draws b w"
    using builds by (auto simp: builds_succeed_def)
  have act: "vs_active st2 = ?store (vs_active st1) a" "vs_active st3 = ?store (vs_active st2) w"
    by (simp_all add: compute_store_active [OF first] compute_store_active [OF second])
  have keys: "map session_key (vs_active st2) = map session_key (vs_active st1)"
    by (simp add: act(1) store_active_key)
  then have j2: "j < length (vs_active st2)" using j by (metis length_map)
  note pass1 = store_snaps [OF root d snaps(1) bs(1) dist(1) j, folded act]
    and pass2 = store_snaps [OF root d snaps_ok_keys [OF snaps(2) keys] bs(2) dist(2) j2, folded act]
  have item: "(j, vs_active st1 ! j) \<in> set snaps" if "j \<in> set (map fst snaps)" "set snaps \<subseteq> set (a @ w)" for snaps
    using that items by force
  show "\<exists>r. as_response (vs_active st3 ! j) = Some r \<and>
      response_for C vkey (b_root b) (b_leaves b) (vs_active st1 ! j) r" if "j \<in> set (map fst (a @ w))"
  proof (cases "j \<in> set (map fst w)")
    case True
    then show ?thesis using pass2(2) item [of w] by simp
  next
    case False
    then show ?thesis using pass2(1) pass1(2) item [of a] that by simp
  qed
  show "vs_active st3 ! j = vs_active st1 ! j" if "j \<notin> set (map fst (a @ w))"
    using pass1(1) pass2(1) that by simp
qed

text \<open>
  C17. When all active and queued leaves are pairwise distinct and their tree has no hash collisions (no
  two nodes of a row equal, no inner node equal to a leaf), the responses of all active attesters are
  those of the current tree before a batch, and every response of the batch can be built, then so they
  are after it: the paths of affected attesters are recomputed, new attesters get theirs, and the
  paths of the others, who only receive the new public context, are still right.
\<close>
theorem batch_keeps_paths_current:
  fixes C :: "('f, 'vk, 'sk, 'sg, 'pf, 'gv) crypto" and st :: "('f, 'vk, 'sg) verifier_state"
    and vkey :: "('vk, 'sk) key_infor"
  assumes ok: "vs_ok (hash2 C) st" and d: "draws_ok draws" and cur: "responses_current C st"
    and cf: "clash_free (hash2 C) (map as_merkle_leaf (vs_active st @ vs_pending st))"
    and builds: "\<And>st1 b. insert_pending C vkey st = Inr (st1, Some b) \<Longrightarrow>
      builds_succeed C vkey draws b (b_affected b @ b_new b)"
    and run: "process_batch C vkey addrs draws st = Inr (st', outs)"
  shows "responses_current C st'"
proof (cases "vs_pending st = []")
  case True
  then have "st' = st\<lparr>vs_batch_timer_running := False\<rparr>"
    using run by (simp add: process_batch_def insert_pending_def)
  then show ?thesis using cur by (simp add: responses_current_def)
next
  case False
  let ?n = "length (vs_active st)" and ?m = "length (vs_pending st)"
  show ?thesis
  proof (rule process_batch_runs [OF ok False d, where vkey = vkey and addrs = addrs], goal_cases)
    case (1 st1 b st2 o1 st3 o4)
    have st': "st' = st3" using run 1(8) by simp
    have i: "vs_active st1 = vs_active st @ vs_pending st" "map fst (b_affected b) = moved_old ?n ?m"
      "map fst (b_unaffected b) = filter (\<lambda>i. i \<notin> set (map fst (b_affected b))) [0..<?n]"
      "map fst (b_new b) = [?n..<?n + ?m]" "\<forall>(i, item) \<in> set (b_affected b @ b_new b). item = vs_active st1 ! i"
      by (rule inserted_batch [OF ok False 1(1)])+
    note dist = snapshots_distinct [OF i(2-4)]
    have b: "b_root b = shrubs_roots (hash2 C) (b_leaves b)" "snaps_ok (vs_active st1) (b_affected b)"
      "snaps_ok (vs_active st1) (b_new b)"
      using 1(3) by (auto simp: batch_ok_def snaps_ok_def)
    note stores = two_stores [OF b(1) d b(2,3) builds [OF 1(1)] dist(1,2) 1(4,5) i(5)]
    show ?case
      unfolding responses_current_def st'
    proof (intro allI impI)
      fix j assume "j < length (vs_active st3)"
      then have j: "j < length (vs_active st1)" using 1(7) i(1) by (metis length_map)
      have leaf: "as_merkle_leaf (vs_active st3 ! j) = as_merkle_leaf (vs_active st1 ! j)"
        using session_keys_nth [OF 1(7), of j] j by (simp add: i(1) session_key_def)
      show "\<exists>r. as_response (vs_active st3 ! j) = Some r \<and>
          find_device_shrubs_path_tag (hash2 C) (vs_root st3) (vs_old_leaves st3)
            (as_merkle_leaf (vs_active st3 ! j)) = Inr (rdi_shrubs_path r, rdi_shrubs_tag r)"
      proof (cases "j \<in> set (map fst (b_affected b @ b_new b))")
        case True
        then show ?thesis using stores(1) [OF j] leaf 1(11,12) by (auto simp: response_for_def)
      next
        case False
        then have jn: "j < ?n" "j \<notin> set (moved_old ?n ?m)" using dist(4) i(1,2) j by auto
        then have "vs_active st3 ! j = vs_active st ! j" using stores(2) [OF j False] by (simp add: i(1) nth_append)
        then show ?thesis
          using cur jn(1) untouched_response_current [OF ok 1(6,7) cf jn] by (auto simp: responses_current_def)
      qed
    qed
  qed
qed

lemma toy_encrypts:
  "is_ok (encode_encrypted_verifier_response toy_crypto eph nonce r ctx pk)"
proof -
  note scal = toy_encode_scalar
  have "is_ok (encode_response_device_infor toy_crypto r)"
    by (cases "rdi_shrubs_path r")
       (simp_all add: encode_response_device_infor_def response_device_infor_to_wire_def
        encode_response_device_infor_wire_def scal traverse_Inr)
  moreover have "is_ok (encode_public_context toy_crypto ctx)" by (rule toy_context_encodes)
  ultimately obtain a c where "encode_response_device_infor toy_crypto r = Inr a"
    "encode_public_context toy_crypto ctx = Inr c" by (auto simp: is_ok_iff)
  then show ?thesis
    by (simp add: encode_encrypted_verifier_response_def encode_verifier_response_def
        encrypt_for_device_pubkey_def derive_aes_key_def encode_encrypted_message_def)
       (simp add: toy_crypto_def encode_encrypted_message_def)
qed

lemma toy_builds:
  assumes "batch_ok toy_crypto vkey st b" "draws_ok draws" "set snaps \<subseteq> set (b_affected b @ b_unaffected b @ b_new b)"
  shows "builds_succeed toy_crypto vkey draws b snaps"
  unfolding builds_succeed_def
proof (clarify)
  fix i item assume m: "(i, item) \<in> set snaps"
  have root: "b_root b = shrubs_roots (hash2 toy_crypto) (b_leaves b)" using assms(1) by (simp add: batch_ok_def)
  have keeps: "\<forall>(i, item) \<in> set snaps. keeps_key item"
    using assms(1,3) by (auto simp: batch_ok_def snaps_ok_def)
  obtain t eph nonce r where "draws i = (Some t, eph, nonce)"
    "response_for toy_crypto vkey (b_root b) (b_leaves b) item r" and
    run: "build_encrypted_attester_response toy_crypto vkey (b_root b) (b_leaves b) (b_ctx b) (draws i) i item =
      and_then (encode_encrypted_verifier_response toy_crypto eph nonce r (b_ctx b) (dci_verifying_key (as_dev_infor item)))
        (\<lambda>enc. Inr \<lparr>cr_index = i, cr_socket = as_socket item, cr_attester_addr = as_attester_addr item,
                 cr_response = r, cr_encrypted = enc\<rparr>)"
    by (rule build_all [where b = b and vkey = vkey, OF root assms(2) m keeps])
  show "is_ok (build_encrypted_attester_response toy_crypto vkey (b_root b) (b_leaves b) (b_ctx b) (draws i) i item)"
    using toy_encrypts [of eph nonce r "b_ctx b" "dci_verifying_key (as_dev_infor item)"]
    by (auto simp: run is_ok_iff)
qed

theorem batch_keeps_paths_current_witness:
  "\<exists>st' outs. process_batch toy_crypto toy_vkey [''rp''] toy_draws toy_state = Inr (st', outs) \<and>
     length (vs_active st') = 2 \<and> responses_current toy_crypto st'"
proof -
  let ?C = toy_crypto
  have ok: "vs_ok (hash2 ?C) toy_state" by (rule toy_state_ok)
  have pend: "vs_pending toy_state \<noteq> []" and act: "vs_active toy_state = []" and two: "length (vs_pending toy_state) = 2"
    and leaves: "map as_merkle_leaf (vs_active toy_state @ vs_pending toy_state) = [7, 9]"
    by (simp_all add: toy_state_def queue_attester_def verifier_state_new_def toy_dev_def Let_def)
  have cf: "clash_free (hash2 ?C) (map as_merkle_leaf (vs_active toy_state @ vs_pending toy_state))"
    unfolding leaves by (simp add: clash_free_def toy_crypto_def upt_rec)
  have cur: "responses_current ?C toy_state" by (simp add: responses_current_def act)
  have builds: "builds_succeed ?C toy_vkey toy_draws b (b_affected b @ b_new b)"
    if run: "insert_pending ?C toy_vkey toy_state = Inr (st1, Some b)" for st1 b
  proof -
    obtain st1' b' where "insert_pending ?C toy_vkey toy_state = Inr (st1', Some b')" "batch_ok ?C toy_vkey st1' b'"
      by (rule insert_pending_ok [OF ok pend, of toy_vkey])
    then have "batch_ok ?C toy_vkey st1 b" using run by simp
    then show ?thesis by (rule toy_builds [OF _ toy_draws_ok]) auto
  qed
  show ?thesis
  proof (rule process_batch_runs [OF ok pend toy_draws_ok, where vkey = toy_vkey and addrs = "[''rp'']"], goal_cases)
    case (1 st1 b st2 o1 st3 o4)
    have "length (vs_active st3) = 2"
      using arg_cong [OF 1(7), of length] two by (simp add: act)
    moreover have "responses_current ?C st3"
      by (rule batch_keeps_paths_current [OF ok toy_draws_ok cur cf builds 1(8)])
    ultimately show ?case using 1(8) by blast
  qed
qed

end
