(* ===== verification/Tasks.thy ===== *)
theory Tasks
  imports Main "HOL-Library.Multiset"
begin

text \<open>
  Concurrent tasks over shared state. A pool is the state, the tasks with what each still has to do,
  and what was emitted; any task may take the next step.

  \<open>task_contract\<close> states what a task owes to the tasks it runs beside: it keeps the invariant, lets
  the state only grow, and comes nearer to its end. The lemmas inside hold for every number of such
  tasks in every order.
\<close>

section \<open>Pools of tasks\<close>

inductive pool_step ::
  "('s \<Rightarrow> 'j \<Rightarrow> 's \<Rightarrow> 'j \<Rightarrow> 'o list \<Rightarrow> bool) \<Rightarrow> 's \<times> 'j list \<times> 'o list \<Rightarrow> 's \<times> 'j list \<times> 'o list \<Rightarrow> bool"
  for run where
  "i < length js \<Longrightarrow> run s (js ! i) s' j' outs \<Longrightarrow>
   pool_step run (s, js, log) (s', js[i := j'], log @ outs)"

inductive_cases pool_stepE: "pool_step run (s, js, log) d'"

definition pool_ok ::
  "('s \<Rightarrow> bool) \<Rightarrow> ('s \<Rightarrow> 'j \<Rightarrow> bool) \<Rightarrow> ('s \<Rightarrow> 'o \<Rightarrow> bool) \<Rightarrow> 's \<times> 'j list \<times> 'o list \<Rightarrow> bool" where
  "pool_ok good job_ok sound d \<longleftrightarrow> (case d of (s, js, log) \<Rightarrow>
     good s \<and> (\<forall>j\<in>set js. job_ok s j) \<and> (\<forall>out\<in>set log. sound s out))"

definition rank_order :: "((nat \<times> nat) \<times> nat \<times> nat) set" where
  "rank_order = less_than <*lex*> less_than"

locale task_contract =
  fixes run :: "'s \<Rightarrow> 'j \<Rightarrow> 's \<Rightarrow> 'j \<Rightarrow> 'o list \<Rightarrow> bool"
    and good :: "'s \<Rightarrow> bool" and job_ok :: "'s \<Rightarrow> 'j \<Rightarrow> bool" and sound :: "'s \<Rightarrow> 'o \<Rightarrow> bool"
    and grows :: "'s \<Rightarrow> 's \<Rightarrow> bool" and rank :: "'j \<Rightarrow> nat \<times> nat"
  assumes run_ok: "good s \<Longrightarrow> job_ok s j \<Longrightarrow> run s j s' j' outs \<Longrightarrow>
      good s' \<and> grows s s' \<and> job_ok s' j' \<and> (\<forall>out\<in>set outs. sound s' out)"
    and job_ok_grows: "grows s s' \<Longrightarrow> job_ok s j \<Longrightarrow> job_ok s' j"
    and sound_grows: "grows s s' \<Longrightarrow> sound s out \<Longrightarrow> sound s' out"
    and run_rank: "run s j s' j' outs \<Longrightarrow> (rank j', rank j) \<in> rank_order"
begin

lemma pool_ok_step:
  assumes "pool_ok good job_ok sound d" "pool_step run d d'"
  shows "pool_ok good job_ok sound d' \<and> grows (fst d) (fst d')"
  using assms(2,1)
proof cases
  case (1 i js s s' j' outs log)
  have "good s' \<and> grows s s' \<and> job_ok s' j' \<and> (\<forall>out\<in>set outs. sound s' out)"
    using assms(1) 1 by (intro run_ok [of s "js ! i"]) (auto simp: pool_ok_def)
  then show ?thesis
    using assms(1) 1 by (auto simp: pool_ok_def intro: job_ok_grows sound_grows dest: set_update_subset_insert [THEN subsetD])
qed

lemma pool_grow:
  assumes "pool_ok good job_ok sound (s, js, log)" "good s'" "grows s s'" "\<forall>j\<in>set js'. job_ok s' j"
  shows "pool_ok good job_ok sound (s', js @ js', log)"
  using assms by (auto simp: pool_ok_def intro: job_ok_grows sound_grows)

lemma pool_step_rank:
  assumes "pool_step run d d'"
  shows "(image_mset rank (mset (fst (snd d'))), image_mset rank (mset (fst (snd d)))) \<in> mult rank_order"
  using assms
proof cases
  case (1 i js s s' j' outs log)
  have "mset js = add_mset (js ! i) (mset js - {#js ! i#})" using 1(3) by simp
  moreover have "mset (js[i := j']) = add_mset j' (mset js - {#js ! i#})" using 1(3) by (simp add: mset_update)
  ultimately have "(image_mset rank (mset (js[i := j'])), image_mset rank (mset js)) \<in> mult1 rank_order"
    using run_rank [OF 1(4)]
    by (intro mult1I [where a = "rank (js ! i)" and K = "{#rank j'#}"
          and ?M0.0 = "image_mset rank (mset js - {#js ! i#})"]) (simp_all add: image_mset_add_mset [symmetric] del: image_mset_add_mset)
  then show ?thesis by (simp add: 1(1,2) mult_def)
qed

lemma pool_terminates: "wfp (\<lambda>d' d. pool_step run d d')"
proof -
  have "wf rank_order" by (simp add: rank_order_def wf_lex_prod)
  then have "wf (inv_image (mult rank_order) (\<lambda>d. image_mset rank (mset (fst (snd d)))))"
    by (intro wf_inv_image wf_mult)
  then have "wf {(d', d). pool_step run d d'}"
    by (rule wf_subset) (use pool_step_rank in \<open>force simp: inv_image_def\<close>)
  then show ?thesis by (simp add: wfp_def)
qed

lemma pool_runs_to_end: "\<exists>d'. (pool_step run)\<^sup>*\<^sup>* d d' \<and> (\<nexists>d''. pool_step run d' d'')"
  using pool_terminates
proof (induction d rule: wfp_induct_rule)
  case (less d)
  show ?case
  proof (cases "\<exists>d'. pool_step run d d'")
    case True
    then obtain e where "pool_step run d e" by blast
    with less(1) [OF this] show ?thesis by (meson converse_rtranclp_into_rtranclp)
  qed blast
qed

lemma pool_length:
  "(pool_step run)\<^sup>*\<^sup>* d d' \<Longrightarrow> length (fst (snd d')) = length (fst (snd d))"
  by (induction rule: rtranclp_induct) (auto elim: pool_step.cases)

end

end
