(* ===== verification/DaemonSteps.thy ===== *)
theory DaemonSteps
  imports DaemonProps Tasks
begin

text \<open>
  Every interleaving of the hydra daemon's tasks. A connection task queues a submission in one
  critical section. A timer task is cut where the code gives up the state lock or awaits a socket:
  insertion, the store of one set of responses, and every single send are steps of their own.

  \<^item> The timer tasks keep the contract of \<open>task_contract\<close>, so that its pool lemmas hold for them.
  \<^item> A task whose computation panics would become \<open>Dead\<close>; the invariant excludes it.
\<close>

section \<open>The daemon's tasks\<close>

text \<open>
  What a timer task still has to do: the body of \<open>process_batch\<close> after the sleep, cut at its lock
  releases and sends. \<open>Emit outs k\<close> sends \<open>outs\<close> one by one and goes on with \<open>k\<close>.
\<close>

datatype ('f, 'vk, 'sg) job =
    Timer
  | AnswerOld "('f, 'vk, 'sg) batch"
  | AnswerNew "('f, 'vk, 'sg) batch"
  | Emit "outcome list" "('f, 'vk, 'sg) job"
  | Done
  | Dead failure

fun finished :: "('f, 'vk, 'sg) job \<Rightarrow> bool" where
  "finished Done = True"
| "finished (Dead e) = True"
| "finished _ = False"

fun is_timer :: "('f, 'vk, 'sg) job \<Rightarrow> bool" where
  "is_timer Timer = True"
| "is_timer _ = False"

fun is_write :: "outcome \<Rightarrow> bool" where
  "is_write (Persist f b) = True"
| "is_write _ = False"

text \<open>Files are written under the lock, sockets are written after it is released.\<close>

definition answer_job where
  "answer_job C vkey draws b snaps st k =
     (case compute_store_and_send_responses C vkey b draws snaps st of
        Inl e \<Rightarrow> (st, Dead e, [])
      | Inr (st', outs) \<Rightarrow> (st', Emit (filter (\<lambda>out. \<not> is_write out) outs) k, filter is_write outs))"

fun run_job where
  "run_job C vkey addrs draws st Timer =
     (case insert_pending C vkey st of
        Inl e \<Rightarrow> (st, Dead e, [])
      | Inr (st', None) \<Rightarrow> (st', Done, [])
      | Inr (st', Some b) \<Rightarrow> (st', AnswerOld b, []))"
| "run_job C vkey addrs draws st (AnswerOld b) =
     answer_job C vkey draws b (b_affected b) st
       (Emit (send_context_only_refreshes C (b_unaffected b) (b_ctx b) @
              publish_public_context_to_all C addrs (b_ctx b)) (AnswerNew b))"
| "run_job C vkey addrs draws st (AnswerNew b) = answer_job C vkey draws b (b_new b) st Done"
| "run_job C vkey addrs draws st (Emit [] k) = (st, k, [])"
| "run_job C vkey addrs draws st (Emit (out # outs) k) = (st, Emit outs k, [out])"
| "run_job C vkey addrs draws st k = (st, k, [])"

text \<open>One step of a task: its draws may be anything once the clock is past the epoch.\<close>

inductive task_runs ::
  "('f, 'vk, 'sk, 'sg, 'pf, 'gv) crypto \<Rightarrow> ('vk, 'sk) key_infor \<Rightarrow> string list \<Rightarrow> ('f, 'vk, 'sg) verifier_state \<Rightarrow> ('f, 'vk, 'sg) job
    \<Rightarrow> ('f, 'vk, 'sg) verifier_state \<Rightarrow> ('f, 'vk, 'sg) job \<Rightarrow> outcome list \<Rightarrow> bool"
  for C vkey addrs where
  "\<not> finished j \<Longrightarrow> draws_ok draws \<Longrightarrow> run_job C vkey addrs draws st j = (st', j', outs) \<Longrightarrow>
   task_runs C vkey addrs st j st' j' outs"

text \<open>
  The whole daemon: submissions and task steps in any order. A submission needs room for one more
  session in memory.
\<close>

inductive daemon_step ::
  "('f, 'vk, 'sk, 'sg, 'pf, 'gv) crypto \<Rightarrow> ('vk, 'sk) key_infor \<Rightarrow> string list \<Rightarrow> ('f, 'vk, 'sg) verifier_state \<times> ('f, 'vk, 'sg) job list \<times> outcome list
    \<Rightarrow> ('f, 'vk, 'sg) verifier_state \<times> ('f, 'vk, 'sg) job list \<times> outcome list \<Rightarrow> bool"
  for C vkey addrs where
  submit: "handle_request C now frame socket addr st = Inr (st', spawn) \<Longrightarrow>
     length (vs_active st) + length (vs_pending st) < isize_max \<Longrightarrow>
     daemon_step C vkey addrs (st, jobs, log) (st', jobs @ (if spawn then [Timer] else []), log)"
| work: "pool_step (task_runs C vkey addrs) d d' \<Longrightarrow> daemon_step C vkey addrs d d'"

inductive reachable ::
  "('f, 'vk, 'sk, 'sg, 'pf, 'gv) crypto \<Rightarrow> ('vk, 'sk) key_infor \<Rightarrow> string list \<Rightarrow> ('f, 'vk, 'sg) verifier_state \<times> ('f, 'vk, 'sg) job list \<times> outcome list \<Rightarrow> bool"
  for C vkey addrs where
  start: "reachable C vkey addrs (verifier_state_new, [], [])"
| step: "reachable C vkey addrs d \<Longrightarrow> daemon_step C vkey addrs d d' \<Longrightarrow> reachable C vkey addrs d'"

section \<open>The contract of a timer task\<close>

text \<open>The tree of a message: a prefix of the leaves in arrival order.\<close>

definition tree_of ::
  "('f, 'vk, 'sk, 'sg, 'pf, 'gv) crypto \<Rightarrow> ('f, 'vk, 'sg) verifier_state \<Rightarrow> 'f list \<Rightarrow> 'f list \<Rightarrow> bool" where
  "tree_of C st leaves root \<longleftrightarrow>
     (\<exists>n \<le> length (vs_old_leaves st). leaves = take n (vs_old_leaves st)) \<and>
     root = create_batch_devices (hash2 C) [] leaves"

text \<open>
  What may be sent: an encrypted answer to a session of the daemon, with the path of its leaf in
  such a tree and the verifier's signature, or the public context of such a tree.
\<close>

definition sound_message ::
  "('f, 'vk, 'sk, 'sg, 'pf, 'gv) crypto \<Rightarrow> ('vk, 'sk) key_infor \<Rightarrow> ('f, 'vk, 'sg) verifier_state \<Rightarrow> outcome \<Rightarrow> bool" where
  "sound_message C vkey st out \<longleftrightarrow> is_write out \<or>
     (\<exists>b snaps. tree_of C st (b_leaves b) (b_root b) \<and> snaps_ok (vs_active st) snaps \<and>
        b_ctx b = \<lparr>pc_root = b_root b, pc_verifier_pk = verifying_key vkey\<rparr> \<and>
        answers C vkey b snaps out) \<or>
     (\<exists>leaves root m. tree_of C st leaves root \<and>
        encode_public_context_message C \<lparr>pc_root = root, pc_verifier_pk = verifying_key vkey\<rparr> = Inr m \<and>
        (\<exists>to. out = ToAttester to (tcp_send_frame m) \<or> (\<exists>addr. out = ToRelyingParty addr (tcp_send_frame m))))"

fun job_ok ::
  "('f, 'vk, 'sk, 'sg, 'pf, 'gv) crypto \<Rightarrow> ('vk, 'sk) key_infor \<Rightarrow> ('f, 'vk, 'sg) verifier_state \<Rightarrow> ('f, 'vk, 'sg) job \<Rightarrow> bool" where
  "job_ok C vkey st Timer = True"
| "job_ok C vkey st (AnswerOld b) = batch_ok C vkey st b"
| "job_ok C vkey st (AnswerNew b) = batch_ok C vkey st b"
| "job_ok C vkey st (Emit outs k) = ((\<forall>out\<in>set outs. sound_message C vkey st out) \<and> \<not> is_timer k \<and> job_ok C vkey st k)"
| "job_ok C vkey st Done = True"
| "job_ok C vkey st (Dead e) = False"

definition state_grows ::
  "('f, 'vk, 'sg) verifier_state \<Rightarrow> ('f, 'vk, 'sg) verifier_state \<Rightarrow> bool" where
  "state_grows st st' \<longleftrightarrow>
     (\<exists>ls. vs_old_leaves st' = vs_old_leaves st @ ls) \<and>
     (\<exists>ss. map session_key (vs_active st') = map session_key (vs_active st) @ ss)"

fun phase :: "('f, 'vk, 'sg) job \<Rightarrow> nat" where
  "phase Timer = 6"
| "phase (AnswerOld b) = 5"
| "phase (Emit outs k) = Suc (phase k)"
| "phase (AnswerNew b) = 2"
| "phase _ = 0"

fun to_send :: "('f, 'vk, 'sg) job \<Rightarrow> nat" where
  "to_send (Emit outs k) = length outs"
| "to_send _ = 0"

lemma snaps_ok_keys_append:
  assumes "snaps_ok active snaps" "map session_key active' = map session_key active @ ss"
  shows "snaps_ok active' snaps"
proof -
  have "i < length active' \<and> session_key (active' ! i) = session_key (active ! i)" if "i < length active" for i
  proof -
    have "length active' = length active + length ss" using arg_cong [OF assms(2), of length] by simp
    moreover have "map session_key active' ! i = map session_key active ! i"
      using assms(2) that by (simp add: nth_append)
    ultimately show ?thesis using that by simp
  qed
  then show ?thesis using assms(1) by (fastforce simp: snaps_ok_def)
qed

lemma tree_of_grows: "state_grows st st' \<Longrightarrow> tree_of C st leaves root \<Longrightarrow> tree_of C st' leaves root"
  unfolding tree_of_def state_grows_def by (metis le_add1 le_trans length_append take_append diff_is_0_eq take0 append_Nil2)

lemma sound_message_grows:
  assumes "state_grows st st'" "sound_message C vkey st out"
  shows "sound_message C vkey st' out"
proof -
  have "snaps_ok (vs_active st') snaps" if "snaps_ok (vs_active st) snaps" for snaps
    using that assms(1) by (auto simp: state_grows_def intro: snaps_ok_keys_append)
  then show ?thesis
    using assms(2) tree_of_grows [OF assms(1)] unfolding sound_message_def by metis
qed

lemma batch_ok_grows:
  fixes C :: "('f, 'vk, 'sk, 'sg, 'pf, 'gv) crypto" and st :: "('f, 'vk, 'sg) verifier_state"
    and vkey :: "('vk, 'sk) key_infor"
  assumes "state_grows st st'" "batch_ok C vkey st b"
  shows "batch_ok C vkey st' b"
proof -
  have tree: "tree_of C st (b_leaves b) (b_root b)"
    using assms(2) by (simp add: batch_ok_def tree_of_def shrubs_roots_def)
  from tree_of_grows [OF assms(1) this] have "\<exists>n \<le> length (vs_old_leaves st'). b_leaves b = take n (vs_old_leaves st')"
    by (simp add: tree_of_def)
  moreover have "snaps_ok (vs_active st') (b_affected b @ b_unaffected b @ b_new b)"
    using assms by (auto simp: state_grows_def batch_ok_def intro: snaps_ok_keys_append)
  ultimately show ?thesis using assms(2) by (simp add: batch_ok_def)
qed

lemma job_ok_grows: "state_grows st st' \<Longrightarrow> job_ok C vkey st j \<Longrightarrow> job_ok C vkey st' j"
  by (induction C vkey st j rule: job_ok.induct) (auto intro: batch_ok_grows sound_message_grows)

lemma state_grows_refl: "state_grows st st"
  by (simp add: state_grows_def)

lemma insert_pending_grows:
  fixes C :: "('f, 'vk, 'sk, 'sg, 'pf, 'gv) crypto" and st :: "('f, 'vk, 'sg) verifier_state"
    and vkey :: "('vk, 'sk) key_infor"
  assumes ok: "vs_ok (hash2 C) st"
  shows "(insert_pending C vkey st = Inr (st\<lparr>vs_batch_timer_running := False\<rparr>, None) \<and> vs_pending st = []) \<or>
    (\<exists>st' b. insert_pending C vkey st = Inr (st', Some b) \<and> vs_ok (hash2 C) st' \<and>
       batch_ok C vkey st' b \<and> state_grows st st' \<and> vs_pending st' = [] \<and> \<not> vs_batch_timer_running st' \<and>
       vs_active st' = vs_active st @ vs_pending st)"
proof (cases "vs_pending st = []")
  case True
  then show ?thesis by (simp add: insert_pending_def)
next
  case False
  show ?thesis
  proof (rule insert_pending_ok [OF ok False, of vkey], goal_cases)
    case (1 st' b)
    have "state_grows st st'" using ok 1(2,4) by (simp add: state_grows_def vs_ok_def)
    then show ?case using 1 by blast
  qed
qed

lemma answer_job_ok:
  fixes C :: "('f, 'vk, 'sk, 'sg, 'pf, 'gv) crypto" and st :: "('f, 'vk, 'sg) verifier_state"
    and vkey :: "('vk, 'sk) key_infor" and b :: "('f, 'vk, 'sg) batch"
    and snaps :: "('f, 'vk, 'sg) snapshot list"
  assumes ok: "vs_ok (hash2 C) st" and b: "batch_ok C vkey st b" and d: "draws_ok draws"
    and sub: "set snaps \<subseteq> set (b_affected b @ b_unaffected b @ b_new b)"
    and run: "answer_job C vkey draws b snaps st k = (st', j', outs)"
  shows "vs_ok (hash2 C) st' \<and> state_grows st st' \<and> (\<exists>sends. j' = Emit sends k \<and>
      (\<forall>out\<in>set sends. sound_message C vkey st' out)) \<and> (\<forall>out\<in>set outs. is_write out) \<and>
    vs_pending st' = vs_pending st \<and> vs_batch_timer_running st' = vs_batch_timer_running st \<and>
    map session_key (vs_active st') = map session_key (vs_active st)"
proof -
  have root: "b_root b = shrubs_roots (hash2 C) (b_leaves b)" using b by (simp add: batch_ok_def)
  have snaps: "snaps_ok (vs_active st) snaps" using b sub by (auto simp: batch_ok_def snaps_ok_def)
  show ?thesis
  proof (rule compute_runs [OF root d snaps ok, of vkey], goal_cases)
    case (1 st1 outs1)
    have grows: "state_grows st st1" by (subst 1(4)) (simp add: state_grows_def 1(3) [unfolded 1(4)] store_active_key)
    from batch_ok_grows [OF this b] have b1: "batch_ok C vkey st1 b" .
    have snaps1: "snaps_ok (vs_active st1) snaps" by (rule snaps_ok_keys [OF snaps 1(3)])
    have "sound_message C vkey st1 out" if "out \<in> set outs1" "\<not> is_write out" for out
    proof -
      have "answers C vkey b snaps out" using 1(5) that by fastforce
      moreover have "tree_of C st1 (b_leaves b) (b_root b)"
        using b1 by (simp add: batch_ok_def tree_of_def shrubs_roots_def)
      ultimately show ?thesis using b1 snaps1 unfolding sound_message_def batch_ok_def by metis
    qed
    moreover have "vs_pending st1 = vs_pending st" "vs_batch_timer_running st1 = vs_batch_timer_running st"
      by (subst 1(4), simp)+
    ultimately show ?case using run 1(1-3) grows by (auto simp: answer_job_def)
  qed
qed

lemma context_messages_sound:
  fixes C :: "('f, 'vk, 'sk, 'sg, 'pf, 'gv) crypto" and st :: "('f, 'vk, 'sg) verifier_state"
    and vkey :: "('vk, 'sk) key_infor"
  assumes b: "batch_ok C vkey st b"
    and out: "out \<in> set (send_context_only_refreshes C snaps (b_ctx b) @
      publish_public_context_to_all C addrs (b_ctx b))"
  shows "sound_message C vkey st out"
proof -
  have tree: "tree_of C st (b_leaves b) (b_root b)"
    using b by (simp add: batch_ok_def tree_of_def shrubs_roots_def)
  have ctx: "b_ctx b = \<lparr>pc_root = b_root b, pc_verifier_pk = verifying_key vkey\<rparr>"
    using b by (simp add: batch_ok_def)
  obtain m where m: "encode_public_context_message C (b_ctx b) = Inr m"
    "\<exists>to. out = ToAttester to (tcp_send_frame m) \<or> (\<exists>addr. out = ToRelyingParty addr (tcp_send_frame m))"
    using out by (cases "encode_public_context_message C (b_ctx b)")
      (auto simp: send_context_only_refreshes_def publish_public_context_to_all_def split: if_splits)
  then show ?thesis using tree unfolding sound_message_def ctx by blast
qed

lemma task_ok:
  fixes C :: "('f, 'vk, 'sk, 'sg, 'pf, 'gv) crypto" and st :: "('f, 'vk, 'sg) verifier_state"
    and vkey :: "('vk, 'sk) key_infor"
  assumes ok: "vs_ok (hash2 C) st" and j: "job_ok C vkey st j" and run: "task_runs C vkey addrs st j st' j' outs"
  shows "vs_ok (hash2 C) st' \<and> state_grows st st' \<and> job_ok C vkey st' j' \<and>
    (\<forall>out\<in>set outs. sound_message C vkey st' out) \<and> \<not> is_timer j' \<and>
    map session_key (vs_active st' @ vs_pending st') = map session_key (vs_active st @ vs_pending st) \<and>
    (if is_timer j then vs_pending st' = [] \<and> \<not> vs_batch_timer_running st'
     else vs_pending st' = vs_pending st \<and> vs_batch_timer_running st' = vs_batch_timer_running st)"
  using run
proof cases
  case (1 draws)
  show ?thesis
  proof (cases j)
    case Timer
    then show ?thesis
      using insert_pending_grows [OF ok, of vkey] 1(3) ok
      by (auto simp: state_grows_def vs_ok_def)
  next
    case (AnswerOld b)
    let ?k = "Emit (send_context_only_refreshes C (b_unaffected b) (b_ctx b) @
        publish_public_context_to_all C addrs (b_ctx b)) (AnswerNew b)"
    have b: "batch_ok C vkey st b" using j AnswerOld by simp
    have "answer_job C vkey draws b (b_affected b) st ?k = (st', j', outs)" using 1(3) AnswerOld by simp
    from answer_job_ok [OF ok b 1(2) _ this]
    have ans: "vs_ok (hash2 C) st'" "state_grows st st'" "\<exists>sends. j' = Emit sends ?k \<and>
        (\<forall>out\<in>set sends. sound_message C vkey st' out)" "\<forall>out\<in>set outs. is_write out"
      "vs_pending st' = vs_pending st" "vs_batch_timer_running st' = vs_batch_timer_running st"
      "map session_key (vs_active st') = map session_key (vs_active st)" by auto
    have b': "batch_ok C vkey st' b" by (rule batch_ok_grows [OF ans(2) b])
    then have "job_ok C vkey st' ?k" using context_messages_sound [OF b'] by auto
    then show ?thesis using ans AnswerOld by (auto simp: sound_message_def)
  next
    case (AnswerNew b)
    have b: "batch_ok C vkey st b" using j AnswerNew by simp
    have "answer_job C vkey draws b (b_new b) st Done = (st', j', outs)" using 1(3) AnswerNew by simp
    from answer_job_ok [OF ok b 1(2) _ this]
    have ans: "vs_ok (hash2 C) st'" "state_grows st st'" "\<exists>sends. j' = Emit sends Done \<and>
        (\<forall>out\<in>set sends. sound_message C vkey st' out)" "\<forall>out\<in>set outs. is_write out"
      "vs_pending st' = vs_pending st" "vs_batch_timer_running st' = vs_batch_timer_running st"
      "map session_key (vs_active st') = map session_key (vs_active st)" by auto
    then show ?thesis using AnswerNew by (auto simp: sound_message_def)
  next
    case (Emit os k)
    then show ?thesis using 1(3) j ok state_grows_refl by (cases os) auto
  qed (use 1(1) in auto)
qed

lemma task_rank:
  assumes "task_runs C vkey addrs st j st' j' outs"
  shows "((phase j', to_send j'), (phase j, to_send j)) \<in> rank_order"
  using assms
proof cases
  case (1 draws)
  show ?thesis
  proof (cases j)
    case (Emit os k)
    then show ?thesis using 1(3) by (cases os) (auto simp: rank_order_def)
  qed (use 1 in \<open>auto simp: rank_order_def answer_job_def split: sum.splits option.splits prod.splits\<close>)
qed

interpretation timer_tasks: task_contract "task_runs C vkey addrs" "vs_ok (hash2 C)" "job_ok C vkey"
  "sound_message C vkey" state_grows "\<lambda>j. (phase j, to_send j)"
  for C :: "('f, 'vk, 'sk, 'sg, 'pf, 'gv) crypto" and vkey :: "('vk, 'sk) key_infor" and addrs :: "string list"
proof
  show "vs_ok (hash2 C) s \<Longrightarrow> job_ok C vkey s j \<Longrightarrow> task_runs C vkey addrs s j s' j' outs \<Longrightarrow>
      vs_ok (hash2 C) s' \<and> state_grows s s' \<and> job_ok C vkey s' j' \<and> (\<forall>out\<in>set outs. sound_message C vkey s' out)"
    for s j s' j' outs using task_ok by blast
qed (rule job_ok_grows sound_message_grows task_rank; assumption)+

section \<open>Reachable states\<close>

definition daemon_ok ::
  "('f, 'vk, 'sk, 'sg, 'pf, 'gv) crypto \<Rightarrow> ('vk, 'sk) key_infor \<Rightarrow> ('f, 'vk, 'sg) verifier_state \<times> ('f, 'vk, 'sg) job list \<times> outcome list \<Rightarrow> bool" where
  "daemon_ok C vkey d \<longleftrightarrow> (case d of (st, jobs, log) \<Rightarrow>
     pool_ok (vs_ok (hash2 C)) (job_ok C vkey) (sound_message C vkey) d \<and>
     length (filter is_timer jobs) = (if vs_batch_timer_running st then 1 else 0))"

lemma handle_request_queues:
  assumes "handle_request C now frame socket addr st = Inr (st', spawn)"
  obtains dev where "queue_attester socket dev addr st = (st', spawn)"
  using assms by (auto simp: handle_request_def res_simps split: if_splits)

lemma queue_grows:
  assumes "queue_attester socket dev addr st = (st', spawn)"
  shows "state_grows st st'"
  using assms by (auto simp: queue_attester_def state_grows_def Let_def split: if_splits)

lemma timer_count:
  assumes "i < length jobs"
  shows "length (filter is_timer (jobs[i := j'])) + (if is_timer (jobs ! i) then 1 else 0) =
    length (filter is_timer jobs) + (if is_timer j' then 1 else 0)"
  using assms
proof (induction jobs arbitrary: i)
  case (Cons j jobs)
  then show ?case by (cases i) auto
qed simp

lemma work_keeps_daemon_ok:
  fixes C :: "('f, 'vk, 'sk, 'sg, 'pf, 'gv) crypto" and vkey :: "('vk, 'sk) key_infor"
  assumes ok: "daemon_ok C vkey (st, jobs, log)" and work: "pool_step (task_runs C vkey addrs) (st, jobs, log) (st', jobs', log')"
  shows "daemon_ok C vkey (st', jobs', log') \<and>
    map session_key (vs_active st' @ vs_pending st') = map session_key (vs_active st @ vs_pending st)"
proof -
  have pool: "pool_ok (vs_ok (hash2 C)) (job_ok C vkey) (sound_message C vkey) (st, jobs, log)" using ok by (simp add: daemon_ok_def)
  from work obtain i j' outs where i: "i < length jobs" "task_runs C vkey addrs st (jobs ! i) st' j' outs"
    "jobs' = jobs[i := j']"
    by (auto elim: pool_stepE)
  have "vs_ok (hash2 C) st" "job_ok C vkey st (jobs ! i)" using pool i(1) by (auto simp: pool_ok_def)
  from task_ok [OF this i(2)]
  have t: "\<not> is_timer j'"
    "map session_key (vs_active st' @ vs_pending st') = map session_key (vs_active st @ vs_pending st)"
    "if is_timer (jobs ! i) then vs_pending st' = [] \<and> \<not> vs_batch_timer_running st'
     else vs_pending st' = vs_pending st \<and> vs_batch_timer_running st' = vs_batch_timer_running st"
    by blast+
  have "0 < length (filter is_timer jobs)" if "is_timer (jobs ! i)"
    using that i(1) by (auto simp: filter_empty_conv)
  then have "length (filter is_timer jobs') = (if vs_batch_timer_running st' then 1 else 0)"
    using timer_count [OF i(1), of j'] t(1,3) ok i(3) by (auto simp: daemon_ok_def split: if_splits)
  then show ?thesis
    using timer_tasks.pool_ok_step [OF pool work] t(2) by (simp add: daemon_ok_def)
qed

lemma submit_keeps_daemon_ok:
  assumes ok: "daemon_ok C vkey (st, jobs, log)" and req: "handle_request C now frame socket addr st = Inr (st', spawn)"
    and room: "length (vs_active st) + length (vs_pending st) < isize_max"
  shows "daemon_ok C vkey (st', jobs @ (if spawn then [Timer] else []), log)"
proof -
  obtain dev where q: "queue_attester socket dev addr st = (st', spawn)"
    using req by (rule handle_request_queues)
  have pool: "pool_ok (vs_ok (hash2 C)) (job_ok C vkey) (sound_message C vkey) (st, jobs, log)" "vs_ok (hash2 C) st"
    using ok by (simp_all add: daemon_ok_def pool_ok_def)
  from vs_ok_queue [OF pool(2) q room] have st': "vs_ok (hash2 C) st'"
    "spawn \<longleftrightarrow> \<not> vs_batch_timer_running st" "vs_batch_timer_running st'" by blast+
  have "pool_ok (vs_ok (hash2 C)) (job_ok C vkey) (sound_message C vkey) (st', jobs @ (if spawn then [Timer] else []), log)"
    by (rule timer_tasks.pool_grow [OF pool(1) st'(1) queue_grows [OF q]]) simp
  then show ?thesis using ok st'(2,3) by (auto simp: daemon_ok_def)
qed

lemma reachable_daemon_ok: "reachable C vkey addrs d \<Longrightarrow> daemon_ok C vkey d"
proof (induction rule: reachable.induct)
  case start
  show ?case by (simp add: daemon_ok_def pool_ok_def vs_ok_new verifier_state_new_def [THEN arg_cong, of vs_batch_timer_running])
next
  case (step d d')
  from step(2) show ?case
  proof cases
    case (submit now frame socket addr st st' spawn jobs log)
    then show ?thesis using submit_keeps_daemon_ok step(3) by blast
  next
    case work
    then show ?thesis using work_keeps_daemon_ok step(3) by (metis prod_cases3)
  qed
qed

end
