(* ===== verification/DaemonRuns.thy ===== *)
theory DaemonRuns
  imports DaemonSteps
begin

text \<open>
  What holds of the hydra daemon in every schedule of its tasks: its invariant and the messages it
  sends, that it settles with everybody served, that one undisturbed timer task is
  \<open>process_batch\<close>, and that an honest submission gets into the queue.
\<close>

section \<open>Admission\<close>

lemma handle_request_admits:
  fixes C :: "('f, 'vk, 'sk, 'sg, 'pf, 'gv) crypto" and key :: "('vk, 'sk) key_infor"
    and st :: "('f, 'vk, 'tg) verifier_state"
  assumes "serial_ok C" "sign_ok C" "dci_ok v" "fits (encode_device_client_infor C v)"
    "dci_verifying_key v = vk_of_sk C (signing_key key)"
    and fresh: "verify_device_client_infor_freshness now v = Inr ()"
  obtains s b where "sign_device_client_infor_to_wire C v key = Inr s"
    "encode_signed_device_client_infor_message s = Inr b"
    "handle_request C now (Inr b) socket addr st = Inr (queue_attester socket v addr st)"
proof -
  obtain s b where s: "sign_device_client_infor_to_wire C v key = Inr s"
    "encode_signed_device_client_infor_message s = Inr b"
    "decode_signed_device_client_infor_message b = Inr s"
    "verify_signed_device_client_infor_wire C s = Inr v"
    using signed_submission_runs [OF assms(1-5)] by blast
  have "starts_with MSG_DEVICE_INFOR b"
    using s(2) by (auto simp: encode_signed_device_client_infor_message_def res_simps
        encode_typed_message_def starts_with_def)
  then have "handle_request C now (Inr b) socket addr st = Inr (queue_attester socket v addr st)"
    using s(3,4) fresh by (simp add: handle_request_def)
  with s(1,2) show ?thesis by (rule that)
qed

section \<open>Safety of every schedule\<close>

text \<open>
  C25. However submissions, timers, stores and sends interleave: the tree is the one built from the
  leaves of the active attesters in arrival order, exactly one timer task exists while the timer
  flag is set and none otherwise, no task has died in a panic, and every message sent is either the
  public context of a tree over a prefix of the current leaves or a signed, encrypted answer to a
  session of the daemon with the path of its leaf in such a tree.
\<close>
theorem daemon_always_consistent:
  fixes C :: "('f, 'vk, 'sk, 'sg, 'pf, 'gv) crypto"
  assumes "reachable C vkey addrs (st, jobs, log)"
  shows "vs_ok (hash2 C) st \<and>
    length (filter is_timer jobs) = (if vs_batch_timer_running st then 1 else 0) \<and>
    (\<forall>e. Dead e \<notin> set jobs) \<and> (\<forall>out\<in>set log. sound_message C vkey st out)"
proof -
  have "daemon_ok C vkey (st, jobs, log)" by (rule reachable_daemon_ok [OF assms])
  then show ?thesis by (force simp: daemon_ok_def pool_ok_def)
qed

definition toy_queued :: "(u64, u64, u64) verifier_state" where
  "toy_queued = fst (queue_attester 1 toy_submission ''a'' verifier_state_new)"

lemma toy_queued_reachable:
  "reachable toy_crypto toy_vkey [''rp''] (toy_queued, [Timer], [])"
proof -
  let ?now = "Some (Duration 105 0)"
  have fresh: "verify_device_client_infor_freshness ?now toy_submission = Inr ()"
    by (simp add: verify_device_client_infor_freshness_def toy_submission_def checked_add_def
        current_unix_duration_def less_duration_def nanos_per_sec_def)
  obtain s b where "handle_request toy_crypto ?now (Inr b) 1 ''a'' (verifier_state_new :: (u64, u64, u64) verifier_state) =
      Inr (queue_attester 1 toy_submission ''a'' verifier_state_new)"
    by (rule handle_request_admits [OF toy_serial_ok toy_sign_ok toy_submission_ok fresh])
  moreover have "queue_attester 1 toy_submission ''a'' (verifier_state_new :: (u64, u64, u64) verifier_state) = (toy_queued, True)"
    by (simp add: toy_queued_def queue_attester_def verifier_state_new_def Let_def)
  ultimately have req: "handle_request toy_crypto ?now (Inr b) 1 ''a'' verifier_state_new = Inr (toy_queued, True)"
    by simp
  have "daemon_step toy_crypto toy_vkey [''rp''] (verifier_state_new, [], [])
      (toy_queued, [] @ (if True then [Timer] else []), [])"
    by (rule daemon_step.submit [OF req]) (simp add: verifier_state_new_def isize_max_def)
  then show ?thesis using reachable.step [OF reachable.start] by simp
qed

theorem daemon_always_consistent_witness:
  "vs_ok (hash2 toy_crypto) toy_queued \<and> length (vs_pending toy_queued) = 1 \<and>
   vs_batch_timer_running toy_queued"
  using daemon_always_consistent [OF toy_queued_reachable]
  by (simp add: toy_queued_def queue_attester_def verifier_state_new_def Let_def)

section \<open>Everybody is served\<close>

lemma unfinished_runs:
  assumes "\<not> finished j"
  shows "\<exists>st' j' outs. task_runs C vkey addrs st j st' j' outs"
proof -
  obtain st' j' outs where "run_job C vkey addrs (\<lambda>i. (Some (Duration 0 0), undefined, [])) st j = (st', j', outs)"
    by (metis prod_cases3)
  moreover have "draws_ok (\<lambda>i. (Some (Duration 0 0), undefined, []))" by (simp add: draws_ok_def)
  ultimately show ?thesis using assms task_runs.intros by blast
qed

lemma stuck_pool_finished:
  assumes "\<nexists>d'. pool_step (task_runs C vkey addrs) (st, jobs, log) d'" "j \<in> set jobs"
  shows "finished j"
proof (rule ccontr)
  assume "\<not> finished j"
  obtain i where i: "i < length jobs" "jobs ! i = j" using assms(2) by (auto simp: in_set_conv_nth)
  obtain st' j' outs where "task_runs C vkey addrs st (jobs ! i) st' j' outs"
    using unfinished_runs [OF \<open>\<not> finished j\<close>] i(2) by blast
  with i(1) have "pool_step (task_runs C vkey addrs) (st, jobs, log) (st', jobs[i := j'], log @ outs)"
    by (rule pool_step.intros)
  then show False using assms(1) by blast
qed

lemma work_keeps_sessions:
  fixes C :: "('f, 'vk, 'sk, 'sg, 'pf, 'gv) crypto"
  assumes "(pool_step (task_runs C vkey addrs))\<^sup>*\<^sup>* d d'" "daemon_ok C vkey d"
  shows "daemon_ok C vkey d' \<and>
    map session_key (vs_active (fst d') @ vs_pending (fst d')) = map session_key (vs_active (fst d) @ vs_pending (fst d))"
  using assms
proof (induction rule: rtranclp_induct)
  case (step y z)
  obtain st jobs log where y: "y = (st, jobs, log)" by (metis prod_cases3)
  obtain st' jobs' log' where z: "z = (st', jobs', log')" by (metis prod_cases3)
  from step show ?case
    using work_keeps_daemon_ok [of C vkey st jobs log addrs st' jobs' log'] unfolding y z by simp
qed simp

text \<open>
  C26. From every reachable state, once submissions stop, the tasks run to completion under every
  schedule: there is no infinite run, and when no task can move any more all of them have finished,
  nobody is left in the queue, every session that was active or queued is active, and the root is
  that of the tree over all their leaves.
\<close>
theorem daemon_settles:
  fixes C :: "('f, 'vk, 'sk, 'sg, 'pf, 'gv) crypto"
  assumes "reachable C vkey addrs (st, jobs, log)"
  shows "wfp (\<lambda>d' d. pool_step (task_runs C vkey addrs) d d') \<and>
    (\<forall>st' jobs' log'. (pool_step (task_runs C vkey addrs))\<^sup>*\<^sup>* (st, jobs, log) (st', jobs', log') \<longrightarrow>
       (\<nexists>d'. pool_step (task_runs C vkey addrs) (st', jobs', log') d') \<longrightarrow>
       (\<forall>j\<in>set jobs'. j = Done) \<and> vs_pending st' = [] \<and>
       map session_key (vs_active st') = map session_key (vs_active st @ vs_pending st) \<and>
       vs_root st' = create_batch_devices (hash2 C) [] (map as_merkle_leaf (vs_active st @ vs_pending st)))"
proof (intro conjI allI impI timer_tasks.pool_terminates)
  fix st' jobs' log'
  assume run: "(pool_step (task_runs C vkey addrs))\<^sup>*\<^sup>* (st, jobs, log) (st', jobs', log')"
    and stuck: "\<nexists>d'. pool_step (task_runs C vkey addrs) (st', jobs', log') d'"
  from work_keeps_sessions [OF run reachable_daemon_ok [OF assms]]
  have ok: "daemon_ok C vkey (st', jobs', log')"
    "map session_key (vs_active st' @ vs_pending st') = map session_key (vs_active st @ vs_pending st)" by simp_all
  have fin: "finished j" if "j \<in> set jobs'" for j by (rule stuck_pool_finished [OF stuck that])
  have job: "job_ok C vkey st' j" if "j \<in> set jobs'" for j using ok(1) that by (simp add: daemon_ok_def pool_ok_def)
  show "\<forall>j\<in>set jobs'. j = Done"
  proof
    fix j assume "j \<in> set jobs'"
    then have "finished j" "job_ok C vkey st' j" using fin job by simp_all
    then show "j = Done" by (cases j) simp_all
  qed
  then have "filter is_timer jobs' = []" by (auto simp: filter_empty_conv)
  then have "\<not> vs_batch_timer_running st'" using ok(1) by (simp add: daemon_ok_def split: if_splits)
  moreover have vs: "vs_ok (hash2 C) st'" using ok(1) by (simp add: daemon_ok_def pool_ok_def)
  ultimately show pend: "vs_pending st' = []" by (auto simp: vs_ok_def)
  then show keys: "map session_key (vs_active st') = map session_key (vs_active st @ vs_pending st)"
    using ok(2) by simp
  show "vs_root st' = create_batch_devices (hash2 C) [] (map as_merkle_leaf (vs_active st @ vs_pending st))"
    using vs session_keys_leaves [OF keys] by (simp add: vs_ok_def shrubs_roots_def)
qed

theorem daemon_settles_witness:
  "\<exists>st' jobs' log'. (pool_step (task_runs toy_crypto toy_vkey [''rp'']))\<^sup>*\<^sup>* (toy_queued, [Timer], []) (st', jobs', log') \<and>
     jobs' \<noteq> [] \<and> (\<forall>j\<in>set jobs'. j = Done) \<and> vs_pending st' = [] \<and> length (vs_active st') = 1"
proof -
  let ?step = "pool_step (task_runs toy_crypto toy_vkey [''rp''])"
  note settles = daemon_settles [OF toy_queued_reachable]
  obtain d' where "?step\<^sup>*\<^sup>* (toy_queued, [Timer], []) d'" "\<nexists>d''. ?step d' d''"
    using timer_tasks.pool_runs_to_end [of toy_crypto toy_vkey "[''rp'']"] by blast
  then obtain st' jobs' log' where run: "?step\<^sup>*\<^sup>* (toy_queued, [Timer], []) (st', jobs', log')"
    "\<nexists>d''. ?step (st', jobs', log') d''" by (cases d') auto
  from settles [THEN conjunct2, rule_format, OF run]
  have "(\<forall>j\<in>set jobs'. j = Done) \<and> vs_pending st' = []"
    "map session_key (vs_active st') = map session_key (vs_active toy_queued @ vs_pending toy_queued)" by blast+
  moreover have "length (vs_active toy_queued @ vs_pending toy_queued) = 1"
    by (simp add: toy_queued_def queue_attester_def verifier_state_new_def Let_def)
  moreover have "jobs' \<noteq> []" using timer_tasks.pool_length [OF run(1)] by auto
  ultimately show ?thesis using run(1) by (metis length_map)
qed

section \<open>An undisturbed timer task\<close>

lemma lone_step:
  fixes C :: "('f, 'vk, 'sk, 'sg, 'pf, 'gv) crypto" and draws :: "nat \<Rightarrow> 'sk draw"
  assumes "\<not> finished j" "draws_ok draws" "run_job C vkey addrs draws st j = (st', j', outs)"
  shows "pool_step (task_runs C vkey addrs) (st, [j], log) (st', [j'], log @ outs)"
  using pool_step.intros [where i = 0 and js = "[j]" and run = "task_runs C vkey addrs"]
    task_runs.intros [OF assms] by simp

lemma lone_emit:
  fixes C :: "('f, 'vk, 'sk, 'sg, 'pf, 'gv) crypto" and draws :: "nat \<Rightarrow> 'sk draw"
  assumes "draws_ok draws"
  shows "(pool_step (task_runs C vkey addrs))\<^sup>*\<^sup>* (st, [Emit outs k], log) (st, [k], log @ outs)"
proof (induction outs arbitrary: log)
  case Nil
  have "pool_step (task_runs C vkey addrs) (st, [Emit [] k], log) (st, [k], log @ [])"
    by (rule lone_step [OF _ assms]) simp_all
  then show ?case by simp
next
  case (Cons out outs)
  have "pool_step (task_runs C vkey addrs) (st, [Emit (out # outs) k], log) (st, [Emit outs k], log @ [out])"
    by (rule lone_step [OF _ assms]) simp_all
  then show ?case using Cons.IH [of "log @ [out]"] by (simp add: converse_rtranclp_into_rtranclp)
qed

lemma is_write_persist: "is_write (persist_response C r)"
  by (simp add: persist_response_def)

lemma compute_writes_first:
  assumes "compute_store_and_send_responses C vkey b draws snaps st = Inr (st', outs)"
  shows "filter is_write outs @ filter (\<lambda>out. \<not> is_write out) outs = outs"
proof -
  show ?thesis
    using assms
    by (auto simp: is_write_persist compute_store_and_send_responses_def store_responses_eq Let_def filter_map comp_def
        split: if_splits option.splits)
qed

lemma lone_answer:
  fixes C :: "('f, 'vk, 'sk, 'sg, 'pf, 'gv) crypto" and draws :: "nat \<Rightarrow> 'sk draw"
  assumes d: "draws_ok draws" and run: "compute_store_and_send_responses C vkey b draws snaps st = Inr (st', outs)"
    and j: "\<not> finished j" "run_job C vkey addrs draws st j = answer_job C vkey draws b snaps st k"
  shows "(pool_step (task_runs C vkey addrs))\<^sup>*\<^sup>* (st, [j], log) (st', [k], log @ outs)"
proof -
  have "pool_step (task_runs C vkey addrs) (st, [j], log)
      (st', [Emit (filter (\<lambda>out. \<not> is_write out) outs) k], log @ filter is_write outs)"
    by (rule lone_step [OF j(1) d]) (simp add: j(2) answer_job_def run)
  from converse_rtranclp_into_rtranclp [OF this lone_emit [OF d]] compute_writes_first [OF run]
  show ?thesis by simp
qed

text \<open>
  \<open>process_batch\<close> is one schedule of the cut task: run alone, a timer task ends in the state
  that \<open>process_batch\<close> computes and has sent exactly the same messages in the same order.
\<close>
theorem process_batch_is_a_schedule:
  fixes C :: "('f, 'vk, 'sk, 'sg, 'pf, 'gv) crypto" and st :: "('f, 'vk, 'sg) verifier_state"
    and vkey :: "('vk, 'sk) key_infor"
  assumes run: "process_batch C vkey addrs draws st = Inr (st', outs)" and d: "draws_ok draws"
  shows "(pool_step (task_runs C vkey addrs))\<^sup>*\<^sup>* (st, [Timer], []) (st', [Done], outs)"
proof -
  obtain st1 ob where i: "insert_pending C vkey st = Inr (st1, ob)"
    using run by (auto simp: process_batch_def and_then_Inr_iff)
  show ?thesis
  proof (cases ob)
    case None
    then have "st' = st1 \<and> outs = []" using run i by (simp add: process_batch_def)
    moreover have "pool_step (task_runs C vkey addrs) (st, [Timer], []) (st1, [Done], [] @ [])"
      by (rule lone_step [OF _ d]) (simp_all add: i None)
    ultimately show ?thesis by simp
  next
    case (Some b)
    let ?mid = "send_context_only_refreshes C (b_unaffected b) (b_ctx b) @ publish_public_context_to_all C addrs (b_ctx b)"
    obtain st2 o1 o4 where c: "compute_store_and_send_responses C vkey b draws (b_affected b) st1 = Inr (st2, o1)"
      "compute_store_and_send_responses C vkey b draws (b_new b) st2 = Inr (st', o4)" "outs = o1 @ ?mid @ o4"
      using run i Some by (auto simp: process_batch_def and_then_Inr_iff Let_def)
    have "pool_step (task_runs C vkey addrs) (st, [Timer], []) (st1, [AnswerOld b], [] @ [])"
      by (rule lone_step [OF _ d]) (simp_all add: i Some)
    moreover have "(pool_step (task_runs C vkey addrs))\<^sup>*\<^sup>* (st1, [AnswerOld b], []) (st2, [Emit ?mid (AnswerNew b)], [] @ o1)"
      by (rule lone_answer [OF d c(1)]) simp_all
    moreover have "(pool_step (task_runs C vkey addrs))\<^sup>*\<^sup>* (st2, [Emit ?mid (AnswerNew b)], o1) (st2, [AnswerNew b], o1 @ ?mid)"
      by (rule lone_emit [OF d])
    moreover have "(pool_step (task_runs C vkey addrs))\<^sup>*\<^sup>* (st2, [AnswerNew b], o1 @ ?mid) (st', [Done], (o1 @ ?mid) @ o4)"
      by (rule lone_answer [OF d c(2)]) simp_all
    ultimately show ?thesis unfolding c(3) append_Nil append.assoc
      by (meson converse_rtranclp_into_rtranclp rtranclp_trans)
  qed
qed

theorem process_batch_is_a_schedule_witness:
  "\<exists>st' outs. (pool_step (task_runs toy_crypto toy_vkey [''rp'']))\<^sup>*\<^sup>* (toy_state, [Timer], []) (st', [Done], outs) \<and>
     vs_pending st' = [] \<and> map as_merkle_leaf (vs_active st') = [7, 9]"
proof -
  have ok: "vs_ok (hash2 toy_crypto) toy_state" by (rule toy_state_ok)
  have pend: "vs_pending toy_state \<noteq> []" and leaves: "map as_merkle_leaf (vs_active toy_state @ vs_pending toy_state) = [7, 9]"
    by (simp_all add: toy_state_def queue_attester_def verifier_state_new_def toy_dev_def Let_def)
  show ?thesis
  proof (rule process_batch_runs [OF ok pend toy_draws_ok, where vkey = toy_vkey and addrs = "[''rp'']"], goal_cases)
    case (1 st1 b st2 o1 st3 o4)
    have "map as_merkle_leaf (vs_active st3) = [7, 9]" using session_keys_leaves [OF 1(7)] leaves by simp
    then show ?case
      by (intro exI conjI) (rule process_batch_is_a_schedule [OF 1(8) toy_draws_ok], rule 1(13))
  qed
qed

end
