(* ===== verification/Bytes.thy ===== *)
theory Bytes
  imports Codec
begin

text \<open>
  Little-endian words, fixed-size copies, and the text the components share: numbers, white space
  and paths.
\<close>

lemma length_string_of [simp]: "length (string_of b) = length b"
  by (simp add: string_of_def)

definition u16_of_le :: "byte list \<Rightarrow> u16" where
  "u16_of_le bs = of_nat (nat_of_be (rev bs))"

definition u32_of_le :: "byte list \<Rightarrow> u32" where
  "u32_of_le bs = u32_of_be (rev bs)"

definition u32_le :: "u32 \<Rightarrow> byte list" where
  "u32_le w = rev (u32_be w)"

lemma length_u32_le [simp]: "length (u32_le w) = 4"
  by (simp add: u32_le_def)

lemma u32_of_le_le [simp]: "u32_of_le (u32_le w) = w"
  by (simp add: u32_of_le_def u32_le_def)

lemma u32_le_of_le: "length bs = 4 \<Longrightarrow> u32_le (u32_of_le bs) = bs"
  using be_nat_of_be [of "rev bs"] nat_of_be_less [of "rev bs"]
  by (simp add: u32_of_le_def u32_le_def u32_of_be_def u32_be_def unat_of_nat)

lemma u32_le_Cons: "\<exists>a b c d. u32_le w = [a, b, c, d]"
proof -
  have "length (u32_le w) = Suc (Suc (Suc (Suc 0)))" by simp
  then show ?thesis by (auto simp: length_Suc_conv simp del: length_u32_le)
qed

text \<open>\<open>{:#x}\<close>.\<close>

definition hex_digit :: "nat \<Rightarrow> char" where
  "hex_digit n = ''0123456789abcdef'' ! n"

fun hex_digits :: "nat \<Rightarrow> string" where
  "hex_digits n = (if n < 16 then [hex_digit n] else hex_digits (n div 16) @ [hex_digit (n mod 16)])"

declare hex_digits.simps [simp del]

definition lower_hex :: "nat \<Rightarrow> string" where
  "lower_hex n = ''0x'' @ hex_digits n"

text \<open>\<open>copy_from_slice\<close> into an array of \<open>n\<close> elements.\<close>

definition copy_exact :: "nat \<Rightarrow> 'a list \<Rightarrow> 'a list res" where
  "copy_exact n xs = (if length xs = n then Inr xs
     else Inl (Panic ''source slice length does not match destination slice length''))"

lemma copy_exact_ok [simp]: "length xs = n \<Longrightarrow> copy_exact n xs = Inr xs"
  by (simp add: copy_exact_def)

lemma copy_exact_Inr [simp]: "copy_exact n xs = Inr ys \<longleftrightarrow> length xs = n \<and> ys = xs"
  by (auto simp: copy_exact_def)

lemma calm_slice: "a \<le> b \<Longrightarrow> b \<le> length xs \<Longrightarrow> calm (slice xs a b)"
  by simp

lemma calm_copy_exact: "length xs = n \<Longrightarrow> calm (copy_exact n xs)"
  by (simp add: copy_exact_def)

text \<open>\<open>str::trim_end\<close> and \<open>str::trim\<close>, for ASCII white space.\<close>

definition white_space :: "char \<Rightarrow> bool" where
  "white_space c \<longleftrightarrow> c \<in> set [CHR '' '', CHR 0x09, CHR 0x0A, CHR 0x0B, CHR 0x0C, CHR 0x0D]"

definition trim_end :: "string \<Rightarrow> string" where
  "trim_end s = rev (dropWhile white_space (rev s))"

definition trim :: "string \<Rightarrow> string" where
  "trim s = trim_end (dropWhile white_space s)"

lemma trim_tight: "\<not> white_space (hd s) \<Longrightarrow> \<not> white_space (last s) \<Longrightarrow> trim s = s"
  by (cases "s = []") (simp_all add: trim_def trim_end_def dropWhile_eq_self_iff [THEN iffD2] hd_rev)

text \<open>Decimal numbers.\<close>

fun show_nat :: "nat \<Rightarrow> string" where
  "show_nat n = (if n < 10 then [hex_digit n] else show_nat (n div 10) @ [hex_digit (n mod 10)])"

declare show_nat.simps [simp del]

text \<open>\<open>Path::join\<close>: an absolute path replaces what it is joined to.\<close>

definition path_join :: "string \<Rightarrow> string \<Rightarrow> string" where
  "path_join base p =
     (if p \<noteq> [] \<and> hd p = CHR ''/'' then p
      else if base = [] \<or> last base = CHR ''/'' then base @ p
      else base @ ''/'' @ p)"

end
