(* ===== verification/Disk.thy ===== *)
theory Disk
  imports Evidence Bytes
begin

text \<open>
  The files the parties keep: the \<open>save_*\<close> and \<open>load_*\<close> functions of \<^verbatim>\<open>hydra-toolkit/src/lib.rs\<close> and
  \<^verbatim>\<open>attester/src/lib.rs\<close>, over a small file system.

  \<^item> A \<open>disk\<close> maps paths to contents, lists the directories that were made, lists the paths the
    process may not write, and says of some paths how many bytes there is room for. An operation takes a
    disk and gives one, with a result: what was written before an error stays written.
  \<^item> Paths are compared as text; none ends in a slash. Making a directory records that directory, not the
    ones above it.
  \<^item> \<^verbatim>\<open>fs::write\<close> opens the file, which empties it, and then writes: when it cannot be opened it stays
    as it was, when there is no room for the contents it is left with a part of them.
\<close>

record disk =
  files :: "string \<rightharpoonup> byte list"
  dirs :: "string list"
  denied :: "string list"
  room :: "string \<rightharpoonup> nat"

type_synonym ('s, 'a) io = "'s \<Rightarrow> 's \<times> 'a res"

definition io :: "'a res \<Rightarrow> ('s, 'a) io" where
  "io m d = (d, m)"

definition io_then :: "('s, 'a) io \<Rightarrow> ('a \<Rightarrow> ('s, 'b) io) \<Rightarrow> ('s, 'b) io" where
  "io_then m f d = (case m d of (d', Inl e) \<Rightarrow> (d', Inl e) | (d', Inr x) \<Rightarrow> f x d')"

definition io_context :: "string \<Rightarrow> ('s, 'a) io \<Rightarrow> ('s, 'a) io" where
  "io_context msg m d = (case m d of (d', r) \<Rightarrow> (d', with_context msg r))"

lemma io_simps [simp]:
  "io_then (io m) f = (\<lambda>d. case m of Inl e \<Rightarrow> (d, Inl e) | Inr x \<Rightarrow> f x d)"
  "io m d = (d, m)"
  by (auto simp: io_then_def io_def fun_eq_iff)

lemma io_then_runs [simp]: "m d = (d', Inr x) \<Longrightarrow> io_then m f d = f x d'"
  by (simp add: io_then_def)

lemma io_context_runs [simp]: "m d = (d', Inr x) \<Longrightarrow> io_context msg m d = (d', Inr x)"
  by (simp add: io_context_def)

section \<open>The operations of the standard library\<close>

definition path_exists :: "string \<Rightarrow> 'z disk_scheme \<Rightarrow> bool" where
  "path_exists p d \<longleftrightarrow> files d p \<noteq> None \<or> p \<in> set (dirs d)"

definition create_file :: "string \<Rightarrow> ('z disk_scheme, unit) io" where
  "create_file p d =
     (if p \<in> set (denied d) then (d, Inl (Err ''create'')) else (d\<lparr>files := (files d)(p \<mapsto> [])\<rparr>, Inr ()))"

text \<open>Writing into an open file, from its start: what lies beyond the bytes written stays.\<close>

definition write_all :: "string \<Rightarrow> byte list \<Rightarrow> ('z disk_scheme, unit) io" where
  "write_all p b d =
     (let old = (case files d p of Some x \<Rightarrow> x | None \<Rightarrow> []);
          put = (\<lambda>x. d\<lparr>files := (files d)(p \<mapsto> x @ drop (length x) old)\<rparr>) in
      case room d p of
        None \<Rightarrow> (put b, Inr ())
      | Some n \<Rightarrow> if length b \<le> n then (put b, Inr ()) else (put (take n b), Inl (Err ''write'')))"

definition write_file :: "string \<Rightarrow> byte list \<Rightarrow> ('z disk_scheme, unit) io" where
  "write_file p b = io_then (create_file p) (\<lambda>_. write_all p b)"

lemma write_file_runs:
  "p \<notin> set (denied d) \<Longrightarrow> room d p = None \<Longrightarrow> write_file p b d = (d\<lparr>files := (files d)(p \<mapsto> b)\<rparr>, Inr ())"
  by (simp add: write_file_def io_then_def create_file_def write_all_def)

lemma write_file_result:
  assumes "write_file p b d = (d', r)"
  shows "dirs d' = dirs d \<and> (\<forall>q. q \<noteq> p \<longrightarrow> files d' q = files d q) \<and>
    (r = Inr () \<longrightarrow> files d' = (files d)(p \<mapsto> b)) \<and> (\<forall>e. r = Inl e \<longrightarrow> (\<exists>m. e = Err m))"
  using assms
  by (auto simp: write_file_def io_then_def create_file_def write_all_def Let_def split: if_splits option.splits)

definition read_file :: "string \<Rightarrow> ('z disk_scheme, byte list) io" where
  "read_file p d = (d, ok_or ''read'' (files d p))"

definition create_dir_all :: "string \<Rightarrow> ('z disk_scheme, unit) io" where
  "create_dir_all p d =
     (if p = [] \<or> p \<in> set (dirs d) then (d, Inr ())
      else if p \<in> set (denied d) then (d, Inl (Err ''create''))
      else (d\<lparr>dirs := p # dirs d\<rparr>, Inr ()))"

definition path_parent :: "string \<Rightarrow> string option" where
  "path_parent p =
     (if p = [] \<or> p = ''/'' then None
      else (let up = rev (drop 1 (dropWhile (\<lambda>c. c \<noteq> CHR ''/'') (rev p))) in
            Some (if up = [] \<and> hd p = CHR ''/'' then ''/'' else up)))"

definition ensure_parent_dir :: "string \<Rightarrow> ('z disk_scheme, unit) io" where
  "ensure_parent_dir p =
     (case path_parent p of
        None \<Rightarrow> io (Inr ())
      | Some parent \<Rightarrow> io_context ''create parent directory failed'' (create_dir_all parent))"

section \<open>Saving and loading\<close>

definition ATTESTER_KEY_FILE :: string where "ATTESTER_KEY_FILE = ''attester_key.bin''"

definition DEVICE_INFOR_FILE :: string where "DEVICE_INFOR_FILE = ''dev_infor.bin''"

definition DEVICE_CONFIG_FILE :: string where "DEVICE_CONFIG_FILE = ''dev_config.bin''"

definition VERIFIER_KEY_FILE :: string where "VERIFIER_KEY_FILE = ''verifier_key.bin''"

definition VERIFIER_RESPONSE_FILE :: string where "VERIFIER_RESPONSE_FILE = ''dev_res.bin''"

definition PUBLIC_CONTEXT_FILE :: string where "PUBLIC_CONTEXT_FILE = ''public_context.bin''"

text \<open>\<^verbatim>\<open>attester/src/lib.rs\<close> has a copy of the primitives of \<^verbatim>\<open>hydra-toolkit/src/lib.rs\<close> that is the same code.\<close>

definition save_key_infor where
  "save_key_infor C path key =
     io_then (ensure_parent_dir path) (\<lambda>_.
     io_context ''save KeyInfor failed'' (write_file path (append_len_bytes (sk_bytes C (signing_key key)))))"

definition load_key_infor where
  "load_key_infor C path =
     io_then (io_context ''read KeyInfor failed'' (read_file path)) (\<lambda>bytes.
     io (and_then (read_len_bytes bytes) (\<lambda>(b, c).
       and_then (ok_or ''deserialize secp256k1 signing key failed'' (sk_of_bytes C b)) (\<lambda>sk.
       Inr \<lparr>signing_key = sk, verifying_key = vk_of_sk C sk\<rparr>))))"

definition save_device_client_infor where
  "save_device_client_infor C path v =
     io_then (ensure_parent_dir path) (\<lambda>_.
     io_then (io (encode_device_client_infor C v)) (\<lambda>out.
     io_context ''save DeviceClientInfor failed'' (write_file path out)))"

definition save_response_device_infor where
  "save_response_device_infor C path v =
     io_then (ensure_parent_dir path) (\<lambda>_.
     io_then (io (encode_response_device_infor C v)) (\<lambda>out.
     io_context ''save ResponseDeviceInfor failed'' (write_file path out)))"

definition save_public_context where
  "save_public_context C path v =
     io_then (ensure_parent_dir path) (\<lambda>_.
     io_then (io (append_scalar_vec C (pc_root v))) (\<lambda>roots.
     io_context ''save PublicContext failed''
       (write_file path (roots @ append_verifying_key C (pc_verifier_pk v)))))"

definition load_public_context where
  "load_public_context C path =
     io_then (io_context ''read PublicContext failed'' (read_file path)) (\<lambda>bytes.
     io (and_then (read_scalar_vec C bytes) (\<lambda>(root, c).
       and_then (read_verifying_key C c) (\<lambda>(pk, c).
       Inr \<lparr>pc_root = root, pc_verifier_pk = pk\<rparr>))))"

definition save_evidence_bundle where
  "save_evidence_bundle C path reply sig =
     io_then (ensure_parent_dir path) (\<lambda>_.
     io_then (io (encode_evidence_bundle C reply sig)) (\<lambda>out.
     io_context ''save EvidenceReply and attester signature failed'' (write_file path out)))"

definition append_option_scalar_vec where
  "append_option_scalar_vec C values =
     (case values of
        Some vs \<Rightarrow> and_then (append_scalar_vec C vs) (\<lambda>b. Inr (1 # b))
      | None \<Rightarrow> Inr [0])"

definition read_option_scalar_vec where
  "read_option_scalar_vec C cursor =
     read_option ''invalid Option<Vec<BlsScalar>> tag'' (read_scalar_vec C) cursor"

definition append_option_signature where
  "append_option_signature C v = append_option (append_signature C) v"

definition read_option_signature where
  "read_option_signature C cursor = read_option ''invalid Option<Signature> tag'' (read_signature C) cursor"

definition encode_device_config where
  "encode_device_config C v =
     and_then (append_scalar C (dc_measured_value v)) (\<lambda>measured.
     and_then (append_scalar C (dc_merkle_leaf v)) (\<lambda>leaf.
     and_then (append_option_scalar_vec C (dc_merkle_path v)) (\<lambda>path.
     and_then (append_scalar C (dc_authorized_infor v)) (\<lambda>infor.
     Inr (append_len_bytes (sk_bytes C (dc_signing_key v)) @
          append_verifying_key C (dc_verifying_key v) @ measured @
          append_duration (dc_timestamp v) @ append_duration (dc_period v) @ leaf @ path @
          append_option_bool_vec (dc_merkle_tag v) @ infor @
          append_option_signature C (dc_signature v))))))"

definition save_device_config_infor where
  "save_device_config_infor C path v =
     io_then (ensure_parent_dir path) (\<lambda>_.
     io_then (io (encode_device_config C v)) (\<lambda>out.
     io_context ''save DeviceConfigInfor failed'' (write_file path out)))"

definition decode_device_config where
  "decode_device_config C bytes =
     and_then (read_len_bytes bytes) (\<lambda>(sk_raw, c).
     and_then (bail_unless (length sk_raw = 32) ''secp256k1 secret key length must be 32 bytes'') (\<lambda>_.
     and_then (ok_or ''decode DeviceConfigInfor secret key failed'' (sk_of_bytes C sk_raw)) (\<lambda>sk.
     and_then (read_verifying_key C c) (\<lambda>(vk, c).
     and_then (read_scalar C c) (\<lambda>(measured, c).
     and_then (read_duration c) (\<lambda>(ts, c).
     and_then (read_duration c) (\<lambda>(per, c).
     and_then (read_scalar C c) (\<lambda>(leaf, c).
     and_then (read_option_scalar_vec C c) (\<lambda>(path, c).
     and_then (read_option_bool_vec c) (\<lambda>(tag, c).
     and_then (read_scalar C c) (\<lambda>(infor, c).
     and_then (read_option_signature C c) (\<lambda>(sig, c).
     Inr \<lparr>dc_signing_key = sk, dc_verifying_key = vk, dc_measured_value = measured, dc_timestamp = ts,
          dc_period = per, dc_merkle_leaf = leaf, dc_merkle_path = path, dc_merkle_tag = tag,
          dc_authorized_infor = infor, dc_signature = sig\<rparr>))))))))))))"

definition load_device_config_infor where
  "load_device_config_infor C path =
     io_then (io_context ''read DeviceConfigInfor failed'' (read_file path)) (\<lambda>bytes.
     io (decode_device_config C bytes))"

section \<open>Round trips\<close>

definition dc_ok where
  "dc_ok v \<longleftrightarrow> duration_ok (dc_timestamp v) \<and> duration_ok (dc_period v) \<and>
     pred_option scalars_ok (dc_merkle_path v) \<and> pred_option bool_vec_ok (dc_merkle_tag v)"

lemma option_scalar_vec_codec:
  assumes C: "serial_ok C"
  shows "codec (append_option_scalar_vec C) (read_option_scalar_vec C) (pred_option scalars_ok)"
proof
  fix v :: "'a list option"
  assume ok: "pred_option scalars_ok v"
  show "\<exists>b. append_option_scalar_vec C v = Inr b \<and> (\<forall>r. read_option_scalar_vec C (b @ r) = Inr (v, r))"
  proof (cases v)
    case (Some a)
    then obtain b where "append_scalar_vec C a = Inr b" "\<And>r. read_scalar_vec C (b @ r) = Inr (a, r)"
      using ok codec.read_back [OF append_scalar_vec_codec [OF C]] by auto
    then show ?thesis
      by (simp add: Some append_option_scalar_vec_def read_option_scalar_vec_def read_option_def)
  qed (simp add: append_option_scalar_vec_def read_option_scalar_vec_def read_option_def)
qed

lemma read_option_signature_append [codec_simps]:
  "serial_ok C \<Longrightarrow> read_option_signature C (append_option_signature C s @ r) = Inr (s, r)"
  unfolding read_option_signature_def append_option_signature_def
  by (rule read_option_append) (cases s; simp add: read_signature_append)

lemma device_config_message:
  assumes C: "serial_ok C"
  shows "message (encode_device_config C) (decode_device_config C) dc_ok"
proof
  fix v :: "('a, 'b, 'c, 'd) device_config_infor"
  assume ok: "dc_ok v"
  note scalar = codec.read_back [OF append_scalar_codec [OF C]]
  obtain a where a: "append_scalar C (dc_measured_value v) = Inr a"
    "\<And>r. read_scalar C (a @ r) = Inr (dc_measured_value v, r)" using scalar [of "dc_measured_value v"] by auto
  obtain l where l: "append_scalar C (dc_merkle_leaf v) = Inr l"
    "\<And>r. read_scalar C (l @ r) = Inr (dc_merkle_leaf v, r)" using scalar [of "dc_merkle_leaf v"] by auto
  obtain p where p: "append_option_scalar_vec C (dc_merkle_path v) = Inr p"
    "\<And>r. read_option_scalar_vec C (p @ r) = Inr (dc_merkle_path v, r)"
    using codec.read_back [OF option_scalar_vec_codec [OF C]] ok by (auto simp: dc_ok_def)
  obtain i where i: "append_scalar C (dc_authorized_infor v) = Inr i"
    "\<And>r. read_scalar C (i @ r) = Inr (dc_authorized_infor v, r)" using scalar [of "dc_authorized_infor v"] by auto
  have sk: "bytes_ok (sk_bytes C k)" "length (sk_bytes C k) = 32" "sk_of_bytes C (sk_bytes C k) = Some k" for k
    using serial_okD(6,7) [OF C, of k] by (simp_all add: bytes_ok_def isize_max_def)
  have sig: "read_option_signature C (append_option_signature C s @ r) = Inr (s, r)" for s r
    using C by (rule read_option_signature_append)
  show "\<exists>b. encode_device_config C v = Inr b \<and> (\<forall>r. decode_device_config C (b @ r) = Inr v)"
    using ok by (simp add: encode_device_config_def decode_device_config_def a l p i sk sig dc_ok_def
        read_verifying_key_append [OF C])
qed

section \<open>What a file holds after a save\<close>

text \<open>The common shape of the functions that save.\<close>

definition stores :: "string \<Rightarrow> ('a \<Rightarrow> byte list res) \<Rightarrow> string \<Rightarrow> 'a \<Rightarrow> ('z disk_scheme, unit) io" where
  "stores msg enc path v =
     io_then (ensure_parent_dir path) (\<lambda>_. io_then (io (enc v)) (\<lambda>out. io_context msg (write_file path out)))"

lemma save_stores:
  "save_key_infor C p k = stores ''save KeyInfor failed'' (\<lambda>k. Inr (append_len_bytes (sk_bytes C (signing_key k)))) p k"
  "save_device_client_infor C p d = stores ''save DeviceClientInfor failed'' (encode_device_client_infor C) p d"
  "save_response_device_infor C p r = stores ''save ResponseDeviceInfor failed'' (encode_response_device_infor C) p r"
  "save_public_context C p c = stores ''save PublicContext failed'' (encode_public_context C) p c"
  "save_evidence_bundle C p reply sig =
     stores ''save EvidenceReply and attester signature failed'' (\<lambda>(reply, sig). encode_evidence_bundle C reply sig) p (reply, sig)"
  "save_device_config_infor C p g = stores ''save DeviceConfigInfor failed'' (encode_device_config C) p g"
  by (auto simp: stores_def save_key_infor_def save_device_client_infor_def save_response_device_infor_def
      save_public_context_def save_device_config_infor_def save_evidence_bundle_def encode_public_context_def io_then_def fun_eq_iff
      split: prod.split sum.split)

definition writable :: "string \<Rightarrow> 'z disk_scheme \<Rightarrow> bool" where
  "writable p d \<longleftrightarrow> p \<notin> set (denied d) \<and> room d p = None \<and>
     (case path_parent p of None \<Rightarrow> True | Some q \<Rightarrow> q = [] \<or> q \<in> set (dirs d) \<or> q \<notin> set (denied d))"

text \<open>A disk on which only the listed paths were written since.\<close>

definition only_wrote :: "string set \<Rightarrow> 'z disk_scheme \<Rightarrow> 'z disk_scheme \<Rightarrow> bool" where
  "only_wrote ps d d' \<longleftrightarrow> disk.more d' = disk.more d \<and> denied d' = denied d \<and> room d' = room d \<and> set (dirs d) \<subseteq> set (dirs d') \<and>
     (\<forall>p. p \<notin> ps \<longrightarrow> files d' p = files d p) \<and> (\<forall>p. files d p \<noteq> None \<longrightarrow> files d' p \<noteq> None)"

lemma only_wrote_refl [simp]: "only_wrote ps d d"
  by (simp add: only_wrote_def)

lemma only_wrote_trans: "only_wrote ps d d' \<Longrightarrow> only_wrote qs d' d'' \<Longrightarrow> only_wrote (ps \<union> qs) d d''"
  by (auto simp: only_wrote_def)

lemma only_wrote_mono: "only_wrote ps d d' \<Longrightarrow> ps \<subseteq> qs \<Longrightarrow> only_wrote qs d d'"
  by (auto simp: only_wrote_def)

lemma writable_later: "only_wrote ps d d' \<Longrightarrow> writable p d \<Longrightarrow> writable p d'"
  by (auto simp: only_wrote_def writable_def split: option.splits)

lemma create_dir_runs:
  assumes "q = [] \<or> q \<in> set (dirs d) \<or> q \<notin> set (denied d)"
  obtains d1 where "create_dir_all q d = (d1, Inr ())" "files d1 = files d" "denied d1 = denied d" "room d1 = room d" "disk.more d1 = disk.more d"
    "set (dirs d) \<subseteq> set (dirs d1)" "q \<noteq> [] \<Longrightarrow> q \<in> set (dirs d1)"
proof (cases "q = [] \<or> q \<in> set (dirs d)")
  case True
  then show ?thesis by (intro that [of d]) (auto simp: create_dir_all_def)
next
  case False
  then show ?thesis using assms by (intro that [of "d\<lparr>dirs := q # dirs d\<rparr>"]) (auto simp: create_dir_all_def)
qed

lemma stores_runs:
  assumes "enc v = Inr b" and "writable p d"
  obtains d' where "stores msg enc p v d = (d', Inr ())" "files d' p = Some b" "only_wrote {p} d d'"
proof -
  obtain d1 where d1: "ensure_parent_dir p d = (d1, Inr ())" "files d1 = files d" "denied d1 = denied d" "room d1 = room d" "disk.more d1 = disk.more d"
    "set (dirs d) \<subseteq> set (dirs d1)"
  proof (cases "path_parent p")
    case None
    then show ?thesis by (intro that [of d]) (simp_all add: ensure_parent_dir_def)
  next
    case (Some q)
    then have "q = [] \<or> q \<in> set (dirs d) \<or> q \<notin> set (denied d)" using assms(2) by (simp add: writable_def)
    then show ?thesis
      by (rule create_dir_runs) (auto simp: Some ensure_parent_dir_def intro: that)
  qed
  have "p \<notin> set (denied d1)" "room d1 p = None" using assms(2) d1(3,4) by (simp_all add: writable_def)
  then have "stores msg enc p v d = (d1\<lparr>files := (files d1)(p \<mapsto> b)\<rparr>, Inr ())"
    by (simp add: stores_def io_then_def d1(1) assms(1) io_context_def write_file_runs)
  then show ?thesis using d1 by (intro that) (auto simp: only_wrote_def)
qed

lemma ensure_parent_files: "ensure_parent_dir p d = (d', r) \<Longrightarrow> files d' = files d"
  by (auto simp: ensure_parent_dir_def io_context_def create_dir_all_def split: option.splits if_splits)

lemma stores_succeeds:
  assumes "stores msg enc p v d = (d', Inr u)"
  obtains b where "enc v = Inr b" "files d' = (files d)(p \<mapsto> b)"
proof -
  obtain d1 m where d1: "ensure_parent_dir p d = (d1, m)" by (cases "ensure_parent_dir p d")
  show ?thesis
    using assms that ensure_parent_files [OF d1]
    by (auto simp: stores_def d1 io_then_def io_context_def split: sum.splits prod.splits dest!: write_file_result)
qed

text \<open>The only directory a save makes is the parent of its file.\<close>

lemma ensure_parent_dirs:
  "ensure_parent_dir p d = (d', r) \<Longrightarrow> set (dirs d') \<subseteq> set (dirs d) \<union> {q. path_parent p = Some q}"
  by (auto simp: ensure_parent_dir_def io_context_def create_dir_all_def split: option.splits if_splits)

lemma write_dirs: "io_context msg (write_file p b) d = (d', r) \<Longrightarrow> dirs d' = dirs d"
  by (auto simp: io_context_def split: prod.splits dest: write_file_result)

lemma stores_dirs:
  assumes "stores msg enc p v d = (d', r)"
  shows "set (dirs d') \<subseteq> set (dirs d) \<union> {q. path_parent p = Some q}"
proof -
  obtain d1 m where d1: "ensure_parent_dir p d = (d1, m)" by (cases "ensure_parent_dir p d")
  have "dirs d' = dirs d1"
    using assms by (auto simp: stores_def d1 io_then_def split: sum.splits dest: write_dirs)
  then show ?thesis using ensure_parent_dirs [OF d1] by simp
qed

lemma path_parent_shorter: "path_parent p = Some q \<Longrightarrow> length q \<le> length p"
  using length_dropWhile_le [of "\<lambda>c. c \<noteq> CHR ''/''" "rev p"]
  by (cases p) (auto simp: path_parent_def Let_def split: if_splits)

text \<open>A load gives what the last save of the file put there.\<close>

lemma load_device_config_saved:
  "files d p = Some b \<Longrightarrow> decode_device_config C b = Inr v \<Longrightarrow> load_device_config_infor C p d = (d, Inr v)"
  by (simp add: load_device_config_infor_def io_then_def io_context_def read_file_def)

lemma load_public_context_saved:
  "files d p = Some b \<Longrightarrow> decode_public_context C b = Inr v \<Longrightarrow> load_public_context C p d = (d, Inr v)"
  by (simp add: load_public_context_def decode_public_context_def io_then_def io_context_def read_file_def
      and_then_def split: sum.splits)

lemma load_key_saved:
  assumes "serial_ok C" and "files d p = Some (append_len_bytes (sk_bytes C (signing_key k)))"
  shows "load_key_infor C p d = (d, Inr \<lparr>signing_key = signing_key k, verifying_key = vk_of_sk C (signing_key k)\<rparr>)"
proof -
  have "bytes_ok (sk_bytes C (signing_key k))"
    using serial_okD(6) [OF assms(1)] by (simp add: bytes_ok_def isize_max_def)
  from read_len_bytes_append [OF this, of "[]"] show ?thesis
    using assms serial_okD(7) [OF assms(1)]
    by (simp add: load_key_infor_def io_then_def io_context_def read_file_def)
qed

end
