(* ===== verification/Session.thy ===== *)
theory Session
  imports Disk
begin

text \<open>
  The attester's hydra client, \<^verbatim>\<open>attester/src/hydra_client.rs\<close>: the long-running task that submits the
  device and keeps a session directory up to date, and the command that builds evidence from a session.

  \<^item> The files are the disk of \<open>Disk\<close>; what is sent goes to \<open>sent\<close>, with the address it is sent to.
  \<^item> A connection to the verifier is whether sending succeeds and the frames that come back, each read
    or failed; the task is looked at when the frames given are used up. A relying party is a function
    from a message to its acknowledgement.
  \<^item> \<open>environment\<close> holds what differs from run to run: the clocks, the process id, the measurement file,
    a fresh key, and the randomness of Groth16.
\<close>

definition LATEST_SESSION_FILE :: string where "LATEST_SESSION_FILE = ''attester_latest_session.txt''"

record client = disk +
  sent :: "(string \<times> byte list) list"
  acks :: "(string \<times> byte list) list"

record hydra_config =
  hc_verifier_addr :: string
  hc_relying_party_addrs :: "string list"
  hc_data_dir :: string

record 'sk environment =
  en_fresh_key :: 'sk
  en_nanos :: "nat option"
  en_pid :: nat
  en_now :: "duration option"
  en_measurement :: "string option"
  en_setup :: nat
  en_prove :: nat

type_synonym link = "bool \<times> byte list res list"

section \<open>Session directories\<close>

definition session_name :: "nat \<Rightarrow> nat \<Rightarrow> nat \<Rightarrow> string" where
  "session_name now pid counter =
     ''attester-'' @ show_nat now @ ''-'' @ show_nat pid @ ''-'' @ show_nat counter"

text \<open>\<open>for counter in 0..1000u32\<close>: the first name that is free.\<close>

fun free_session :: "string \<Rightarrow> nat \<Rightarrow> nat \<Rightarrow> nat list \<Rightarrow> (client, string) io" where
  "free_session base now pid [] = io (Inl (Err ''failed to create a unique session dir''))"
| "free_session base now pid (counter # counters) =
     (\<lambda>c. let dir = path_join base (session_name now pid counter) in
       if \<not> path_exists dir c then
         io_then (io_context ''create session dir failed'' (create_dir_all dir)) (\<lambda>_. io (Inr dir)) c
       else free_session base now pid counters c)"

definition create_session_dir :: "nat option \<Rightarrow> nat \<Rightarrow> string \<Rightarrow> (client, string) io" where
  "create_session_dir nanos pid data_dir =
     (let base = path_join data_dir ''attester-runs'' in
      io_then (io_context ''create attester-runs dir failed'' (create_dir_all base)) (\<lambda>_.
      io_then (io (ok_or ''system time is before UNIX_EPOCH'' nanos)) (\<lambda>now.
      free_session base now pid [0..<1000])))"

definition write_latest_session :: "string \<Rightarrow> string \<Rightarrow> (client, unit) io" where
  "write_latest_session data_dir session_dir =
     io_context ''write latest session pointer failed''
       (write_file (path_join data_dir LATEST_SESSION_FILE) (bytes_of session_dir))"

definition read_latest_session :: "string \<Rightarrow> (client, string) io" where
  "read_latest_session data_dir =
     io_then (io_context ''read latest session pointer failed; pass --session <path> or run the daemon first''
       (read_file (path_join data_dir LATEST_SESSION_FILE))) (\<lambda>b.
     io_then (io (ok_or ''read latest session pointer failed; pass --session <path> or run the daemon first''
       (from_utf8 b))) (\<lambda>contents c.
     let path = trim contents in
     if path_exists path c then (c, Inr path) else (c, Inl (Err ''latest session path does not exist''))))"

section \<open>The task\<close>

text \<open>One frame of the verifier: a rejection, a new public context, or an encrypted response.\<close>

definition read_response_and_persist where
  "read_response_and_persist C dev_key dev_infor session_dir frame =
     io_then (io (with_context ''read verifier update failed'' frame)) (\<lambda>bytes.
     if starts_with (bytes_of ''verification failed:'') bytes \<or> starts_with (bytes_of ''error:'') bytes then
       io (Inl (Err ''verifier rejected DeviceClientInfor''))
     else if starts_with MSG_PUBLIC_CONTEXT bytes then
       io_then (io (with_context ''decode PublicContext failed'' (decode_public_context_message C bytes))) (\<lambda>ctx.
       io_context ''save PublicContext failed''
         (save_public_context C (path_join session_dir PUBLIC_CONTEXT_FILE) ctx))
     else
       io_then (io (with_context ''decrypt verifier response failed''
         (decode_encrypted_verifier_response C bytes dev_key))) (\<lambda>(dev_res, ctx).
       io_then (io_context ''save ResponseDeviceInfor failed''
         (save_response_device_infor C (path_join session_dir VERIFIER_RESPONSE_FILE) dev_res)) (\<lambda>_.
       io_then (io_context ''save PublicContext failed''
         (save_public_context C (path_join session_dir PUBLIC_CONTEXT_FILE) ctx)) (\<lambda>_.
       io_context ''save DeviceConfigInfor failed''
         (save_device_config_infor C (path_join session_dir DEVICE_CONFIG_FILE)
           (device_config_infor_new C dev_key dev_infor dev_res))))))"

text \<open>The loop stops at the first error, which it reports and swallows.\<close>

fun update_loop where
  "update_loop C dev_key dev_infor session_dir [] c = (c, Inr ())"
| "update_loop C dev_key dev_infor session_dir (f # fs) c =
     (case read_response_and_persist C dev_key dev_infor session_dir f c of
        (c', Inr _) \<Rightarrow> update_loop C dev_key dev_infor session_dir fs c'
      | (c', Inl (Err e)) \<Rightarrow> (c', Inr ())
      | (c', Inl (Panic p)) \<Rightarrow> (c', Inl (Panic p)))"

text \<open>\<open>if key_path.exists() { load } else { new; save }\<close>.\<close>

definition load_or_create_key where
  "load_or_create_key C key_path fresh =
     (\<lambda>c. if path_exists key_path c then io_context ''load attester key failed'' (load_key_infor C key_path) c
      else
        (let key = \<lparr>signing_key = fresh, verifying_key = vk_of_sk C fresh\<rparr> in
         io_then (io_context ''save attester key failed'' (save_key_infor C key_path key)) (\<lambda>_. io (Inr key)) c))"

definition send_frame :: "string \<Rightarrow> string \<Rightarrow> bool \<Rightarrow> byte list \<Rightarrow> (client, unit) io" where
  "send_frame msg addr ok b c =
     (if ok then (c\<lparr>sent := sent c @ [(addr, b)]\<rparr>, Inr ()) else (c, Inl (Err msg)))"

definition attester_run where
  "attester_run C E (verifiers :: string \<Rightarrow> link option) cfg =
     io_then (io_context ''create hydra data dir failed'' (create_dir_all (hc_data_dir cfg))) (\<lambda>_.
     io_then (load_or_create_key C (path_join (hc_data_dir cfg) ATTESTER_KEY_FILE) (en_fresh_key E)) (\<lambda>dev_key.
     io_then (create_session_dir (en_nanos E) (en_pid E) (hc_data_dir cfg)) (\<lambda>session_dir.
     io_then (write_latest_session (hc_data_dir cfg) session_dir) (\<lambda>_.
     io_then (io (generate_device_client_infor C (en_now E) (en_measurement E) dev_key)) (\<lambda>dev_infor.
     io_then (io_context ''save DeviceClientInfor failed''
       (save_device_client_infor C (path_join session_dir DEVICE_INFOR_FILE) dev_infor)) (\<lambda>_.
     io_then (io (sign_device_client_infor_to_wire C dev_infor dev_key)) (\<lambda>signed_dev_infor.
     io_then (io (encode_signed_device_client_infor_message signed_dev_infor)) (\<lambda>signed_msg.
     io_then (io (ok_or ''connect verifier failed'' (verifiers (hc_verifier_addr cfg)))) (\<lambda>(ok, frames).
     io_then (send_frame ''send SignedDeviceClientInfor failed'' (hc_verifier_addr cfg) ok signed_msg) (\<lambda>_.
     case frames of
       [] \<Rightarrow> io (Inr ())
     | f # fs \<Rightarrow>
         io_then (io_context ''read initial hydra response failed''
           (read_response_and_persist C dev_key dev_infor session_dir f)) (\<lambda>_.
         update_loop C dev_key dev_infor session_dir fs)))))))))))"

section \<open>Sending evidence\<close>

type_synonym party = "byte list \<Rightarrow> byte list res"

definition ship_evidence_to_rp :: "(string \<Rightarrow> party option) \<Rightarrow> string \<Rightarrow> byte list \<Rightarrow> (client, unit) io" where
  "ship_evidence_to_rp parties addr msg =
     io_then (io (ok_or ''connect relying-party failed'' (parties addr))) (\<lambda>party.
     io_then (send_frame ''send evidence failed'' addr True msg) (\<lambda>_.
     io_then (io (with_context ''read RP ack failed'' (party msg))) (\<lambda>ack c.
     (c\<lparr>acks := acks c @ [(addr, ack)]\<rparr>, Inr ()))))"

text \<open>A relying party that fails is reported and the next one is tried.\<close>

fun ship_all :: "(string \<Rightarrow> party option) \<Rightarrow> byte list \<Rightarrow> string list \<Rightarrow> client \<Rightarrow> client \<times> unit res" where
  "ship_all parties msg [] c = (c, Inr ())"
| "ship_all parties msg (addr # addrs) c =
     (case ship_evidence_to_rp parties addr msg c of
        (c', Inl (Panic p)) \<Rightarrow> (c', Inl (Panic p))
      | (c', _) \<Rightarrow> ship_all parties msg addrs c')"

definition choose_session :: "string \<Rightarrow> string option \<Rightarrow> (client, string) io" where
  "choose_session data_dir session_dir =
     (case session_dir of
        Some path \<Rightarrow> (\<lambda>c. if path_exists path c then (c, Inr path)
                          else (c, Inl (Err ''attester session path does not exist'')))
      | None \<Rightarrow> read_latest_session data_dir)"

definition send_evidence_from_session where
  "send_evidence_from_session C G E parties data_dir session_dir addrs =
     io_then (choose_session data_dir session_dir) (\<lambda>dir.
     io_then (io_context ''load DeviceConfigInfor failed; run the attester daemon first''
       (load_device_config_infor C (path_join dir DEVICE_CONFIG_FILE))) (\<lambda>dev_config.
     io_then (io_context ''load PublicContext failed; run the attester daemon first''
       (load_public_context C (path_join dir PUBLIC_CONTEXT_FILE))) (\<lambda>ctx.
     io_then (io (generate_device_evidence_from_config C G (en_now E) (en_setup E) (en_prove E)
       (pc_root ctx) dev_config)) (\<lambda>(reply, sig).
     io_then (io (encode_evidence_message C reply sig)) (\<lambda>msg.
     ship_all parties msg addrs)))))"

end
