(* ===== verification/EndToEnd.thy ===== *)
theory EndToEnd
  imports RelyingParty DaemonRuns
begin

text \<open>
  The parties together: the evidence an honest attester makes from the verifier's encrypted answer
  is accepted by a relying party that holds the verifier's public context.
\<close>

lemma own_leaf_opens_root:
  assumes cf: "clash_free h zs" and x: "x \<in> set zs"
    and path: "find_device_shrubs_path_tag h (shrubs_roots h zs) zs x = Inr (p, t)"
  shows "(\<exists>ps ts. p = Some ps \<and> t = Some ts \<and> length ps = length ts \<and> fold_path h x ps ts \<in> set (shrubs_roots h zs)) \<or>
    (p = None \<and> t = None \<and> shrubs_roots h zs \<noteq> [] \<and> x = hd (shrubs_roots h zs))"
proof -
  obtain i where i: "i < length zs" "zs ! i = x" using x by (auto simp: in_set_conv_nth)
  obtain k where k: "owner_at (length zs) i k" using owner_at_exists [OF i(1)] .
  note eq = find_device_shrubs_path_tag_eq [OF cf i(1) k]
  show ?thesis
  proof (cases "k = 0")
    case True
    have "i = last_left (length zs)" using k True by (simp add: owner_at_def root_at_def)
    moreover have "zs \<noteq> []" using i(1) by auto
    ultimately have "x = hd (shrubs_roots h zs)" using i(2) by (simp add: shrubs_roots_rec)
    then show ?thesis using eq True path i(2) \<open>zs \<noteq> []\<close> by simp
  next
    case False
    then show ?thesis using eq path i(2) find_device_sound [of h zs x] by auto
  qed
qed

lemma honest_circuit_satisfied:
  fixes C :: "('f, 'vk, 'sk, 'sg, 'pf, 'gv) crypto" and r :: "('f, 'vk, 'sg) response_device_infor"
  assumes dev: "generate_device_client_infor C now0 measurement key = Inr dev"
    and cf: "clash_free (hash2 C) zs" and mem: "dci_merkle_leaf dev \<in> set zs"
    and path: "find_device_shrubs_path_tag (hash2 C) (shrubs_roots (hash2 C) zs) zs (dci_merkle_leaf dev) =
      Inr (rdi_shrubs_path r, rdi_shrubs_tag r)"
  defines "cfg \<equiv> device_config_infor_new C key dev r"
  shows "generate_constraints (hash2 C)
    (circuit_new C cfg (shrubs_roots (hash2 C) zs) (dc_merkle_path cfg) (dc_merkle_tag cfg)) = Inr True"
proof -
  obtain m where m: "measurement = Some m" "dci_measured_value dev = m"
    "dci_merkle_leaf dev = hash2 C (hash2 C (fr_of_bytes C (bytes_of m)) (fr_of_bytes C (sk_bytes C (signing_key key))))
       (fr_of_bytes C (vk_sec1 C (verifying_key key)))"
    using dev by (auto simp: generate_device_client_infor_def generate_device_merkle_leaf_def
        device_client_infor_new_def read_measurement_file_def Let_def and_then_Inr_iff split: option.splits)
  show ?thesis
    unfolding circuit_satisfied_eq using own_leaf_opens_root [OF cf mem path] m
    by (simp add: cfg_def device_config_infor_new_def circuit_new_def circuit_output_eq Let_def)
qed

text \<open>Evidence for a satisfied circuit is accepted by a relying party with the same root list.\<close>

lemma satisfied_evidence_accepted:
  assumes C: "serial_ok C" "sign_ok C" "groth_complete C G"
    and cfg: "dc_verifying_key cfg = vk_of_sk C (dc_signing_key cfg)" "dc_signature cfg = Some vsig"
      "duration_ok (dc_timestamp cfg)" "duration_ok (dc_period cfg)"
    and sat: "generate_constraints (hash2 C) (circuit_new C cfg (pc_root ctx) (dc_merkle_path cfg) (dc_merkle_tag cfg)) = Inr True"
    and times: "duration_ok t" "duration_ok t'" "duration_nanos t + 120 * nanos_per_sec < 2 ^ 64 * nanos_per_sec"
      "duration_nanos t' < duration_nanos t + 120 * nanos_per_sec"
  obtains reply sig b where "generate_device_evidence_from_config C G (Some t) n1 n2 (pc_root ctx) cfg = Inr (reply, sig)"
    "encode_evidence_message C reply sig = Inr b"
    "listener_connection C (Some t') saved (Inr b) (Some ctx) = (Some ctx, [''verification success''])"
proof -
  let ?circ = "circuit_new C cfg (pc_root ctx) (dc_merkle_path cfg) (dc_merkle_tag cfg)"
  obtain pk gvk pf where g: "groth_setup G ?circ n1 = Inr (pk, gvk)" "groth_prove G pk ?circ n2 = Inr pf"
    "groth_verify C gvk (circuit_inputs ?circ) pf = Some True"
    using C(3) sat unfolding groth_complete_def by metis
  obtain reply m where e: "evidence_reply_new C (Some t) pf gvk vsig (dc_verifying_key cfg) (dc_timestamp cfg)
       (dc_period cfg) (dc_authorized_infor cfg) (dc_signing_key cfg) = Inr reply"
    "to_signing_bytes_all_fields C reply = Inr m"
    "generate_device_evidence_from_config C G (Some t) n1 n2 (pc_root ctx) cfg = Inr (reply, sg_sign C (dc_signing_key cfg) m)"
    using evidence_from_config_total [OF C(1) g(1,2) cfg(2)] .
  have "groth_verify C gvk (gen_public_inputs C reply (pc_root ctx)) pf = Some True"
    using evidence_public_inputs [OF e(3)] g(3) by simp
  then show ?thesis
    using honest_evidence_accepted [OF C(1,2) e(1) [unfolded cfg(1)] e(2) times(1,2) cfg(3,4) times(3,4)] e(3) that by blast
qed


lemma nat_of_be_padded: "nat_of_be (replicate n 0 @ bs) = nat_of_be bs"
  by (induction n) (simp_all add: nat_of_be_def)

lemma nat_of_u64_be: "nat_of_be (u64_be w) = unat w"
  using unat_bound [of w] by (simp add: u64_be_def nat_of_be_nat)

definition honest_item :: "(u64, u64, u64) attester_session" where
  "honest_item = \<lparr>as_socket = 1, as_dev_infor = \<lparr>dci_verifying_key = 7, dci_measured_value = ''ab'',
     dci_merkle_leaf = 224514, dci_timestamp = Duration 100 5, dci_period = duration_from_secs 8640000\<rparr>,
     as_merkle_leaf = 224514, as_response = None, as_attester_addr = ''a''\<rparr>"

lemma honest_item_made:
  "generate_device_client_infor toy_crypto (Some (Duration 100 5)) (Some ''ab'')
     \<lparr>signing_key = 7, verifying_key = (7::u64)\<rparr> = Inr (as_dev_infor honest_item)"
proof -
  have "nat_of_be (bytes_of ''ab'') = 24930" by (simp add: nat_of_be_def bytes_of_def)
  then show ?thesis
    by (simp add: honest_item_def generate_device_client_infor_def generate_device_merkle_leaf_def
        device_client_infor_new_def read_measurement_file_def current_unix_duration_def Let_def
        fr_of_bytes_def toy_crypto_def nat_of_be_padded nat_of_u64_be)
qed

lemma honest_clash_free: "clash_free (hash2 toy_crypto) [9, 224514]"
  by (simp add: clash_free_def toy_crypto_def upt_rec)

lemma honest_path:
  "find_device_shrubs_path_tag (hash2 toy_crypto) (create_batch_devices (hash2 toy_crypto) [] [9, 224514])
     [9, 224514] 224514 = Inr (Some [9], Some [False])"
proof -
  have "owner_at (length [9, 224514 :: u64]) 1 1" by (simp add: owner_at_def root_at_def last_left_def)
  from find_device_shrubs_path_tag_eq [OF honest_clash_free _ this]
  show ?thesis by (simp add: shrubs_roots_def sib_path_def sib_tags_def sibling_pos_def upt_rec)
qed

lemma honest_build:
  defines "ctx \<equiv> \<lparr>pc_root = create_batch_devices (hash2 toy_crypto) [] [9, 224514], pc_verifier_pk = 11\<rparr>"
  obtains cr sig where
    "build_encrypted_attester_response toy_crypto toy_vkey (pc_root ctx) [9, 224514] ctx
       (Some (Duration 200 0), 13, replicate 12 0) 1 honest_item = Inr cr"
    "cr_response cr = \<lparr>rdi_verifying_key = 7, rdi_attester_addr = ''a'', rdi_timestamp = Duration 200 0,
       rdi_period = duration_from_secs 8640000, rdi_sig = Some sig, rdi_shrubs_path = Some [9],
       rdi_shrubs_tag = Some [False]\<rparr>"
proof -
  let ?root = "create_batch_devices (hash2 toy_crypto) [] [9, 224514 :: u64]"
  have key: "keeps_key honest_item" by (simp add: keeps_key_def honest_item_def)
  define base where "base = \<lparr>rdi_verifying_key = 7 :: u64, rdi_attester_addr = ''a'', rdi_timestamp = Duration 200 0,
       rdi_period = duration_from_secs 8640000, rdi_sig = None :: u64 option, rdi_shrubs_path = Some [9 :: u64],
       rdi_shrubs_tag = Some [False]\<rparr>"
  define sig where "sig = verifier_compute_sig toy_crypto toy_vkey base
      (generate_device_authoried_infor toy_crypto (as_dev_infor honest_item) base)"
  obtain enc where enc: "encode_encrypted_verifier_response toy_crypto 13 (replicate 12 0) (base\<lparr>rdi_sig := Some sig\<rparr>) ctx 7 = Inr enc"
    using toy_encrypts [of 13 "replicate 12 0" "base\<lparr>rdi_sig := Some sig\<rparr>" ctx 7] by (auto simp: is_ok_iff)
  have f: "as_response honest_item = None" "dci_verifying_key (as_dev_infor honest_item) = 7"
    "as_merkle_leaf honest_item = 224514" "as_attester_addr honest_item = ''a''"
    by (simp_all add: honest_item_def)
  have "build_encrypted_attester_response toy_crypto toy_vkey (pc_root ctx) [9, 224514] ctx
       (Some (Duration 200 0), 13, replicate 12 0) 1 honest_item =
      Inr \<lparr>cr_index = 1, cr_socket = as_socket honest_item, cr_attester_addr = ''a'',
           cr_response = base\<lparr>rdi_sig := Some sig\<rparr>, cr_encrypted = enc\<rparr>"
    using enc unfolding build_encrypted_attester_response_def
    by (simp add: f ctx_def honest_path response_device_infor_new_def current_unix_duration_def Let_def
        base_def sig_def)
  then show ?thesis by (rule that) (simp add: base_def)
qed


end
