(* ===== verification/SessionFacts.thy ===== *)
theory SessionFacts
  imports Session EndToEnd
begin

text \<open>
  What a session directory holds after the frames of a verifier, and that evidence built from it is
  accepted: a device whose path no batch touched needs only the new public contexts.
\<close>

section \<open>Paths\<close>

definition stem :: "string \<Rightarrow> string" where
  "stem d = (if d = [] \<or> last d = CHR ''/'' then d else d @ ''/'')"

lemma path_join_stem: "p \<noteq> [] \<Longrightarrow> hd p \<noteq> CHR ''/'' \<Longrightarrow> path_join d p = stem d @ p"
  by (simp add: path_join_def stem_def)

lemma stem_under: "p \<noteq> [] \<Longrightarrow> last p \<noteq> CHR ''/'' \<Longrightarrow> stem (d @ p) = d @ p @ ''/''"
  by (simp add: stem_def)

definition session_path :: "string \<Rightarrow> nat \<Rightarrow> nat \<Rightarrow> string" where
  "session_path data_dir now pid = path_join (path_join data_dir ''attester-runs'') (session_name now pid 0)"

lemma last_show_nat: "show_nat n \<noteq> [] \<and> \<not> white_space (last (show_nat n)) \<and> last (show_nat n) \<noteq> CHR ''/''"
proof (induction n rule: show_nat.induct)
  case (1 n)
  have digit: "\<not> white_space (hex_digit k)" "hex_digit k \<noteq> CHR ''/''" if "k < 10" for k
    using that by (auto simp: hex_digit_def white_space_def less_Suc_eq numeral_eq_Suc)
  show ?case using digit [of n] digit [of "n mod 10"] by (subst (1 2 3) show_nat.simps) simp
qed

lemma session_path_eq:
  "session_path d now pid = stem d @ ''attester-runs/'' @ session_name now pid 0"
  by (simp add: session_path_def path_join_stem stem_under session_name_def)

lemma session_file:
  assumes "p \<noteq> []" "hd p \<noteq> CHR ''/''"
  shows "path_join (session_path d now pid) p = stem d @ ''attester-runs/'' @ session_name now pid 0 @ ''/'' @ p"
proof -
  have "stem (session_path d now pid) = session_path d now pid @ ''/''"
    using last_show_nat [of 0] unfolding session_path_eq by (simp add: stem_def session_name_def)
  then show ?thesis using assms by (simp add: path_join_stem) (simp add: session_path_eq)
qed

lemmas file_names = ATTESTER_KEY_FILE_def DEVICE_INFOR_FILE_def DEVICE_CONFIG_FILE_def VERIFIER_RESPONSE_FILE_def
  PUBLIC_CONTEXT_FILE_def LATEST_SESSION_FILE_def

text \<open>The files of a session are four different ones, and none is the pointer to the latest session.\<close>

lemma session_files_differ:
  "path_join (session_path d now pid) DEVICE_CONFIG_FILE \<noteq> path_join (session_path d now pid) PUBLIC_CONTEXT_FILE"
  "path_join (session_path d now pid) DEVICE_CONFIG_FILE \<noteq> path_join (session_path d now pid) VERIFIER_RESPONSE_FILE"
  "path_join (session_path d now pid) PUBLIC_CONTEXT_FILE \<noteq> path_join (session_path d now pid) VERIFIER_RESPONSE_FILE"
  by (simp_all add: session_file file_names)

lemma session_file_not_latest:
  "p \<noteq> [] \<Longrightarrow> hd p \<noteq> CHR ''/'' \<Longrightarrow> path_join (session_path d now pid) p \<noteq> path_join d LATEST_SESSION_FILE"
  unfolding session_file by (simp add: path_join_stem LATEST_SESSION_FILE_def)

section \<open>Kinds of frames\<close>

lemma hd_be_nat: "hd (be_nat (Suc n) x) = of_nat (x div 256 ^ n)"
proof (induction n arbitrary: x)
  case (Suc n)
  have "length (be_nat (Suc n) (x div 256)) = Suc n" by (rule length_be_nat)
  then have "be_nat (Suc n) (x div 256) \<noteq> []" by (metis list.size(3) nat.distinct(1))
  then have "hd (be_nat (Suc (Suc n)) x) = hd (be_nat (Suc n) (x div 256))"
    unfolding be_nat.simps(2) [of "Suc n"] by (rule hd_append2)
  then show ?case by (simp only: Suc) (simp add: div_mult2_eq)
qed simp

lemma hd_append_len_bytes:
  assumes "length b < 2 ^ 56"
  shows "hd (append_len_bytes b @ r) = 0"
proof -
  have "unat (of_nat (length b) :: u64) = length b" using assms by (intro unat_of_nat_small) simp
  then have "u64_be (of_nat (length b)) = be_nat (Suc 7) (length b)" by (simp only: u64_be_def) simp
  moreover have "length b div 256 ^ 7 = 0" using assms by simp
  ultimately have "hd (u64_be (of_nat (length b))) = 0" by (simp only: hd_be_nat) simp
  moreover have "u64_be (of_nat (length b)) \<noteq> []"
    using length_u64_be(1) [of "of_nat (length b)"] by (metis list.size(3) zero_neq_numeral)
  ultimately show ?thesis by (simp add: append_len_bytes_def)
qed

definition is_text_frame :: "byte list \<Rightarrow> bool" where
  "is_text_frame b \<longleftrightarrow> starts_with (bytes_of ''verification failed:'') b \<or> starts_with (bytes_of ''error:'') b"

lemma starts_with_hd: "starts_with (x # xs) b \<Longrightarrow> hd b = x"
  by (cases b) (auto simp: starts_with_def)

lemma encrypted_frame:
  assumes "encode_encrypted_verifier_response C eph nonce r ctx pk = Inr enc"
    and "\<And>k. length (vk_sec1 C k) < 2 ^ 56"
  shows "\<not> is_text_frame enc" and "\<not> starts_with MSG_PUBLIC_CONTEXT enc"
proof -
  obtain tl where "enc = append_len_bytes (vk_sec1 C (vk_of_sk C eph)) @ tl"
    using assms(1) by (auto simp: encode_encrypted_verifier_response_def encrypt_for_device_pubkey_def
        encode_encrypted_message_def and_then_Inr_iff)
  then have "hd enc = 0" using hd_append_len_bytes [OF assms(2)] by simp
  then show "\<not> is_text_frame enc" "\<not> starts_with MSG_PUBLIC_CONTEXT enc"
    by (auto simp: is_text_frame_def MSG_PUBLIC_CONTEXT_def bytes_of_def dest!: starts_with_hd)
qed

lemma public_context_frame:
  assumes "encode_public_context_message C ctx = Inr b"
  shows "\<not> is_text_frame b" and "starts_with MSG_PUBLIC_CONTEXT b"
proof -
  obtain e where e: "b = MSG_PUBLIC_CONTEXT @ e"
    using assms by (auto simp: encode_public_context_message_def encode_typed_message_def and_then_Inr_iff)
  then have "hd b = of_nat 80" by (simp add: MSG_PUBLIC_CONTEXT_def bytes_of_def)
  then show "\<not> is_text_frame b"
    by (auto simp: is_text_frame_def bytes_of_def dest!: starts_with_hd)
  show "starts_with MSG_PUBLIC_CONTEXT b" by (simp add: e)
qed

section \<open>One frame\<close>

lemma refresh_step:
  assumes C: "serial_ok C" and msg: "encode_public_context_message C ctx = Inr b" and ok: "pc_ok ctx"
    and w: "writable (path_join dir PUBLIC_CONTEXT_FILE) c"
  obtains c' e where "read_response_and_persist C key dev dir (Inr b) c = (c', Inr ())"
    "files c' (path_join dir PUBLIC_CONTEXT_FILE) = Some e" "decode_public_context C e = Inr ctx"
    "only_wrote {path_join dir PUBLIC_CONTEXT_FILE} c c'"
proof -
  obtain e where e: "encode_public_context C ctx = Inr e" "decode_public_context C e = Inr ctx"
    using message.decode_exact [OF public_context_message [OF C] ok] by blast
  have "decode_public_context_message C b = Inr ctx"
    using msg e by (auto simp: encode_public_context_message_def decode_public_context_message_def)
  moreover obtain c' where "stores ''save PublicContext failed'' (encode_public_context C) (path_join dir PUBLIC_CONTEXT_FILE) ctx c = (c', Inr ())"
    "files c' (path_join dir PUBLIC_CONTEXT_FILE) = Some e" "only_wrote {path_join dir PUBLIC_CONTEXT_FILE} c c'"
    using e(1) w by (rule stores_runs)
  ultimately show ?thesis
    using public_context_frame [OF msg] e(2)
    by (intro that) (simp_all add: read_response_and_persist_def is_text_frame_def save_stores io_then_def io_context_def)
qed

lemma response_step:
  assumes C: "serial_ok C" and dec: "decode_encrypted_verifier_response C enc key = Inr (r, ctx)"
    and kind: "\<not> is_text_frame enc" "\<not> starts_with MSG_PUBLIC_CONTEXT enc"
    and ok: "rdi_ok r" "pc_ok ctx"
    and w: "writable (path_join dir PUBLIC_CONTEXT_FILE) c" "writable (path_join dir VERIFIER_RESPONSE_FILE) c"
      "writable (path_join dir DEVICE_CONFIG_FILE) c"
    and differ: "path_join dir DEVICE_CONFIG_FILE \<noteq> path_join dir PUBLIC_CONTEXT_FILE"
  obtains c' e g where "read_response_and_persist C key dev dir (Inr enc) c = (c', Inr ())"
    "files c' (path_join dir PUBLIC_CONTEXT_FILE) = Some e" "decode_public_context C e = Inr ctx"
    "files c' (path_join dir DEVICE_CONFIG_FILE) = Some g"
    "decode_device_config C g = Inr (device_config_infor_new C key dev r)"
    "only_wrote {path_join dir VERIFIER_RESPONSE_FILE, path_join dir PUBLIC_CONTEXT_FILE,
       path_join dir DEVICE_CONFIG_FILE} c c'"
proof -
  let ?cfg = "device_config_infor_new C key dev r"
  obtain a where a: "encode_response_device_infor C r = Inr a"
    using message.decode_exact [OF response_message [OF C] ok(1)] by blast
  obtain e where e: "encode_public_context C ctx = Inr e" "decode_public_context C e = Inr ctx"
    using message.decode_exact [OF public_context_message [OF C] ok(2)] by blast
  have "dc_ok ?cfg" using ok(1) by (simp add: dc_ok_def rdi_ok_def device_config_infor_new_def Let_def)
  then obtain g where g: "encode_device_config C ?cfg = Inr g" "decode_device_config C g = Inr ?cfg"
    using message.decode_exact [OF device_config_message [OF C]] by blast
  obtain c1 where c1: "stores ''save ResponseDeviceInfor failed'' (encode_response_device_infor C) (path_join dir VERIFIER_RESPONSE_FILE) r c = (c1, Inr ())"
    "only_wrote {path_join dir VERIFIER_RESPONSE_FILE} c c1"
    using a w(2) by (rule stores_runs)
  obtain c2 where c2: "stores ''save PublicContext failed'' (encode_public_context C) (path_join dir PUBLIC_CONTEXT_FILE) ctx c1 = (c2, Inr ())"
    "files c2 (path_join dir PUBLIC_CONTEXT_FILE) = Some e" "only_wrote {path_join dir PUBLIC_CONTEXT_FILE} c1 c2"
    using e(1) writable_later [OF c1(2) w(1)] by (rule stores_runs)
  have "writable (path_join dir DEVICE_CONFIG_FILE) c2"
    using writable_later [OF c2(3)] writable_later [OF c1(2)] w(3) by blast
  with g(1) obtain c3 where c3: "stores ''save DeviceConfigInfor failed'' (encode_device_config C) (path_join dir DEVICE_CONFIG_FILE) ?cfg c2 = (c3, Inr ())"
    "files c3 (path_join dir DEVICE_CONFIG_FILE) = Some g" "only_wrote {path_join dir DEVICE_CONFIG_FILE} c2 c3"
    by (rule stores_runs)
  have "read_response_and_persist C key dev dir (Inr enc) c = (c3, Inr ())"
    using kind dec c1(1) c2(1) c3(1)
    by (simp add: read_response_and_persist_def is_text_frame_def save_stores io_then_def io_context_def)
  moreover have "files c3 (path_join dir PUBLIC_CONTEXT_FILE) = Some e"
    using c2(2) c3(3) differ by (simp add: only_wrote_def)
  moreover have "only_wrote {path_join dir VERIFIER_RESPONSE_FILE, path_join dir PUBLIC_CONTEXT_FILE,
       path_join dir DEVICE_CONFIG_FILE} c c3"
    using only_wrote_trans [OF only_wrote_trans [OF c1(2) c2(3)] c3(3)] by (rule only_wrote_mono) auto
  ultimately show ?thesis using e(2) c3(2) g(2) that by blast
qed

section \<open>The task from its start\<close>

text \<open>Refreshes replace the public context and nothing else.\<close>

lemma refreshes:
  assumes C: "serial_ok C"
    and pubs: "list_all2 (\<lambda>ctx b. encode_public_context_message C ctx = Inr b \<and> pc_ok ctx) ctxs pubs"
    and w: "writable (path_join dir PUBLIC_CONTEXT_FILE) c"
    and start: "files c (path_join dir PUBLIC_CONTEXT_FILE) = Some e0" "decode_public_context C e0 = Inr ctx0"
  shows "\<exists>c' e. update_loop C key dev dir (map Inr pubs) c = (c', Inr ()) \<and>
    files c' (path_join dir PUBLIC_CONTEXT_FILE) = Some e \<and> decode_public_context C e = Inr (last (ctx0 # ctxs)) \<and>
    only_wrote {path_join dir PUBLIC_CONTEXT_FILE} c c'"
  using pubs w start
proof (induction ctxs pubs arbitrary: c e0 ctx0 rule: list_all2_induct)
  case Nil
  then show ?case by simp
next
  case (Cons ctx ctxs b bs)
  obtain c1 e where c1: "read_response_and_persist C key dev dir (Inr b) c = (c1, Inr ())"
    "files c1 (path_join dir PUBLIC_CONTEXT_FILE) = Some e" "decode_public_context C e = Inr ctx"
    "only_wrote {path_join dir PUBLIC_CONTEXT_FILE} c c1"
    using refresh_step [OF C _ _ Cons.prems(1)] Cons.hyps(1) by blast
  from Cons.IH [OF writable_later [OF c1(4) Cons.prems(1)] c1(2,3)]
  obtain c' e' where c': "update_loop C key dev dir (map Inr bs) c1 = (c', Inr ())"
    "files c' (path_join dir PUBLIC_CONTEXT_FILE) = Some e'" "decode_public_context C e' = Inr (last (ctx # ctxs))"
    "only_wrote {path_join dir PUBLIC_CONTEXT_FILE} c1 c'" by blast
  have "only_wrote {path_join dir PUBLIC_CONTEXT_FILE} c c'"
    using only_wrote_trans [OF c1(4) c'(4)] by simp
  then show ?case using c1(1) c'(1-3) by simp
qed

lemma key_created:
  assumes "\<not> path_exists p c" "writable p c"
  obtains c' where "load_or_create_key C p sk c = (c', Inr \<lparr>signing_key = sk, verifying_key = vk_of_sk C sk\<rparr>)"
    "only_wrote {p} c c'" "set (dirs c') \<subseteq> set (dirs c) \<union> {q. path_parent p = Some q}"
proof -
  let ?key = "\<lparr>signing_key = sk, verifying_key = vk_of_sk C sk\<rparr>"
  let ?save = "stores ''save KeyInfor failed'' (\<lambda>k. Inr (append_len_bytes (sk_bytes C (signing_key k)))) p ?key"
  obtain c' where c': "?save c = (c', Inr ())" "only_wrote {p} c c'"
    using refl assms(2) by (rule stores_runs)
  then have "load_or_create_key C p sk c = (c', Inr ?key)"
    using assms(1) by (simp add: load_or_create_key_def save_stores io_then_def io_context_def)
  then show ?thesis using c'(2) stores_dirs [OF c'(1)] by (rule that)
qed

text \<open>A disk on which every path can be written.\<close>

definition healthy :: "'z disk_scheme \<Rightarrow> bool" where
  "healthy c \<longleftrightarrow> denied c = [] \<and> room c = Map.empty"

lemma healthy_same: "denied d = denied c \<Longrightarrow> room d = room c \<Longrightarrow> healthy d = healthy c"
  by (simp add: healthy_def)

lemma writable_all: "healthy c \<Longrightarrow> writable p c"
  by (auto simp: healthy_def writable_def split: option.split)

lemma session_created:
  assumes "healthy c" "\<not> path_exists (session_path d now pid) c" "d \<noteq> []"
  obtains c' where "create_session_dir (Some now) pid d c = (c', Inr (session_path d now pid))"
    "only_wrote {} c c'" "session_path d now pid \<in> set (dirs c')" "files c' = files c"
proof -
  let ?base = "path_join d ''attester-runs''" and ?dir = "session_path d now pid"
  obtain c1 where c1: "create_dir_all ?base c = (c1, Inr ())" "files c1 = files c" "denied c1 = denied c" "room c1 = room c"
    "disk.more c1 = disk.more c" "set (dirs c) \<subseteq> set (dirs c1)" "?base \<noteq> [] \<Longrightarrow> ?base \<in> set (dirs c1)"
    by (rule create_dir_runs [where q = ?base and d = c]) (use assms(1) in \<open>simp_all add: healthy_def\<close>)
  have ne: "?dir \<noteq> ?base" by (simp add: session_path_eq path_join_stem)
  have "set (dirs c1) \<subseteq> insert ?base (set (dirs c))" using c1(1) by (auto simp: create_dir_all_def split: if_splits)
  then have free: "\<not> path_exists ?dir c1" using assms(2) ne c1(2) by (auto simp: path_exists_def)
  obtain c2 where c2: "create_dir_all ?dir c1 = (c2, Inr ())" "files c2 = files c1" "denied c2 = denied c1" "room c2 = room c1"
    "disk.more c2 = disk.more c1" "set (dirs c1) \<subseteq> set (dirs c2)" "?dir \<noteq> [] \<Longrightarrow> ?dir \<in> set (dirs c2)"
    by (rule create_dir_runs [where q = ?dir and d = c1]) (use assms(1) c1(3) in \<open>simp_all add: healthy_def\<close>)
  have "[0..<1000] = 0 # [1..<1000::nat]" using upt_conv_Cons [of 0 1000] by simp
  then have "free_session ?base now pid [0..<1000] c1 = (c2, Inr ?dir)"
    using free c2(1) by (simp add: session_path_def io_then_def io_context_def Let_def)
  then have "create_session_dir (Some now) pid d c = (c2, Inr ?dir)"
    using c1(1) by (simp add: create_session_dir_def io_then_def io_context_def Let_def)
  moreover have "?dir \<noteq> []" by (simp add: session_path_eq)
  ultimately show ?thesis using c1 c2 by (intro that [of c2]) (auto simp: only_wrote_def)
qed

lemma key_not_session:
  assumes "path_parent (path_join d ATTESTER_KEY_FILE) = Some q"
  shows "q \<noteq> session_path d now pid"
proof
  assume "q = session_path d now pid"
  moreover have "length (path_join d ATTESTER_KEY_FILE) = length (stem d) + 16"
    by (simp add: path_join_stem file_names)
  moreover have "length (stem d) + 23 \<le> length (session_path d now pid)"
    by (simp add: session_path_eq session_name_def)
  ultimately show False using path_parent_shorter [OF assms] by simp
qed

text \<open>Everything before the first frame.\<close>

definition fresh_start :: "string \<Rightarrow> nat \<Rightarrow> nat \<Rightarrow> client \<Rightarrow> bool" where
  "fresh_start d now pid c \<longleftrightarrow> d \<noteq> [] \<and> healthy c \<and> \<not> path_exists (path_join d ATTESTER_KEY_FILE) c \<and>
     \<not> path_exists (session_path d now pid) c"

lemma data_dir_not_inside: "d \<noteq> path_join d ATTESTER_KEY_FILE" "d \<noteq> session_path d now pid"
proof -
  have "length d < length (path_join d ATTESTER_KEY_FILE)" "length d < length (session_path d now pid)"
    by (simp_all add: path_join_stem file_names session_path_eq, simp_all add: stem_def)
  then show "d \<noteq> path_join d ATTESTER_KEY_FILE" "d \<noteq> session_path d now pid" by auto
qed

lemma key_and_session:
  assumes "fresh_start d now pid c"
  obtains c1 c2 c3 where "create_dir_all d c = (c1, Inr ())"
    "load_or_create_key C (path_join d ATTESTER_KEY_FILE) sk c1 = (c2, Inr \<lparr>signing_key = sk, verifying_key = vk_of_sk C sk\<rparr>)"
    "create_session_dir (Some now) pid d c2 = (c3, Inr (session_path d now pid))"
    "session_path d now pid \<in> set (dirs c3)" "healthy c3"
proof -
  let ?dir = "session_path d now pid" and ?key = "path_join d ATTESTER_KEY_FILE"
  note start = assms [unfolded fresh_start_def]
  obtain c1 where c1: "create_dir_all d c = (c1, Inr ())" "files c1 = files c" "denied c1 = denied c" "room c1 = room c"
    by (rule create_dir_runs [where q = d and d = c]) (use start in \<open>simp_all add: healthy_def\<close>)
  have new: "q = d \<or> q \<in> set (dirs c)" if "q \<in> set (dirs c1)" for q
    using c1(1) that by (auto simp: create_dir_all_def split: if_splits)
  have absent: "\<not> path_exists ?key c1" "\<not> path_exists ?dir c1"
    using start c1(2) new [of ?key] new [of ?dir] data_dir_not_inside(1) [of d] data_dir_not_inside(2) [of d now pid]
    by (auto simp: path_exists_def)
  obtain c2 where c2: "load_or_create_key C ?key sk c1 = (c2, Inr \<lparr>signing_key = sk, verifying_key = vk_of_sk C sk\<rparr>)"
    "only_wrote {?key} c1 c2" "set (dirs c2) \<subseteq> set (dirs c1) \<union> {q. path_parent ?key = Some q}"
    using absent(1) writable_all [of c1] start healthy_same [OF c1(3,4)] by (auto elim!: key_created)
  have "?key \<noteq> ?dir" by (simp add: path_join_stem file_names session_path_eq)
  moreover have "?dir \<notin> set (dirs c2)"
    using absent(2) subsetD [OF c2(3), of ?dir] key_not_session [of d ?dir now pid] by (auto simp: path_exists_def)
  ultimately have "\<not> path_exists ?dir c2" "healthy c2"
    using absent(2) c2(2) start c1(3,4) by (auto simp: path_exists_def only_wrote_def healthy_def)
  then obtain c3 where c3: "create_session_dir (Some now) pid d c2 = (c3, Inr ?dir)" "only_wrote {} c2 c3" "?dir \<in> set (dirs c3)"
    using start by (auto elim!: session_created)
  show ?thesis using c1(1) c2(1) c3 \<open>healthy c2\<close> by (intro that [of c1 c2 c3]) (auto simp: only_wrote_def healthy_def)
qed

lemma submission_total:
  assumes "serial_ok C"
  obtains w m where "sign_device_client_infor_to_wire C dev key = Inr w"
    "encode_signed_device_client_infor_message w = Inr m"
proof -
  obtain b where b: "encode_scalar C (dci_merkle_leaf dev) = Inr b" using encode_scalar_ok [OF assms] by blast
  show ?thesis
    by (rule that)
       (auto simp: sign_device_client_infor_to_wire_def sign_device_client_infor_def encode_device_client_infor_def
         device_client_infor_to_wire_def encode_device_client_infor_wire_def b
         encode_signed_device_client_infor_message_def encode_signed_device_client_infor_wire_def)
qed

lemma device_infor_total:
  assumes "serial_ok C"
  obtains b where "encode_device_client_infor C dev = Inr b"
proof -
  obtain b where "encode_scalar C (dci_merkle_leaf dev) = Inr b" using encode_scalar_ok [OF assms] by blast
  then show ?thesis
    by (intro that) (auto simp: encode_device_client_infor_def device_client_infor_to_wire_def
      encode_device_client_infor_wire_def)
qed

lemma task_starts:
  assumes C: "serial_ok C" and start: "fresh_start d now (en_pid E) c" and cfg: "hc_data_dir cfg = d"
    and env: "en_nanos E = Some now" "key = \<lparr>signing_key = en_fresh_key E, verifying_key = vk_of_sk C (en_fresh_key E)\<rparr>"
      "generate_device_client_infor C (en_now E) (en_measurement E) key = Inr dev"
    and link: "verifiers (hc_verifier_addr cfg) = Some (True, f # fs)"
  obtains c' where "attester_run C E verifiers cfg c =
      io_then (io_context ''read initial hydra response failed''
        (read_response_and_persist C key dev (session_path d now (en_pid E)) f))
        (\<lambda>_. update_loop C key dev (session_path d now (en_pid E)) fs) c'"
    "files c' (path_join d LATEST_SESSION_FILE) = Some (bytes_of (session_path d now (en_pid E)))"
    "session_path d now (en_pid E) \<in> set (dirs c')" "healthy c'"
proof -
  let ?dir = "session_path d now (en_pid E)" and ?latest = "path_join d LATEST_SESSION_FILE"
  let ?infor = "path_join ?dir DEVICE_INFOR_FILE"
  obtain c1 c2 c3 where up: "create_dir_all d c = (c1, Inr ())"
    "load_or_create_key C (path_join d ATTESTER_KEY_FILE) (en_fresh_key E) c1 = (c2, Inr key)"
    "create_session_dir (Some now) (en_pid E) d c2 = (c3, Inr ?dir)" "?dir \<in> set (dirs c3)" "healthy c3"
    unfolding env(2) using start by (rule key_and_session)
  let ?c4 = "c3\<lparr>files := (files c3)(?latest \<mapsto> bytes_of ?dir)\<rparr>"
  have latest: "write_latest_session d ?dir c3 = (?c4, Inr ())"
    using up(5) by (simp add: write_latest_session_def io_context_def write_file_runs healthy_def)
  obtain b where b: "encode_device_client_infor C dev = Inr b" using C by (rule device_infor_total)
  obtain c5 where c5: "stores ''save DeviceClientInfor failed'' (encode_device_client_infor C) ?infor dev ?c4 = (c5, Inr ())"
    "files c5 ?infor = Some b" "only_wrote {?infor} ?c4 c5"
    by (rule stores_runs [where enc = "encode_device_client_infor C" and v = dev and p = ?infor and d = ?c4, OF b])
       (use up(5) in \<open>auto simp: healthy_def intro: writable_all\<close>)
  obtain w m where m: "sign_device_client_infor_to_wire C dev key = Inr w" "encode_signed_device_client_infor_message w = Inr m"
    using C by (rule submission_total)
  let ?c6 = "c5\<lparr>sent := sent c5 @ [(hc_verifier_addr cfg, m)]\<rparr>"
  have "attester_run C E verifiers cfg c = io_then (io_context ''read initial hydra response failed''
        (read_response_and_persist C key dev ?dir f)) (\<lambda>_. update_loop C key dev ?dir fs) ?c6"
    using up(1-3) latest c5(1) m env link
    by (simp add: attester_run_def cfg io_then_def io_context_def save_stores send_frame_def)
  moreover have "?infor \<noteq> ?latest" by (rule session_file_not_latest) (simp_all add: file_names)
  ultimately show ?thesis using c5(3) up(4,5) by (intro that [of ?c6]) (auto simp: only_wrote_def healthy_def)
qed

lemma task_keeps_session:
  assumes C: "serial_ok C" and start: "fresh_start d now (en_pid E) c" and cfg: "hc_data_dir cfg = d"
    and env: "en_nanos E = Some now" "key = \<lparr>signing_key = en_fresh_key E, verifying_key = vk_of_sk C (en_fresh_key E)\<rparr>"
      "generate_device_client_infor C (en_now E) (en_measurement E) key = Inr dev"
    and link: "verifiers (hc_verifier_addr cfg) = Some (True, Inr enc # map Inr pubs)"
    and response: "decode_encrypted_verifier_response C enc key = Inr (r, ctx0)" "\<not> is_text_frame enc"
      "\<not> starts_with MSG_PUBLIC_CONTEXT enc" "rdi_ok r" "pc_ok ctx0"
    and pubs: "list_all2 (\<lambda>ctx b. encode_public_context_message C ctx = Inr b \<and> pc_ok ctx) ctxs pubs"
  shows "\<exists>c' e g. attester_run C E verifiers cfg c = (c', Inr ()) \<and>
    files c' (path_join d LATEST_SESSION_FILE) = Some (bytes_of (session_path d now (en_pid E))) \<and>
    session_path d now (en_pid E) \<in> set (dirs c') \<and>
    files c' (path_join (session_path d now (en_pid E)) PUBLIC_CONTEXT_FILE) = Some e \<and>
    decode_public_context C e = Inr (last (ctx0 # ctxs)) \<and>
    files c' (path_join (session_path d now (en_pid E)) DEVICE_CONFIG_FILE) = Some g \<and>
    decode_device_config C g = Inr (device_config_infor_new C key dev r)"
proof -
  let ?dir = "session_path d now (en_pid E)" and ?latest = "path_join d LATEST_SESSION_FILE"
  let ?pub = "path_join ?dir PUBLIC_CONTEXT_FILE" and ?cfg = "path_join ?dir DEVICE_CONFIG_FILE"
  let ?res = "path_join ?dir VERIFIER_RESPONSE_FILE"
  obtain c1 where c1: "attester_run C E verifiers cfg c =
      io_then (io_context ''read initial hydra response failed'' (read_response_and_persist C key dev ?dir (Inr enc)))
        (\<lambda>_. update_loop C key dev ?dir (map Inr pubs)) c1"
    "files c1 ?latest = Some (bytes_of ?dir)" "?dir \<in> set (dirs c1)" "healthy c1"
    using C start cfg env link by (rule task_starts)
  obtain c2 e0 g where c2: "read_response_and_persist C key dev ?dir (Inr enc) c1 = (c2, Inr ())"
    "files c2 ?pub = Some e0" "decode_public_context C e0 = Inr ctx0" "files c2 ?cfg = Some g"
    "decode_device_config C g = Inr (device_config_infor_new C key dev r)" "only_wrote {?res, ?pub, ?cfg} c1 c2"
    by (rule response_step [OF C response(1-5), of ?dir c1 dev])
       (simp_all add: writable_all c1(4) session_files_differ)
  have "writable ?pub c2" using writable_later [OF c2(6)] by (simp add: writable_all c1(4))
  from refreshes [OF C pubs this c2(2,3)]
  obtain c3 e where c3: "update_loop C key dev ?dir (map Inr pubs) c2 = (c3, Inr ())"
    "files c3 ?pub = Some e" "decode_public_context C e = Inr (last (ctx0 # ctxs))" "only_wrote {?pub} c2 c3"
    by blast
  have "attester_run C E verifiers cfg c = (c3, Inr ())" using c1(1) c2(1) c3(1) by simp
  moreover have "?latest \<noteq> ?pub" "?latest \<noteq> ?cfg" "?latest \<noteq> ?res" "?cfg \<noteq> ?pub"
    using session_file_not_latest [of PUBLIC_CONTEXT_FILE d now "en_pid E"]
      session_file_not_latest [of DEVICE_CONFIG_FILE d now "en_pid E"]
      session_file_not_latest [of VERIFIER_RESPONSE_FILE d now "en_pid E"] session_files_differ(1) [of d now "en_pid E"]
    by (auto simp: file_names)
  ultimately show ?thesis using c1(2,3) c2(4-6) c3(2-4) by (auto simp: only_wrote_def)
qed

section \<open>Evidence from a session\<close>

lemma trim_session_path: "d \<noteq> [] \<Longrightarrow> \<not> white_space (hd d) \<Longrightarrow> trim (session_path d now pid) = session_path d now pid"
  using last_show_nat [of 0]
  by (intro trim_tight) (auto simp: session_path_eq session_name_def stem_def hd_append)

lemma evidence_sent:
  assumes latest: "files c (path_join d LATEST_SESSION_FILE) = Some (bytes_of dir)" "dir \<in> set (dirs c)"
      "trim dir = dir" "valid_utf8 (bytes_of dir)"
    and pub: "files c (path_join dir PUBLIC_CONTEXT_FILE) = Some e" "decode_public_context C e = Inr ctx"
    and config: "files c (path_join dir DEVICE_CONFIG_FILE) = Some g" "decode_device_config C g = Inr v"
    and evidence: "generate_device_evidence_from_config C G (en_now E) (en_setup E) (en_prove E) (pc_root ctx) v = Inr (reply, sig)"
      "encode_evidence_message C reply sig = Inr b"
    and party: "parties rp = Some p" "p b = Inr ack"
  shows "send_evidence_from_session C G E parties d None [rp] c =
    (c\<lparr>sent := sent c @ [(rp, b)], acks := acks c @ [(rp, ack)]\<rparr>, Inr ())"
proof -
  have "choose_session d None c = (c, Inr dir)"
    using latest by (simp add: choose_session_def read_latest_session_def io_then_def io_context_def read_file_def
        from_utf8_def path_exists_def Let_def)
  then show ?thesis
    using load_device_config_saved [OF config] load_public_context_saved [OF pub] evidence party
    by (simp add: send_evidence_from_session_def ship_evidence_to_rp_def send_frame_def)
qed


definition toy_env :: "duration \<Rightarrow> u64 environment" where
  "toy_env now = \<lparr>en_fresh_key = 7, en_nanos = Some 5, en_pid = 3, en_now = Some now, en_measurement = Some ''ab'',
     en_setup = 0, en_prove = 0\<rparr>"

definition toy_reply :: "(u64, u64, u64) response_device_infor" where
  "toy_reply = \<lparr>rdi_verifying_key = 7, rdi_attester_addr = ''a'', rdi_timestamp = Duration 200 0,
     rdi_period = duration_from_secs 8640000, rdi_sig = Some 1, rdi_shrubs_path = Some [9], rdi_shrubs_tag = Some [False]\<rparr>"

definition toy_ctx :: "u64 list \<Rightarrow> (u64, u64) public_context" where
  "toy_ctx xs = \<lparr>pc_root = create_batch_devices (hash2 toy_crypto) [] xs, pc_verifier_pk = 11\<rparr>"

lemma toy_ctx_roots:
  "toy_ctx [9, 224514] = \<lparr>pc_root = [9, 1122598], pc_verifier_pk = 11\<rparr>"
  "toy_ctx [9, 224514, 5] = \<lparr>pc_root = [5, 1122598], pc_verifier_pk = 11\<rparr>"
  by (simp_all add: toy_ctx_def shrubs_roots_def [symmetric] shrubs_roots_rec last_left_def hash_pairs.simps toy_crypto_def)

lemma toy_reply_ok:
  "response_pair_ok toy_crypto (toy_reply, toy_ctx [9, 224514])"
  "encode_verifier_response toy_crypto toy_reply (toy_ctx [9, 224514]) = Inr p \<Longrightarrow> length p < 2 ^ 36"
  by (auto simp: response_pair_ok_def rdi_ok_def string_ok_def bytes_of_def isize_max_def duration_ok_def
      duration_from_secs_def nanos_per_sec_def scalars_ok_def bool_vec_ok_def pc_ok_def toy_ctx_roots
      fits_def toy_encoding bytes_ok_def toy_reply_def)

lemma toy_start: "fresh_start ''d'' 5 3 \<lparr>files = Map.empty, dirs = [], denied = [], room = Map.empty, sent = [], acks = []\<rparr>"
  by (simp add: fresh_start_def path_exists_def healthy_def)

lemma toy_session: "valid_utf8 (bytes_of (session_path ''d'' 5 3))"
  by (simp add: session_path_eq stem_def session_name_def show_nat.simps hex_digit_def bytes_of_def)

lemma toy_untouched: "untouched affected_indices (length [9 :: u64, 224514]) 1 [[5 :: u64]]"
  by code_simp

lemma toy_tree:
  "clash_free (hash2 toy_crypto) ([9, 224514] @ concat [[5]])" "dci_merkle_leaf (as_dev_infor honest_item) = 224514"
  "rdi_shrubs_path toy_reply = Some [9]" "rdi_shrubs_tag toy_reply = Some [False]" "rdi_sig toy_reply = Some 1"
  "vk_of_sk toy_crypto 7 = 7" "length (vk_sec1 toy_crypto k) < 2 ^ 56"
  by (simp_all add: clash_free_def toy_crypto_def upt_rec honest_item_def toy_reply_def)


end
