(* ===== verification/Restart.thy ===== *)
theory Restart
  imports Disk RelyingParty HydraDaemon Tasks
begin

text \<open>
  The start of the verifier's daemon and of the relying party's listener (the part of the two \<open>run\<close>
  functions before the accept loop), and the listener with its context file on the disk, its connections
  served as concurrent tasks. Binding the address is a flag; what a process kept in memory is gone at the
  next start.
\<close>

record listener_config =
  hl_listen_addr :: string
  hl_data_dir :: string

record daemon_config =
  hd_listen_addr :: string
  hd_relying_party_addrs :: "string list"
  hd_data_dir :: string

section \<open>Starting\<close>

text \<open>\<open>Result::ok\<close>: an error is no value, a panic stays one.\<close>

definition io_ok :: "('s, 'a) io \<Rightarrow> ('s, 'a option) io" where
  "io_ok m d = (case m d of
     (d', Inr x) \<Rightarrow> (d', Inr (Some x))
   | (d', Inl (Err e)) \<Rightarrow> (d', Inr None)
   | (d', Inl (Panic p)) \<Rightarrow> (d', Inl (Panic p)))"

definition listener_start where
  "listener_start C bound cfg =
     io_then (io_context ''create hydra data dir failed'' (create_dir_all (hl_data_dir cfg))) (\<lambda>_.
     io_then (io_ok (load_public_context C (path_join (hl_data_dir cfg) PUBLIC_CONTEXT_FILE))) (\<lambda>initial.
     io_then (io (bail_unless bound ''hydra listen failed'')) (\<lambda>_. io (Inr initial))))"

definition daemon_start where
  "daemon_start C fresh bound cfg =
     io_then (io_context ''create hydra data dir failed'' (create_dir_all (hd_data_dir cfg))) (\<lambda>_.
     let key_path = path_join (hd_data_dir cfg) VERIFIER_KEY_FILE in
     io_then (\<lambda>d. if path_exists key_path d then
                 io_context ''load verifier key failed'' (load_key_infor C key_path) d
               else
                 (let key = \<lparr>signing_key = fresh, verifying_key = vk_of_sk C fresh\<rparr> in
                  io_then (io_context ''save generated verifier key failed'' (save_key_infor C key_path key))
                    (\<lambda>_. io (Inr key)) d)) (\<lambda>verifier_key.
     io_then (io (bail_unless bound ''hydra TCP listen failed'')) (\<lambda>_.
     io (Inr (verifier_key, verifier_state_new)))))"

section \<open>The listener on a disk\<close>

text \<open>
  Saving a context in the two steps another connection can come between: opening the file, which empties
  it, and writing into it, here one call of the system.
\<close>

definition save_opens where
  "save_opens C path ctx =
     io_then (ensure_parent_dir path) (\<lambda>_.
     io_then (io (encode_public_context C ctx)) (\<lambda>out.
     io_then (io_context ''save PublicContext failed'' (create_file path)) (\<lambda>_. io (Inr out))))"

definition save_writes where
  "save_writes path out = io_context ''save PublicContext failed'' (write_all path out)"

lemma save_in_steps: "save_public_context C path ctx = io_then (save_opens C path ctx) (save_writes path)"
  by (auto simp: save_stores stores_def save_opens_def save_writes_def write_file_def io_then_def io_context_def fun_eq_iff
      split: prod.split sum.split)

text \<open>
  A connection, and what its task still has to do. Evidence is answered in one step: only the reading
  of the context in memory is shared.
\<close>

datatype ('f, 'vk) connection_task =
    Accepted "duration option" "byte list res"
  | Opened "('f, 'vk) public_context" "byte list"
  | Stored "('f, 'vk) public_context"
  | Closed

fun error_frame :: "failure \<Rightarrow> string list" where
  "error_frame (Err e) = [''error: '' @ e]"
| "error_frame (Panic p) = []"

fun listener_step where
  "listener_step C path (Accepted now frame) (d, st) =
     (case frame of
        Inl e \<Rightarrow> ((d, st), Closed, error_frame e)
      | Inr bytes \<Rightarrow>
          if starts_with MSG_PUBLIC_CONTEXT bytes then
            (case with_context ''decode PublicContext failed'' (decode_public_context_message C bytes) of
               Inl e \<Rightarrow> ((d, st), Closed, error_frame e)
             | Inr ctx \<Rightarrow>
                 (case io_context ''save PublicContext failed'' (save_opens C path ctx) d of
                    (d', Inl e) \<Rightarrow> ((d', st), Closed, error_frame e)
                  | (d', Inr out) \<Rightarrow> ((d', st), Opened ctx out, [])))
          else (case listener_connection C now True frame st of (st', acks) \<Rightarrow> ((d, st'), Closed, acks)))"
| "listener_step C path (Opened ctx out) (d, st) =
     (case io_context ''save PublicContext failed'' (save_writes path out) d of
        (d', Inl e) \<Rightarrow> ((d', st), Closed, error_frame e)
      | (d', Inr _) \<Rightarrow> ((d', st), Stored ctx, []))"
| "listener_step C path (Stored ctx) (d, st) = ((d, Some ctx), Closed, [])"
| "listener_step C path Closed (d, st) = ((d, st), Closed, [])"

text \<open>
  The connections of a listener are tasks over the disk and the context in memory. All of them are there
  from the start: one that is accepted later is one that takes its first step later.
\<close>

inductive listener_runs for C path where
  "j \<noteq> Closed \<Longrightarrow> listener_step C path j s = (s', j', acks) \<Longrightarrow> listener_runs C path s j s' j' acks"

text \<open>The context a frame carries.\<close>

definition context_of ::
  "('f, 'vk, 'sk, 'sg, 'pf, 'gv) crypto \<Rightarrow> byte list res \<Rightarrow> ('f, 'vk) public_context option" where
  "context_of C frame =
     (case frame of
        Inl e \<Rightarrow> None
      | Inr b \<Rightarrow>
          if starts_with MSG_PUBLIC_CONTEXT b
          then (case decode_public_context_message C b of Inl e \<Rightarrow> None | Inr ctx \<Rightarrow> Some ctx) else None)"

definition contexts ::
  "('f, 'vk, 'sk, 'sg, 'pf, 'gv) crypto \<Rightarrow> (duration option \<times> byte list res) list \<Rightarrow> ('f, 'vk) public_context list" where
  "contexts C conns = List.map_filter (\<lambda>(now, frame). context_of C frame) conns"

lemma save_ok:
  assumes "serial_ok C" and "pc_ok ctx"
  obtains e where "encode_public_context C ctx = Inr e" "\<And>r. decode_public_context C (e @ r) = Inr ctx"
  using message.decode_encoded [OF public_context_message [OF assms(1)] assms(2)] by blast

lemma read_n_length: "read_n rd n c = Inr (vs, c') \<Longrightarrow> length vs = n"
  by (induction n arbitrary: c vs c') (auto simp: and_then_Inr_iff)

text \<open>A context that decodes is small enough to be read back: its vector was allocated.\<close>

lemma decoded_pc_ok: "decode_public_context C b = Inr ctx \<Longrightarrow> pc_ok ctx"
  by (auto simp: decode_public_context_def read_scalar_vec_def read_vec_def alloc_def and_then_Inr_iff
      pc_ok_def scalars_ok_def dest!: read_n_length split: if_splits)

lemma decoded_message_pc_ok: "decode_public_context_message C b = Inr ctx \<Longrightarrow> pc_ok ctx"
  by (auto simp: decode_public_context_message_def decode_typed_def and_then_Inr_iff dest: decoded_pc_ok
      split: if_splits)

lemma context_of_ok: "context_of C frame = Some ctx \<Longrightarrow> pc_ok ctx"
  by (auto simp: context_of_def dest: decoded_message_pc_ok split: sum.splits if_splits)

section \<open>What survives a restart\<close>

definition task_of where
  "task_of C conn j \<longleftrightarrow>
     (case j of
        Accepted now frame \<Rightarrow> conn = (now, frame)
      | Opened ctx out \<Rightarrow> context_of C (snd conn) = Some ctx \<and> encode_public_context C ctx = Inr out
      | Stored ctx \<Rightarrow> context_of C (snd conn) = Some ctx
      | Closed \<Rightarrow> True)"

fun is_accepted :: "('f, 'vk) connection_task \<Rightarrow> bool" where
  "is_accepted (Accepted now frame) = True"
| "is_accepted _ = False"

fun is_opened :: "('f, 'vk) connection_task \<Rightarrow> bool" where
  "is_opened (Opened ctx out) = True"
| "is_opened _ = False"

lemma save_opens_runs:
  assumes "encode_public_context C ctx = Inr out" and "writable path d"
  obtains d' where "save_opens C path ctx d = (d', Inr out)" "writable path d'" "set (dirs d) \<subseteq> set (dirs d')"
proof -
  obtain d0 where d0: "ensure_parent_dir path d = (d0, Inr ())" "denied d0 = denied d" "room d0 = room d"
    "set (dirs d) \<subseteq> set (dirs d0)"
  proof (cases "path_parent path")
    case None
    then show ?thesis by (intro that [of d]) (simp_all add: ensure_parent_dir_def)
  next
    case (Some q)
    then have "q = [] \<or> q \<in> set (dirs d) \<or> q \<notin> set (denied d)" using assms(2) by (simp add: writable_def)
    then show ?thesis by (rule create_dir_runs) (auto simp: Some ensure_parent_dir_def intro: that)
  qed
  have "path \<notin> set (denied d0)" using assms(2) d0(2) by (simp add: writable_def)
  then have "save_opens C path ctx d = (d0\<lparr>files := (files d0)(path \<mapsto> [])\<rparr>, Inr out)"
    using d0(1) assms(1) by (simp add: save_opens_def io_then_def io_context_def create_file_def)
  then show ?thesis using d0 assms(2) by (intro that [of "d0\<lparr>files := (files d0)(path \<mapsto> [])\<rparr>"]) (auto simp: writable_def split: option.splits)
qed

lemma writable_files [simp]: "writable p (d\<lparr>files := f\<rparr>) = writable p d"
  by (simp add: writable_def split: option.splits)

lemma save_writes_runs:
  "writable path d \<Longrightarrow> \<exists>r. save_writes path out d = (d\<lparr>files := (files d)(path \<mapsto> out @ r)\<rparr>, Inr ())"
  by (auto simp: save_writes_def io_context_def write_all_def writable_def Let_def)

lemma listener_step_kinds:
  assumes C: "serial_ok C" and task: "task_of C conn j" "j \<noteq> Closed" and disk: "writable path d"
    and run: "listener_step C path j (d, st) = ((d', st'), j', acks)"
  shows "task_of C conn j' \<and> writable path d' \<and> set (dirs d) \<subseteq> set (dirs d') \<and>
    (context_of C (snd conn) = None \<and> d' = d \<and> st' = st \<or>
     (\<exists>ctx. context_of C (snd conn) = Some ctx \<and>
        (is_accepted j \<and> st' = st \<and> is_opened j' \<or>
         is_opened j \<and> st' = st \<and> j' = Stored ctx \<and> (\<exists>b. files d' path = Some b \<and> decode_public_context C b = Inr ctx) \<or>
         j = Stored ctx \<and> d' = d \<and> st' = Some ctx \<and> j' = Closed)))"
proof (cases j)
  case (Accepted now frame)
  have conn: "snd conn = frame" using task(1) by (simp add: task_of_def Accepted)
  show ?thesis
  proof (cases "context_of C frame")
    case None
    have keeps: "st' = st" if "\<not> starts_with MSG_PUBLIC_CONTEXT b" "listener_connection C now True (Inr b) st = (st', a)" for b a
      using listener_handle_keeps [OF that(1), of C now True st] that(2)
      by (auto simp: listener_connection_def split: prod.splits sum.splits failure.splits)
    then show ?thesis
      using run None disk
      by (cases frame) (auto simp: conn Accepted context_of_def task_of_def dest: keeps split: sum.splits if_splits prod.splits)
  next
    case (Some ctx)
    then obtain b where b: "frame = Inr b" "starts_with MSG_PUBLIC_CONTEXT b" "decode_public_context_message C b = Inr ctx"
      by (auto simp: context_of_def split: sum.splits if_splits)
    obtain out where out: "encode_public_context C ctx = Inr out"
      using save_ok [OF C context_of_ok [OF Some]] by blast
    obtain d0 where "save_opens C path ctx d = (d0, Inr out)" "writable path d0" "set (dirs d) \<subseteq> set (dirs d0)"
      using out disk by (rule save_opens_runs)
    then show ?thesis using run b Some out by (auto simp: Accepted conn io_context_def task_of_def)
  qed
next
  case (Opened ctx out)
  have ctx: "context_of C (snd conn) = Some ctx" "encode_public_context C ctx = Inr out"
    using task(1) by (simp_all add: task_of_def Opened)
  obtain e where e: "encode_public_context C ctx = Inr e" "\<And>r. decode_public_context C (e @ r) = Inr ctx"
    using save_ok [OF C context_of_ok [OF ctx(1)]] by blast
  obtain r where "save_writes path out d = (d\<lparr>files := (files d)(path \<mapsto> out @ r)\<rparr>, Inr ())"
    using save_writes_runs [OF disk] by blast
  then show ?thesis
    using run disk ctx e by (auto simp: Opened io_context_def task_of_def)
qed (use task run disk in \<open>auto simp: task_of_def\<close>)

text \<open>
  Between the connections: the memory holds what it started with or a context that was received, the
  latter once one of them is done; the file is as it was, or open, or holds a context that was received.
\<close>

definition memory_ok where
  "memory_ok C conns st1 st js \<longleftrightarrow>
     st = st1 \<and> (\<forall>i<length conns. js ! i = Closed \<longrightarrow> context_of C (snd (conns ! i)) = None) \<or>
     st \<in> Some ` set (contexts C conns)"

definition file_ok where
  "file_ok C path conns d1 d js \<longleftrightarrow>
     files d path = files d1 path \<and> (\<forall>i<length conns. is_accepted (js ! i) \<or> context_of C (snd (conns ! i)) = None) \<or>
     (\<exists>i<length conns. is_opened (js ! i)) \<or>
     (\<exists>b. files d path = Some b \<and> decode_public_context C b \<in> Inr ` set (contexts C conns))"

definition listener_inv where
  "listener_inv C path conns d1 st1 s js \<longleftrightarrow> (case s of (d, st) \<Rightarrow>
     length js = length conns \<and> (\<forall>i<length conns. task_of C (conns ! i) (js ! i)) \<and>
     writable path d \<and> set (dirs d1) \<subseteq> set (dirs d) \<and> memory_ok C conns st1 st js \<and> file_ok C path conns d1 d js)"

lemma contexts_iff: "ctx \<in> set (contexts C conns) \<longleftrightarrow> (\<exists>i<length conns. context_of C (snd (conns ! i)) = Some ctx)"
proof -
  have "ctx \<in> set (contexts C conns) \<longleftrightarrow> (\<exists>conn\<in>set conns. context_of C (snd conn) = Some ctx)"
    by (induction conns) (auto simp: contexts_def map_filter_simps split: option.splits)
  also have "\<dots> \<longleftrightarrow> (\<exists>i<length conns. context_of C (snd (conns ! i)) = Some ctx)"
    by (metis in_set_conv_nth)
  finally show ?thesis .
qed

lemma listener_inv_step:
  assumes C: "serial_ok C" and inv: "listener_inv C path conns d1 st1 s js"
    and i: "i < length js" and run: "listener_runs C path s (js ! i) s' j' acks"
  shows "listener_inv C path conns d1 st1 s' (js[i := j'])"
proof -
  obtain d st where s: "s = (d, st)" by (cases s)
  obtain d' st' where s': "s' = (d', st')" by (cases s')
  have len: "length js = length conns" and tasks: "\<forall>i<length conns. task_of C (conns ! i) (js ! i)"
    and disk: "writable path d" "set (dirs d1) \<subseteq> set (dirs d)"
    and mem: "memory_ok C conns st1 st js" and disk_file: "file_ok C path conns d1 d js" using inv by (simp_all add: listener_inv_def s)
  have step: "js ! i \<noteq> Closed" "listener_step C path (js ! i) (d, st) = ((d', st'), j', acks)"
    using run by (auto simp: s s' elim: listener_runs.cases)
  have ti: "task_of C (conns ! i) (js ! i)" using tasks i len by simp
  note kinds = listener_step_kinds [OF C ti step(1) disk(1) step(2)]
  have tasks': "\<forall>k<length conns. task_of C (conns ! k) (js[i := j'] ! k)"
    using tasks kinds len i by (auto simp: nth_list_update)
  have new: "context_of C (snd (conns ! i)) = Some ctx \<Longrightarrow> ctx \<in> set (contexts C conns)" for ctx
    using contexts_iff i len by metis
  have opened: "\<exists>k<length conns. is_opened (js[i := j'] ! k)"
    if "\<exists>k<length conns. is_opened (js ! k)" "\<not> is_opened (js ! i)"
    using that by (metis nth_list_update_neq)
  have "memory_ok C conns st1 st' (js[i := j']) \<and> file_ok C path conns d1 d' (js[i := j'])"
    using kinds
  proof (elim conjE disjE exE)
    assume other: "context_of C (snd (conns ! i)) = None" "d' = d" "st' = st"
    then have "\<not> is_opened (js ! i)" using ti by (cases "js ! i") (auto simp: task_of_def)
    then have kept: "is_opened (js ! k) \<Longrightarrow> k < length conns \<Longrightarrow> \<exists>k<length conns. is_opened (js[i := j'] ! k)" for k
      using opened by blast
    have "file_ok C path conns d1 d (js[i := j'])"
    proof (cases "\<exists>k<length conns. is_opened (js ! k)")
      case True
      then show ?thesis using kept by (auto simp: file_ok_def)
    next
      case False
      then show ?thesis using disk_file other len i by (auto simp: file_ok_def nth_list_update)
    qed
    moreover have "memory_ok C conns st1 st (js[i := j'])"
      using mem other len i by (auto simp: memory_ok_def nth_list_update)
    ultimately show ?thesis using other by simp
  next
    fix ctx assume "is_accepted (js ! i)" "st' = st" and "is_opened j'"
    then have "j' \<noteq> Closed" "\<exists>k<length conns. is_opened (js[i := j'] ! k)" using i len by auto
    then show ?thesis
      using mem \<open>st' = st\<close> i len by (auto simp: memory_ok_def file_ok_def nth_list_update)
  next
    fix ctx b assume ctx: "context_of C (snd (conns ! i)) = Some ctx" and "st' = st" "j' = Stored ctx"
      "files d' path = Some b" "decode_public_context C b = Inr ctx"
    then show ?thesis
      using mem new [OF ctx] i len by (auto simp: memory_ok_def file_ok_def nth_list_update)
  next
    fix ctx assume ctx: "context_of C (snd (conns ! i)) = Some ctx" "js ! i = Stored ctx" "d' = d" "st' = Some ctx"
    then have "\<not> is_opened (js ! i)" "\<not> is_accepted (js ! i)" by simp_all
    then have "file_ok C path conns d1 d' (js[i := j'])"
      using disk_file opened ctx(1,3) i len by (auto simp: file_ok_def)
    then show ?thesis using new [OF ctx(1)] ctx(4) by (simp add: memory_ok_def)
  qed
  then show ?thesis using kinds disk tasks' len by (auto simp: listener_inv_def s s')
qed

lemma listener_inv_runs:
  assumes C: "serial_ok C" and run: "(pool_step (listener_runs C path))\<^sup>*\<^sup>* (s, js, log) (s', js', log')"
    and inv: "listener_inv C path conns d1 st1 s js"
  shows "listener_inv C path conns d1 st1 s' js'"
  using run
proof (induction "(s', js', log')" arbitrary: s' js' log' rule: rtranclp_induct)
  case base
  then show ?case using inv by simp
next
  case (step y)
  obtain s1 js1 log1 where y: "y = (s1, js1, log1)" by (cases y)
  then have "listener_inv C path conns d1 st1 s1 js1" using step(3) by simp
  then show ?case using step(2) listener_inv_step [OF C] by (auto simp: y elim!: pool_step.cases)
qed

text \<open>What a start on the disk loads.\<close>

definition remembers where
  "remembers C path st d \<longleftrightarrow> snd (io_ok (load_public_context C path) d) = Inr st"

lemma load_context_io: "fst (io_ok (load_public_context C path) d) = d"
  by (simp add: io_ok_def load_public_context_def io_then_def io_context_def read_file_def split: sum.split failure.split)

lemma remembers_saved:
  "files d path = Some e \<Longrightarrow> decode_public_context C e = Inr ctx \<Longrightarrow> remembers C path (Some ctx) d"
  by (simp add: remembers_def io_ok_def load_public_context_saved)

lemma remembers_same: "files d' path = files d path \<Longrightarrow> remembers C path st d' = remembers C path st d"
  by (simp add: remembers_def io_ok_def load_public_context_def io_then_def io_context_def read_file_def
      split: sum.split failure.split)

lemma listener_start_runs:
  assumes "listener_start C bound cfg d = (d', Inr st)"
  shows "remembers C (path_join (hl_data_dir cfg) PUBLIC_CONTEXT_FILE) st d'"
    "hl_data_dir cfg = [] \<or> hl_data_dir cfg \<in> set (dirs d')"
proof -
  let ?p = "path_join (hl_data_dir cfg) PUBLIC_CONTEXT_FILE"
  obtain d1 m where d1: "create_dir_all (hl_data_dir cfg) d = (d1, m)" by (cases "create_dir_all (hl_data_dir cfg) d")
  have dir: "m = Inr u \<Longrightarrow> hl_data_dir cfg = [] \<or> hl_data_dir cfg \<in> set (dirs d1)" for u
    using d1 by (auto simp: create_dir_all_def split: if_splits)
  have load: "\<exists>r. io_ok (load_public_context C ?p) d1 = (d1, r)" using load_context_io by (metis prod.collapse)
  then have "m = Inr () \<and> d' = d1 \<and> snd (io_ok (load_public_context C ?p) d1) = Inr st"
    using assms d1 by (auto simp: listener_start_def io_then_def io_context_def bail_unless_def split: sum.splits if_splits)
  then show "remembers C ?p st d'" "hl_data_dir cfg = [] \<or> hl_data_dir cfg \<in> set (dirs d')"
    using dir by (auto simp: remembers_def)
qed

lemma listener_starts_again:
  assumes "listener_start C bound cfg d = (d1, Inr st)" and "set (dirs d1) \<subseteq> set (dirs d2)"
    and "remembers C (path_join (hl_data_dir cfg) PUBLIC_CONTEXT_FILE) st' d2"
  shows "listener_start C True cfg d2 = (d2, Inr st')"
proof -
  have "create_dir_all (hl_data_dir cfg) d2 = (d2, Inr ())"
    using listener_start_runs(2) [OF assms(1)] assms(2) by (auto simp: create_dir_all_def)
  moreover have "io_ok (load_public_context C (path_join (hl_data_dir cfg) PUBLIC_CONTEXT_FILE)) d2 = (d2, Inr st')"
    using assms(3) load_context_io unfolding remembers_def by (metis prod.collapse)
  ultimately show ?thesis by (simp add: listener_start_def)
qed

lemma contexts_none: "(\<forall>i<length conns. context_of C (snd (conns ! i)) = None) \<Longrightarrow> contexts C conns = []"
  using contexts_iff [of _ C conns] by (cases "contexts C conns") fastforce+

definition accepted where
  "accepted conns = map (\<lambda>(now, frame). Accepted now frame) conns"

lemma listener_inv_start:
  "writable path d1 \<Longrightarrow> listener_inv C path conns d1 st1 (d1, st1) (accepted conns)"
  by (auto simp: listener_inv_def accepted_def task_of_def memory_ok_def file_ok_def split: prod.splits)

lemma listener_inv_end:
  assumes "listener_inv C path conns d1 st1 (d2, st2) js" and "set js \<subseteq> {Closed}" and "remembers C path st1 d1"
  shows "\<exists>st3. remembers C path st3 d2 \<and> {st2, st3} \<subseteq> (if contexts C conns = [] then {st1} else Some ` set (contexts C conns))"
proof -
  have len: "length js = length conns" using assms(1) by (simp add: listener_inv_def)
  then have "\<forall>i<length conns. js ! i = Closed" using assms(2) by (metis nth_mem singletonD subsetD)
  then have mem: "st2 = st1 \<and> contexts C conns = [] \<or> st2 \<in> Some ` set (contexts C conns)"
    and disk_file: "files d2 path = files d1 path \<and> contexts C conns = [] \<or>
      (\<exists>b. files d2 path = Some b \<and> decode_public_context C b \<in> Inr ` set (contexts C conns))"
    using assms(1) contexts_none [of conns C] by (auto simp: listener_inv_def memory_ok_def file_ok_def)
  obtain st3 where "remembers C path st3 d2" "st3 = st1 \<and> contexts C conns = [] \<or> st3 \<in> Some ` set (contexts C conns)"
    using disk_file remembers_same [of d2 path d1 C st1] assms(3) remembers_saved [of d2 path _ C] by auto
  then show ?thesis using mem by (auto split: if_splits)
qed

text \<open>
  C23. What a restart of the relying party remembers. The listener has started, its context file can be
  written, and any number of connections is served at once, each saving and then updating the memory,
  their steps in any order. When all are closed, a new start on the same disk succeeds once the address
  is free. Without a public context among the connections, the process and its successor both hold what
  was loaded at the start, whatever else was sent. Otherwise each holds a context that was received
  over one of these connections, never nothing and never a mixture of two, although a file can be open
  for two writes at once (each is one call of the system). So when the contexts received are equal, the
  restart keeps the one in memory; with different ones the two may disagree, as
  \<open>racing_contexts_diverge\<close> shows. A write that fails would leave the file empty or cut, which is why it
  must be writable.
\<close>
theorem restart_keeps_context:
  assumes "serial_ok C" and "listener_start C True cfg d = (d1, Inr st)"
    and "writable (path_join (hl_data_dir cfg) PUBLIC_CONTEXT_FILE) d1"
    and "(pool_step (listener_runs C (path_join (hl_data_dir cfg) PUBLIC_CONTEXT_FILE)))\<^sup>*\<^sup>*
      ((d1, st), accepted conns, []) ((d2, st2), js, log)"
    and "set js \<subseteq> {Closed}"
  shows "\<exists>st3. listener_start C True cfg d2 = (d2, Inr st3) \<and>
    {st2, st3} \<subseteq> (if contexts C conns = [] then {st} else Some ` set (contexts C conns))"
proof -
  let ?p = "path_join (hl_data_dir cfg) PUBLIC_CONTEXT_FILE"
  have end_inv: "listener_inv C ?p conns d1 st (d2, st2) js"
    using assms(1,4) listener_inv_start [OF assms(3)] by (rule listener_inv_runs)
  then have "set (dirs d1) \<subseteq> set (dirs d2)" by (simp add: listener_inv_def)
  then show ?thesis
    using listener_inv_end [OF end_inv assms(5) listener_start_runs(1) [OF assms(2)]] listener_starts_again [OF assms(2)]
    by blast
qed

lemma saves_alone:
  assumes C: "serial_ok C" and i: "i < length js" "js ! i = Accepted now frame" and ctx: "context_of C frame = Some ctx"
    and disk: "writable path d"
  obtains d' b where "(pool_step (listener_runs C path))\<^sup>*\<^sup>* ((d, st), js, log) ((d', st), js[i := Stored ctx], log)"
    "writable path d'" "set (dirs d) \<subseteq> set (dirs d')" "files d' path = Some b" "decode_public_context C b = Inr ctx"
proof -
  obtain b where b: "frame = Inr b" "starts_with MSG_PUBLIC_CONTEXT b" "decode_public_context_message C b = Inr ctx"
    using ctx by (auto simp: context_of_def split: sum.splits if_splits)
  obtain out where out: "encode_public_context C ctx = Inr out" "\<And>r. decode_public_context C (out @ r) = Inr ctx"
    using save_ok [OF C context_of_ok [OF ctx]] by blast
  obtain d1 where d1: "save_opens C path ctx d = (d1, Inr out)" "writable path d1" "set (dirs d) \<subseteq> set (dirs d1)"
    using out(1) disk by (rule save_opens_runs)
  obtain r where r: "save_writes path out d1 = (d1\<lparr>files := (files d1)(path \<mapsto> out @ r)\<rparr>, Inr ())"
    using save_writes_runs [OF d1(2)] by blast
  let ?d2 = "d1\<lparr>files := (files d1)(path \<mapsto> out @ r)\<rparr>"
  have "listener_runs C path (d, st) (js ! i) (d1, st) (Opened ctx out) []"
    using b d1(1) by (intro listener_runs.intros) (simp_all add: i(2) io_context_def)
  then have one: "pool_step (listener_runs C path) ((d, st), js, log) ((d1, st), js[i := Opened ctx out], log @ [])"
    using i(1) by (intro pool_step.intros)
  have "listener_runs C path (d1, st) (js[i := Opened ctx out] ! i) (?d2, st) (Stored ctx) []"
    using r i(1) by (intro listener_runs.intros) (simp_all add: io_context_def)
  then have two: "pool_step (listener_runs C path) ((d1, st), js[i := Opened ctx out], log @ [])
      ((?d2, st), js[i := Opened ctx out, i := Stored ctx], (log @ []) @ [])"
    using i(1) by (intro pool_step.intros) simp_all
  show ?thesis
    using d1(2,3) out(2) one two by (intro that [of ?d2 "out @ r"]) (auto intro: rtranclp.rtrancl_into_rtrancl [OF r_into_rtranclp])
qed

lemma updates_memory:
  assumes "i < length js" "js ! i = Stored ctx"
  shows "pool_step (listener_runs C path) ((d, st), js, log) ((d, Some ctx), js[i := Closed], log)"
  using pool_step.intros [of i js "listener_runs C path" "(d, st)" "(d, Some ctx)" Closed "[]" log] assms
  by (simp add: listener_runs.simps)

text \<open>
  C27. Two public contexts that arrive at once can leave the listener divided. Saving and updating the
  memory are two steps without a lock over both, so of any two received contexts the first can be the
  one in memory for good while the second is the one on the disk: the process checks evidence against
  the roots of the first, and after a restart against those of the second.
\<close>
theorem racing_contexts_diverge:
  assumes "serial_ok C" and "listener_start C True cfg d = (d1, Inr st)"
    and "writable (path_join (hl_data_dir cfg) PUBLIC_CONTEXT_FILE) d1"
    and "context_of C frame1 = Some ctx1" and "context_of C frame2 = Some ctx2"
  shows "\<exists>d2. (pool_step (listener_runs C (path_join (hl_data_dir cfg) PUBLIC_CONTEXT_FILE)))\<^sup>*\<^sup>*
      ((d1, st), accepted [(now1, frame1), (now2, frame2)], []) ((d2, Some ctx1), [Closed, Closed], []) \<and>
    listener_start C True cfg d2 = (d2, Inr (Some ctx2))"
proof -
  let ?p = "path_join (hl_data_dir cfg) PUBLIC_CONTEXT_FILE"
  let ?step = "pool_step (listener_runs C ?p)" and ?js = "[Accepted now1 frame1, Accepted now2 frame2]"
  obtain da ba where a: "?step\<^sup>*\<^sup>* ((d1, st), ?js, []) ((da, st), ?js[0 := Stored ctx1], [])"
    "writable ?p da" "set (dirs d1) \<subseteq> set (dirs da)"
    by (rule saves_alone [where i = 0 and js = ?js and st = st and log = "[]" and now = now1, OF assms(1) _ _ assms(4,3)])
      simp_all
  obtain db bb where b: "?step\<^sup>*\<^sup>* ((da, st), ?js[0 := Stored ctx1], []) ((db, st), ?js[0 := Stored ctx1, 1 := Stored ctx2], [])"
    "set (dirs da) \<subseteq> set (dirs db)" "files db ?p = Some bb" "decode_public_context C bb = Inr ctx2"
    by (rule saves_alone [where i = 1 and js = "?js[0 := Stored ctx1]" and st = st and log = "[]" and now = now2,
          OF assms(1) _ _ assms(5) a(2)]) simp_all
  have c: "?step ((db, st), [Stored ctx1, Stored ctx2], []) ((db, Some ctx2), [Stored ctx1, Closed], [])"
    by (rule updates_memory [of 1 "[Stored ctx1, Stored ctx2]" ctx2, simplified])
  have e: "?step ((db, Some ctx2), [Stored ctx1, Closed], []) ((db, Some ctx1), [Closed, Closed], [])"
    by (rule updates_memory [of 0 "[Stored ctx1, Closed]" ctx1, simplified])
  have "?step\<^sup>*\<^sup>* ((d1, st), ?js, []) ((db, st), [Stored ctx1, Stored ctx2], [])"
    using rtranclp_trans [OF a(1) b(1)] by simp
  then have "?step\<^sup>*\<^sup>* ((d1, st), accepted [(now1, frame1), (now2, frame2)], []) ((db, Some ctx1), [Closed, Closed], [])"
    using c e by (simp add: accepted_def)
  moreover have "listener_start C True cfg db = (db, Inr (Some ctx2))"
    using listener_starts_again [OF assms(2) _ remembers_saved [OF b(3,4)]] a(3) b(2) by simp
  ultimately show ?thesis by blast
qed


definition toy_listener :: listener_config where
  "toy_listener = \<lparr>hl_listen_addr = ''l'', hl_data_dir = ''d''\<rparr>"

definition empty_disk :: disk where
  "empty_disk = \<lparr>files = Map.empty, dirs = [], denied = [], room = Map.empty\<rparr>"

lemma toy_listener_starts:
  "listener_start toy_crypto True toy_listener empty_disk = (empty_disk\<lparr>dirs := [''d'']\<rparr>, Inr None)"
  "writable (path_join (hl_data_dir toy_listener) PUBLIC_CONTEXT_FILE) (empty_disk\<lparr>dirs := [''d'']\<rparr>)"
  by (simp_all add: listener_start_def toy_listener_def empty_disk_def create_dir_all_def io_then_def io_context_def
      io_ok_def load_public_context_def read_file_def writable_def split: option.split)

text \<open>Two contexts with different roots.\<close>

definition toy_other :: "(u64, u64) public_context" where
  "toy_other = toy_context\<lparr>pc_root := []\<rparr>"

lemma toy_frame:
  assumes "pc_ok ctx"
  obtains b where "context_of toy_crypto (Inr b) = Some ctx"
proof -
  obtain e where "\<And>r. decode_public_context toy_crypto (e @ r) = Inr ctx"
    using save_ok [OF toy_serial_ok assms] by blast
  then have "decode_public_context toy_crypto e = Inr ctx" by (metis append_Nil2)
  moreover have "starts_with MSG_PUBLIC_CONTEXT (MSG_PUBLIC_CONTEXT @ e)" by (simp add: starts_with_def)
  ultimately show ?thesis
    by (intro that [of "MSG_PUBLIC_CONTEXT @ e"])
       (simp add: context_of_def decode_public_context_message_def decode_typed_def)
qed

lemma toy_frames:
  obtains b b' where "context_of toy_crypto (Inr b) = Some toy_context" "context_of toy_crypto (Inr b') = Some toy_other"
proof -
  have ok: "pc_ok toy_context" using toy_pair_ok by (simp add: response_pair_ok_def)
  then have "pc_ok toy_other" by (simp add: pc_ok_def scalars_ok_def toy_other_def)
  with ok show ?thesis using toy_frame that by metis
qed

theorem restart_keeps_context_witness:
  "\<exists>pub d1 d2 log. listener_start toy_crypto True toy_listener empty_disk = (d1, Inr None) \<and>
     (pool_step (listener_runs toy_crypto (path_join ''d'' PUBLIC_CONTEXT_FILE)))\<^sup>*\<^sup>*
       ((d1, None), accepted [(None, Inr pub)], []) ((d2, Some toy_context), [Closed], log) \<and>
     listener_start toy_crypto True toy_listener d2 = (d2, Inr (Some toy_context))"
proof -
  let ?p = "path_join ''d'' PUBLIC_CONTEXT_FILE" and ?d1 = "empty_disk\<lparr>dirs := [''d'']\<rparr>"
  have dir: "hl_data_dir toy_listener = ''d''" by (simp add: toy_listener_def)
  note start = toy_listener_starts [unfolded dir]
  obtain pub where pub: "context_of toy_crypto (Inr pub) = Some toy_context" using toy_frames by metis
  let ?conns = "[(None, Inr pub)]" and ?js = "[Accepted None (Inr pub) :: (u64, u64) connection_task]"
  have js: "accepted ?conns = ?js" by (simp add: accepted_def)
  obtain d2 b where "(pool_step (listener_runs toy_crypto ?p))\<^sup>*\<^sup>*
      ((?d1, None), ?js, []) ((d2, None), ?js[0 := Stored toy_context], [])"
    by (rule saves_alone [where i = 0 and js = ?js and st = None and log = "[]" and now = None,
          OF toy_serial_ok _ _ pub start(2)]) simp_all
  moreover have "pool_step (listener_runs toy_crypto ?p)
      ((d2, None), ?js[0 := Stored toy_context], []) ((d2, Some toy_context), [Closed], [])"
    using updates_memory [of 0 "[Stored toy_context]" toy_context toy_crypto ?p d2 None "[]"] by simp
  ultimately have run: "(pool_step (listener_runs toy_crypto ?p))\<^sup>*\<^sup>*
      ((?d1, None), accepted ?conns, []) ((d2, Some toy_context), [Closed], [])" by (simp add: js)
  have "contexts toy_crypto ?conns = [toy_context]" using pub by (simp add: contexts_def map_filter_simps)
  then have "listener_start toy_crypto True toy_listener d2 = (d2, Inr (Some toy_context))"
    using restart_keeps_context [OF toy_serial_ok start(1), unfolded dir, OF start(2) run] by simp
  then show ?thesis using start(1) run by blast
qed

theorem racing_contexts_diverge_witness:
  "\<exists>b b' d1 d2. listener_start toy_crypto True toy_listener empty_disk = (d1, Inr None) \<and>
     (pool_step (listener_runs toy_crypto (path_join (hl_data_dir toy_listener) PUBLIC_CONTEXT_FILE)))\<^sup>*\<^sup>*
       ((d1, None), accepted [(None, Inr b), (None, Inr b')], []) ((d2, Some toy_context), [Closed, Closed], []) \<and>
     listener_start toy_crypto True toy_listener d2 = (d2, Inr (Some toy_other)) \<and> toy_context \<noteq> toy_other"
proof -
  obtain b b' where b: "context_of toy_crypto (Inr b) = Some toy_context" "context_of toy_crypto (Inr b') = Some toy_other"
    using toy_frames .
  have "toy_context \<noteq> toy_other" by (simp add: toy_other_def toy_context_def)
  then show ?thesis
    using toy_listener_starts(1) racing_contexts_diverge [OF toy_serial_ok toy_listener_starts b, of None None] by blast
qed


lemma load_key_io: "load_key_infor C p d = (d, snd (load_key_infor C p d))"
  by (simp add: load_key_infor_def io_then_def io_context_def read_file_def split: sum.split)

lemma load_key_same: "files d' p = files d p \<Longrightarrow> snd (load_key_infor C p d') = snd (load_key_infor C p d)"
  by (simp add: load_key_infor_def io_then_def io_context_def read_file_def split: sum.split)

lemma loaded_key: "load_key_infor C p d = (d', Inr key) \<Longrightarrow> verifying_key key = vk_of_sk C (signing_key key) \<and> files d p \<noteq> None"
  by (auto simp: load_key_infor_def io_then_def io_context_def read_file_def and_then_Inr_iff split: sum.splits)

text \<open>What a start leaves on the disk: the key it uses, and its data directory.\<close>

lemma daemon_start_runs:
  assumes C: "serial_ok C" and start: "daemon_start C fresh True cfg d = (d1, Inr (key, st))"
  shows "load_key_infor C (path_join (hd_data_dir cfg) VERIFIER_KEY_FILE) d1 = (d1, Inr key) \<and>
    st = verifier_state_new \<and> (hd_data_dir cfg = [] \<or> hd_data_dir cfg \<in> set (dirs d1))"
proof -
  let ?dir = "hd_data_dir cfg" and ?p = "path_join (hd_data_dir cfg) VERIFIER_KEY_FILE"
  let ?key = "\<lparr>signing_key = fresh, verifying_key = vk_of_sk C fresh\<rparr>"
  obtain d0 m where d0: "create_dir_all ?dir d = (d0, m)" by (cases "create_dir_all ?dir d")
  have dir: "m = Inr u \<Longrightarrow> ?dir = [] \<or> ?dir \<in> set (dirs d0)" for u
    using d0 by (auto simp: create_dir_all_def split: if_splits)
  obtain u where m: "m = Inr u" using start d0
    by (cases m; cases "projl m") (auto simp: daemon_start_def io_then_def io_context_def)
  show ?thesis
  proof (cases "path_exists ?p d0")
    case True
    then have "load_key_infor C ?p d0 = (d1, Inr key) \<and> d1 = d0 \<and> st = verifier_state_new"
      using start d0 m load_key_io [of C ?p d0]
      by (auto simp: daemon_start_def io_then_def io_context_def bail_unless_def Let_def split: sum.splits prod.splits)
    then show ?thesis using dir m by auto
  next
    case False
    obtain d2 r where s: "save_key_infor C ?p ?key d0 = (d2, r)" by (cases "save_key_infor C ?p ?key d0")
    then have r: "r = Inr ()" "d1 = d2" "key = ?key" "st = verifier_state_new"
      using start d0 m False
      by (auto simp: daemon_start_def io_then_def io_context_def bail_unless_def Let_def split: sum.splits)
    have "files d2 ?p = Some (append_len_bytes (sk_bytes C fresh))"
      using s r(1) by (auto simp: save_stores elim!: stores_succeeds)
    moreover have "set (dirs d0) \<subseteq> set (dirs d2)"
      using s by (auto simp: save_key_infor_def io_then_def io_context_def ensure_parent_dir_def create_dir_all_def
          split: sum.splits if_splits option.splits prod.splits dest!: write_file_result)
    ultimately show ?thesis using load_key_saved [OF C, of d2 ?p ?key] r dir m by auto
  qed
qed

text \<open>
  The verifier keeps its key over a restart and forgets its devices. Whatever the daemon finds or
  makes as its key at a start is the key of every later start as long as nothing else writes the
  file, so the authorizations it signed stay valid; but its accumulator, its sessions and its queue are
  empty each time, so the next roots it publishes contain none of the devices it admitted before.
\<close>
theorem restart_keeps_key_forgets_tree:
  assumes C: "serial_ok C" and start: "daemon_start C fresh True cfg d = (d1, Inr (key, st))"
    and later: "files d2 (path_join (hd_data_dir cfg) VERIFIER_KEY_FILE) = files d1 (path_join (hd_data_dir cfg) VERIFIER_KEY_FILE)"
      "set (dirs d1) \<subseteq> set (dirs d2)"
  shows "daemon_start C fresh' True cfg d2 = (d2, Inr (key, verifier_state_new)) \<and>
    verifying_key key = vk_of_sk C (signing_key key) \<and> vs_root verifier_state_new = [] \<and>
    vs_old_leaves verifier_state_new = [] \<and> vs_active verifier_state_new = []"
proof -
  let ?p = "path_join (hd_data_dir cfg) VERIFIER_KEY_FILE"
  note run = daemon_start_runs [OF C start]
  have key: "load_key_infor C ?p d2 = (d2, Inr key)"
    using run load_key_io [of C ?p d2] load_key_same [OF later(1), of C] by simp
  moreover have "path_exists ?p d2" using loaded_key [OF key] by (simp add: path_exists_def)
  moreover have "create_dir_all (hd_data_dir cfg) d2 = (d2, Inr ())"
    using run later(2) by (auto simp: create_dir_all_def)
  ultimately show ?thesis
    using loaded_key [OF key] by (simp add: daemon_start_def Let_def verifier_state_new_def)
qed

definition toy_daemon :: daemon_config where
  "toy_daemon = \<lparr>hd_listen_addr = ''l'', hd_relying_party_addrs = [], hd_data_dir = ''d''\<rparr>"

theorem restart_keeps_key_forgets_tree_witness:
  "\<exists>d1. daemon_start toy_crypto 7 True toy_daemon empty_disk =
       (d1, Inr (\<lparr>signing_key = 7, verifying_key = 7\<rparr>, verifier_state_new)) \<and>
     daemon_start toy_crypto 8 True toy_daemon d1 =
       (d1, Inr (\<lparr>signing_key = 7, verifying_key = 7\<rparr>, verifier_state_new))"
proof -
  let ?p = "path_join ''d'' VERIFIER_KEY_FILE" and ?key = "\<lparr>signing_key = 7, verifying_key = (7 :: u64)\<rparr>"
  let ?d1 = "empty_disk\<lparr>dirs := [''d''], files := [?p \<mapsto> append_len_bytes (sk_bytes toy_crypto 7)]\<rparr>"
  have "path_parent ?p = Some ''d''" by (simp add: path_parent_def path_join_def VERIFIER_KEY_FILE_def)
  moreover have "vk_of_sk toy_crypto 7 = 7" by (simp add: toy_crypto_def)
  moreover have "?p \<noteq> ''d''" by (simp add: path_join_def VERIFIER_KEY_FILE_def)
  ultimately have start: "daemon_start toy_crypto 7 True toy_daemon empty_disk = (?d1, Inr (?key, verifier_state_new))"
    by (simp add: daemon_start_def toy_daemon_def empty_disk_def create_dir_all_def io_then_def io_context_def
        path_exists_def save_key_infor_def ensure_parent_dir_def write_file_runs Let_def)
  show ?thesis
    using start restart_keeps_key_forgets_tree [OF toy_serial_ok start refl subset_refl, of 8] by blast
qed

end
