(* ===== verification/Json.thy ===== *)
theory Json
  imports Bytes "HOL-Library.List_Lexorder"
begin

text \<open>
  JSON values as \<^verbatim>\<open>serde_json::Value\<close> has them, and the third-party functions the verifier side is
  built on, gathered in the record \<open>externals\<close>: the JSON reader and printer, base64, hex, SHA-256.

  \<^item> \<open>parse_json\<close> gives a document as it is written, members in order and repeated ones included.
    A \<^verbatim>\<open>Value\<close> is its \<open>to_value\<close>: every object an association list ordered by key (serde's
    \<^verbatim>\<open>BTreeMap\<close>), a later member replacing an earlier one of the same key.
  \<^item> \<open>struct_of\<close> is what a derived \<^verbatim>\<open>Deserialize\<close> sees of a document: unknown members are skipped, a
    repeated known one is an error, and an array gives the fields in the order of the struct.
  \<^item> Keys are the bytes of their UTF-8 form, as all strings here.
  \<^item> A number that is not an integer is kept as its text.
\<close>

datatype json =
    JNull
  | JBool bool
  | JNum int
  | JFloat string
  | JStr string
  | JArr "json list"
  | JObj "(string \<times> json) list"

text \<open>\<open>Map::insert\<close>.\<close>

fun obj_insert :: "string \<Rightarrow> json \<Rightarrow> (string \<times> json) list \<Rightarrow> (string \<times> json) list" where
  "obj_insert k v [] = [(k, v)]"
| "obj_insert k v ((k', v') # xs) =
     (if k = k' then (k, v) # xs
      else if k < k' then (k, v) # (k', v') # xs
      else (k', v') # obj_insert k v xs)"

text \<open>The \<open>json!({..})\<close> macro: insertions in the order written.\<close>

definition jobj :: "(string \<times> json) list \<Rightarrow> json" where
  "jobj kvs = JObj (foldl (\<lambda>m (k, v). obj_insert k v m) [] kvs)"

fun json_get :: "string \<Rightarrow> json \<Rightarrow> json option" where
  "json_get k (JObj m) = map_of m k"
| "json_get k _ = None"

fun as_str :: "json \<Rightarrow> string option" where
  "as_str (JStr s) = Some s"
| "as_str _ = None"

fun as_bool :: "json \<Rightarrow> bool option" where
  "as_bool (JBool b) = Some b"
| "as_bool _ = None"

fun as_array :: "json \<Rightarrow> json list option" where
  "as_array (JArr xs) = Some xs"
| "as_array _ = None"

fun as_object :: "json \<Rightarrow> (string \<times> json) list option" where
  "as_object (JObj m) = Some m"
| "as_object _ = None"

text \<open>\<open>v.get(k).and_then(|x| x.as_str())\<close> and its relatives.\<close>

definition get_str :: "string \<Rightarrow> json \<Rightarrow> string option" where
  "get_str k v = Option.bind (json_get k v) as_str"

definition get_bool :: "string \<Rightarrow> json \<Rightarrow> bool option" where
  "get_bool k v = Option.bind (json_get k v) as_bool"

definition get_array :: "string \<Rightarrow> json \<Rightarrow> json list option" where
  "get_array k v = Option.bind (json_get k v) as_array"

text \<open>\<open>v[k]\<close>: indexing a value never fails.\<close>

definition json_index :: "string \<Rightarrow> json \<Rightarrow> json" where
  "json_index k v = (case json_get k v of Some w \<Rightarrow> w | None \<Rightarrow> JNull)"

text \<open>\<open>if let Some(v) = o { obj.insert(k, v) }\<close>.\<close>

definition insert_some :: "string \<Rightarrow> json option \<Rightarrow> (string \<times> json) list \<Rightarrow> (string \<times> json) list" where
  "insert_some k ov m = (case ov of None \<Rightarrow> m | Some v \<Rightarrow> obj_insert k v m)"

lemma map_of_obj_insert [simp]: "map_of (obj_insert k v m) = (map_of m)(k \<mapsto> v)"
  by (induction k v m rule: obj_insert.induct) (auto simp: fun_eq_iff)

lemma map_of_insert_some [simp]:
  "map_of (insert_some k ov m) = (case ov of None \<Rightarrow> map_of m | Some v \<Rightarrow> (map_of m)(k \<mapsto> v))"
  by (cases ov) (simp_all add: insert_some_def)

lemma map_of_jobj_fold:
  "map_of (foldl (\<lambda>m (k, v). obj_insert k v m) m kvs) = map_of m ++ map_of (rev kvs)"
  by (induction kvs arbitrary: m) (auto simp: fun_eq_iff map_add_def split: option.split)

lemma json_get_jobj [simp]: "json_get k (jobj kvs) = map_of (rev kvs) k"
  by (simp add: jobj_def map_of_jobj_fold)

lemma get_JObj [simp]:
  "get_str k (JObj m) = Option.bind (map_of m k) as_str"
  "get_bool k (JObj m) = Option.bind (map_of m k) as_bool"
  by (simp_all add: get_str_def get_bool_def)

lemma obj_insert_sorted: "sorted (map fst m) \<Longrightarrow> sorted (map fst (obj_insert k v m))"
proof (induction k v m rule: obj_insert.induct)
  case (2 k v k' v' xs)
  have "fst p = k \<or> p \<in> set xs" if "p \<in> set (obj_insert k v xs)" for p
    using that by (induction k v xs rule: obj_insert.induct) (auto split: if_splits)
  then have "\<forall>p\<in>set (obj_insert k v xs). k' \<le> fst p" if "\<not> k < k'"
    using 2(2) that by (force simp: not_less)
  then show ?case using 2 by auto
qed simp

text \<open>The \<open>Value\<close> of a document.\<close>

primrec to_value :: "json \<Rightarrow> json" where
  "to_value JNull = JNull"
| "to_value (JBool b) = JBool b"
| "to_value (JNum n) = JNum n"
| "to_value (JFloat s) = JFloat s"
| "to_value (JStr s) = JStr s"
| "to_value (JArr xs) = JArr (map to_value xs)"
| "to_value (JObj m) = jobj (map (map_prod (\<lambda>k. k) to_value) m)"

text \<open>What every \<open>Value\<close> satisfies: the members of its objects are ordered, without repetition.\<close>

primrec value_ok :: "json \<Rightarrow> bool" where
  "value_ok JNull = True"
| "value_ok (JBool b) = True"
| "value_ok (JNum n) = True"
| "value_ok (JFloat s) = True"
| "value_ok (JStr s) = True"
| "value_ok (JArr xs) = list_all (\<lambda>b. b) (map value_ok xs)"
| "value_ok (JObj m) = (sorted_wrt (<) (map fst m) \<and> list_all snd (map (map_prod (\<lambda>k. k) value_ok) m))"

lemma value_ok_JObj:
  "value_ok (JObj m) \<longleftrightarrow> sorted_wrt (<) (map fst m) \<and> (\<forall>p\<in>set m. value_ok (snd p))"
  by (simp add: list_all_iff)

lemma value_ok_JArr: "value_ok (JArr xs) \<longleftrightarrow> (\<forall>x\<in>set xs. value_ok x)"
  by (simp add: list_all_iff)

lemma set_obj_insert: "p \<in> set (obj_insert k v m) \<Longrightarrow> p = (k, v) \<or> p \<in> set m"
  by (induction k v m rule: obj_insert.induct) (auto split: if_splits)

lemma obj_insert_strict:
  "sorted_wrt (<) (map fst m) \<Longrightarrow> sorted_wrt (<) (map fst (obj_insert k v m))"
proof (induction k v m rule: obj_insert.induct)
  case (2 k v k' v' xs)
  have "k' < fst p" if "p \<in> set (obj_insert k v xs)" "k \<noteq> k'" "\<not> k < k'" for p
    using set_obj_insert [OF that(1)] that 2(2) by (auto simp: not_less)
  then show ?case using 2 by (auto intro: less_trans)
qed simp

lemma value_ok_obj_insert:
  "value_ok (JObj m) \<Longrightarrow> value_ok v \<Longrightarrow> value_ok (JObj (obj_insert k v m))"
  using obj_insert_strict [of m k v]
  by (fastforce simp: value_ok_JObj dest: set_obj_insert simp del: value_ok.simps)

lemma value_ok_insert_some:
  "value_ok (JObj m) \<Longrightarrow> (\<And>v. ov = Some v \<Longrightarrow> value_ok v) \<Longrightarrow> value_ok (JObj (insert_some k ov m))"
  by (cases ov) (simp_all add: insert_some_def value_ok_obj_insert del: value_ok.simps)

lemma value_ok_fold:
  "value_ok (JObj m) \<Longrightarrow> (\<And>p. p \<in> set kvs \<Longrightarrow> value_ok (snd p)) \<Longrightarrow>
    value_ok (JObj (foldl (\<lambda>m (k, v). obj_insert k v m) m kvs))"
proof (induction kvs arbitrary: m)
  case (Cons p kvs)
  have "value_ok (JObj (obj_insert (fst p) (snd p) m))"
    using Cons.prems by (intro value_ok_obj_insert) simp_all
  then show ?case using Cons.IH Cons.prems(2) by (cases p) simp
qed simp

lemma value_ok_jobj: "(\<And>p. p \<in> set kvs \<Longrightarrow> value_ok (snd p)) \<Longrightarrow> value_ok (jobj kvs)"
  unfolding jobj_def by (rule value_ok_fold) simp_all

lemma value_ok_to_value [simp]: "value_ok (to_value v)"
proof (induction v)
  case (JObj m)
  have "value_ok (snd p)" if "p \<in> set (map (map_prod (\<lambda>k. k) to_value) m)" for p
    using that JObj by (force simp: snds.simps)
  then show ?case unfolding to_value.simps by (rule value_ok_jobj)
qed (auto simp: list_all_iff)

lemma obj_insert_last:
  "(\<And>p. p \<in> set m \<Longrightarrow> fst p < k) \<Longrightarrow> obj_insert k v m = m @ [(k, v)]"
proof (induction k v m rule: obj_insert.induct)
  case (2 k v k' v' xs)
  have "k' < k" using 2(2) [of "(k', v')"] by simp
  moreover have "obj_insert k v xs = xs @ [(k, v)]"
    using calculation 2 by (metis less_asym less_irrefl list.set_intros(2))
  ultimately show ?case using less_asym [of k' k] by auto
qed simp

lemma fold_sorted:
  "sorted_wrt (<) (map fst (m @ kvs)) \<Longrightarrow> foldl (\<lambda>m (k, v). obj_insert k v m) m kvs = m @ kvs"
proof (induction kvs arbitrary: m)
  case (Cons p kvs)
  have "obj_insert (fst p) (snd p) m = m @ [p]"
    using Cons.prems by (subst obj_insert_last) (auto simp: sorted_wrt_append)
  then show ?case using Cons.IH [of "m @ [p]"] Cons.prems by (cases p) simp
qed simp

lemma to_value_ok [simp]: "value_ok v \<Longrightarrow> to_value v = v"
proof (induction v)
  case (JObj m)
  have "map (map_prod (\<lambda>k. k) to_value) m = m"
    using JObj by (intro map_idI) (auto simp: value_ok_JObj simp del: value_ok.simps)
  then show ?case using JObj.prems fold_sorted [of "[]" m] by (simp add: jobj_def)
qed (auto simp: list_all_iff intro: map_idI)

lemma sorted_strict_distinct: "sorted_wrt (<) ks \<Longrightarrow> distinct (ks :: string list)"
  by (induction ks) auto

lemma value_ok_json_get: "value_ok v \<Longrightarrow> json_get k v = Some w \<Longrightarrow> value_ok w"
  by (cases v) (auto simp: value_ok_JObj dest!: map_of_SomeD simp del: value_ok.simps)

section \<open>Structs\<close>

definition struct_of :: "string list \<Rightarrow> json \<Rightarrow> (string \<rightharpoonup> json) option" where
  "struct_of fs v =
     (case v of
        JObj m \<Rightarrow>
          if distinct (filter (\<lambda>k. k \<in> set fs) (map fst m))
          then Some (\<lambda>k. if k \<in> set fs then map_of m k else None) else None
      | JArr xs \<Rightarrow> if length xs \<le> length fs then Some (map_of (zip fs xs)) else None
      | _ \<Rightarrow> None)"

text \<open>A struct without \<open>#[serde(default)]\<close>: as an array it needs every field.\<close>

definition struct_exact :: "string list \<Rightarrow> json \<Rightarrow> (string \<rightharpoonup> json) option" where
  "struct_exact fs v =
     (case v of JArr xs \<Rightarrow> if length xs = length fs then struct_of fs v else None | _ \<Rightarrow> struct_of fs v)"

text \<open>A field that must be there, and one that may be absent or \<open>null\<close>.\<close>

definition required :: "(json \<Rightarrow> 'a option) \<Rightarrow> json option \<Rightarrow> 'a option" where
  "required rd v = Option.bind v rd"

definition optional :: "(json \<Rightarrow> 'a option) \<Rightarrow> json option \<Rightarrow> 'a option option" where
  "optional rd v =
     (case v of None \<Rightarrow> Some None | Some JNull \<Rightarrow> Some None | Some w \<Rightarrow> map_option Some (rd w))"

fun as_u8 :: "json \<Rightarrow> byte option" where
  "as_u8 (JNum n) = (if 0 \<le> n \<and> n < 256 then Some (of_int n) else None)"
| "as_u8 _ = None"

fun as_i64 :: "json \<Rightarrow> int option" where
  "as_i64 (JNum n) = (if - (2 ^ 63) \<le> n \<and> n < 2 ^ 63 then Some n else None)"
| "as_i64 _ = None"

fun as_u64 :: "json \<Rightarrow> u64 option" where
  "as_u64 (JNum n) = (if 0 \<le> n \<and> n < 2 ^ 64 then Some (of_int n) else None)"
| "as_u64 _ = None"

fun collect_some :: "'a option list \<Rightarrow> 'a list option" where
  "collect_some [] = Some []"
| "collect_some (x # xs) = Option.bind x (\<lambda>y. map_option ((#) y) (collect_some xs))"

definition as_bytes :: "json \<Rightarrow> byte list option" where
  "as_bytes v = Option.bind (as_array v) (\<lambda>xs. collect_some (map as_u8 xs))"

lemma required_Some [simp]: "required rd v = Some x \<longleftrightarrow> (\<exists>w. v = Some w \<and> rd w = Some x)"
  by (cases v) (simp_all add: required_def)

lemma optional_Some: "optional rd x = Some (Some v) \<Longrightarrow> \<exists>w. x = Some w \<and> rd w = Some v"
  by (auto simp: optional_def split: option.splits json.splits)

lemma as_str_Some_iff: "as_str v = Some s \<longleftrightarrow> v = JStr s"
  by (cases v) auto

lemma struct_of_value:
  "value_ok (JObj m) \<Longrightarrow> struct_of fs (JObj m) = Some (\<lambda>k. if k \<in> set fs then map_of m k else None)"
  by (simp add: struct_of_def value_ok_JObj sorted_strict_distinct del: value_ok.simps)

lemma struct_of_JObj:
  "struct_of fs v = Some g \<Longrightarrow> json_get k v = Some w \<Longrightarrow> k \<in> set fs \<Longrightarrow> g k = Some w"
  by (cases v) (auto simp: struct_of_def split: if_splits)

section \<open>ASCII case\<close>

definition to_ascii_lowercase :: "string \<Rightarrow> string" where
  "to_ascii_lowercase s = map (\<lambda>c. if CHR ''A'' \<le> c \<and> c \<le> CHR ''Z'' then char_of ((of_char c :: nat) + 32) else c) s"

definition eq_ignore_ascii_case :: "string \<Rightarrow> string \<Rightarrow> bool" where
  "eq_ignore_ascii_case a b \<longleftrightarrow> to_ascii_lowercase a = to_ascii_lowercase b"

section \<open>Third-party functions\<close>

text \<open>
  A reader or decoder that gives \<open>None\<close> is one that returned an error. \<open>b64\<close> is the standard
  alphabet with padding, \<open>b64url\<close> the URL-safe one without.
\<close>

record externals =
  parse_json :: "byte list \<Rightarrow> json option"
  print_json :: "json \<Rightarrow> byte list"
  b64_encode :: "byte list \<Rightarrow> string"
  b64_decode :: "string \<Rightarrow> byte list option"
  b64url_encode :: "byte list \<Rightarrow> string"
  b64url_decode :: "string \<Rightarrow> byte list option"
  hex_encode :: "byte list \<Rightarrow> string"
  hex_decode :: "string \<Rightarrow> byte list option"
  sha256 :: "byte list \<Rightarrow> byte list"

text \<open>\<open>serde_json::from_slice::<Value>\<close> and \<open>to_vec\<close> or \<open>to_string\<close>.\<close>

definition from_slice :: "externals \<Rightarrow> byte list \<Rightarrow> json option" where
  "from_slice X b = map_option to_value (parse_json X b)"

definition to_string :: "externals \<Rightarrow> json \<Rightarrow> string" where
  "to_string X v = string_of (print_json X v)"

text \<open>What \<open>serde_json\<close> documents: a printed \<open>Value\<close> reads back as itself.\<close>

definition printer_ok :: "externals \<Rightarrow> bool" where
  "printer_ok X \<longleftrightarrow> (\<forall>v. value_ok v \<longrightarrow> parse_json X (print_json X v) = Some v)"

lemma printed_value [simp]:
  "printer_ok X \<Longrightarrow> value_ok v \<Longrightarrow> parse_json X (print_json X v) = Some v"
  "printer_ok X \<Longrightarrow> value_ok v \<Longrightarrow> from_slice X (print_json X v) = Some v"
  by (simp_all add: printer_ok_def from_slice_def)

lemma value_ok_from_slice: "from_slice X b = Some v \<Longrightarrow> value_ok v"
  by (auto simp: from_slice_def)

lemma value_ok_empty [simp]: "value_ok (JObj [])" "value_ok (JArr (map JStr ss))"
  by (simp_all add: list_all_iff)

declare value_ok.simps(6, 7) [simp del] to_value.simps(6, 7) [simp del]

end
