(* ===== verification/WasmHost.thy ===== *)
theory WasmHost
  imports Json Tasks
begin

text \<open>
  The wasm component host, \<^verbatim>\<open>verifier/src/wasm_host.rs\<close>: the hash whitelist, the registry of
  compiled components and the evaluation of evidence by a component.

  \<^item> Registration is cut at its awaits, so that any number of requests can race: \<open>register_begin\<close>
    runs up to the write lock, \<open>register_commit\<close> under it; \<open>register\<close> is both in a row.
  \<^item> wasmtime is a parameter: \<open>compile\<close> gives the component of a binary if it compiles, and
    \<open>run_component\<close> the string its \<open>evaluate\<close> export returns.
  \<^item> \<open>uuids\<close> lists the version 4 UUIDs drawn so far; a new one is assumed to differ from them.
\<close>

record 'c registry =
  by_id :: "string \<rightharpoonup> string"
  by_hash :: "string \<rightharpoonup> string"
  compiled :: "string \<rightharpoonup> 'c"
  files :: "string \<rightharpoonup> byte list"
  uuids :: "string list"

record wasm_host =
  allow_unsigned :: bool
  trusted_hashes :: "string list"

definition registry_empty :: "'c registry" where
  "registry_empty = \<lparr>by_id = Map.empty, by_hash = Map.empty, compiled = Map.empty, files = Map.empty, uuids = []\<rparr>"

text \<open>\<open>WasmHost::new\<close>; the flags tell whether the directory and the engine could be made.\<close>

definition wasm_host_new :: "bool \<Rightarrow> bool \<Rightarrow> bool \<Rightarrow> string list \<Rightarrow> wasm_host res" where
  "wasm_host_new dir_made engine_made allow hashes =
     and_then (bail_unless dir_made ''create registry dir'') (\<lambda>_.
     and_then (bail_unless engine_made ''create wasmtime engine'') (\<lambda>_.
     and_then (bail_unless (\<not> (\<not> allow \<and> hashes = []))
       ''wasm: allow_unsigned=false requires at least one trusted_component_hashes'') (\<lambda>_.
     Inr \<lparr>allow_unsigned = allow, trusted_hashes = map to_ascii_lowercase hashes\<rparr>)))"

definition sha256_hex :: "externals \<Rightarrow> byte list \<Rightarrow> string" where
  "sha256_hex X data = hex_encode X (sha256 X data)"

definition hash_allowed :: "wasm_host \<Rightarrow> string \<Rightarrow> bool" where
  "hash_allowed host sha \<longleftrightarrow> allow_unsigned host \<or> sha \<in> set (trusted_hashes host)"

section \<open>Registration\<close>

datatype 'c registration =
    Submitted "byte list"
  | Persisted "byte list" string 'c
  | Registered "byte list" string
  | Refused string

text \<open>Up to the write lock: \<open>uuid\<close> is the identifier drawn, \<open>saved\<close> whether the file was written.\<close>

definition register_begin ::
  "externals \<Rightarrow> (byte list \<Rightarrow> 'c option) \<Rightarrow> wasm_host \<Rightarrow> string \<Rightarrow> bool \<Rightarrow> byte list \<Rightarrow> 'c registry
   \<Rightarrow> 'c registry \<times> 'c registration" where
  "register_begin X compile host uuid saved bytes reg =
     (let sha = sha256_hex X bytes in
      if \<not> allow_unsigned host \<and> sha \<notin> set (trusted_hashes host)
      then (reg, Refused ''untrusted wasm component'')
      else case by_hash reg sha of
        Some cid \<Rightarrow> (reg, Registered bytes cid)
      | None \<Rightarrow>
          (case compile bytes of
             None \<Rightarrow> (reg, Refused ''compile wasm component'')
           | Some component \<Rightarrow>
               let reg' = reg\<lparr>uuids := uuid # uuids reg\<rparr> in
               if saved then (reg'\<lparr>files := (files reg')(uuid \<mapsto> bytes)\<rparr>, Persisted bytes uuid component)
               else (reg', Refused ''persist'')))"

text \<open>Under the write lock: the race check, then the three insertions.\<close>

definition register_commit ::
  "externals \<Rightarrow> byte list \<Rightarrow> string \<Rightarrow> 'c \<Rightarrow> 'c registry \<Rightarrow> 'c registry \<times> 'c registration" where
  "register_commit X bytes cid component reg =
     (let sha = sha256_hex X bytes in
      case by_hash reg sha of
        Some existing \<Rightarrow> (reg\<lparr>files := (files reg)(cid := None)\<rparr>, Registered bytes existing)
      | None \<Rightarrow>
          (reg\<lparr>by_id := (by_id reg)(cid \<mapsto> sha), by_hash := (by_hash reg)(sha \<mapsto> cid),
               compiled := (compiled reg)(cid \<mapsto> component)\<rparr>, Registered bytes cid))"

definition register where
  "register X compile host uuid saved bytes reg =
     (case register_begin X compile host uuid saved bytes reg of
        (reg', Persisted b cid component) \<Rightarrow>
          (case register_commit X b cid component reg' of
             (reg'', Registered b' cid') \<Rightarrow> (reg'', Inr cid')
           | (reg'', _) \<Rightarrow> (reg'', Inl (Err ''unreachable'')))
      | (reg', Registered b cid) \<Rightarrow> (reg', Inr cid)
      | (reg', Refused e) \<Rightarrow> (reg', Inl (Err e))
      | (reg', Submitted b) \<Rightarrow> (reg', Inl (Err ''unreachable'')))"

section \<open>Evaluation\<close>

text \<open>
  \<open>run_component c evidence report_data init_data\<close> is the string returned, or \<open>None\<close> when
  instantiation or the call failed.
\<close>

definition evaluate where
  "evaluate X run_component reg component_id evidence report_data init_data =
     and_then (ok_or ''unknown component_id'' (compiled reg component_id)) (\<lambda>component.
     and_then (ok_or ''call evaluate'' (run_component component evidence report_data init_data)) (\<lambda>raw.
     and_then (ok_or ''component returned non-json'' (from_slice X (bytes_of raw))) (\<lambda>claims.
     and_then (bail_unless (json_get ''error'' claims = None) ''wasm component reported error'') (\<lambda>_.
     and_then (bail_unless ((case get_str ''verification'' claims of Some s \<Rightarrow> s | None \<Rightarrow> ''missing'') = ''passed'')
       ''verification did not pass'') (\<lambda>_.
     Inr (component_id, claims))))))"

lemma evaluate_Inr_iff:
  "evaluate X run_component reg cid evidence rd ini = Inr (cid', claims) \<longleftrightarrow>
     cid' = cid \<and> (\<exists>component raw. compiled reg cid = Some component \<and>
       run_component component evidence rd ini = Some raw \<and> from_slice X (bytes_of raw) = Some claims \<and>
       json_get ''error'' claims = None \<and> get_str ''verification'' claims = Some ''passed'')"
  by (auto simp: evaluate_def and_then_Inr_iff split: option.splits)

section \<open>Racing registrations\<close>

text \<open>Requests as tasks over the shared registry; nothing is emitted.\<close>

inductive registration_runs ::
  "externals \<Rightarrow> (byte list \<Rightarrow> 'c option) \<Rightarrow> wasm_host \<Rightarrow> 'c registry \<Rightarrow> 'c registration
   \<Rightarrow> 'c registry \<Rightarrow> 'c registration \<Rightarrow> unit list \<Rightarrow> bool" for X compile host where
  "uuid \<notin> set (uuids reg) \<Longrightarrow> register_begin X compile host uuid saved bytes reg = (reg', j') \<Longrightarrow>
   registration_runs X compile host reg (Submitted bytes) reg' j' []"
| "register_commit X bytes cid component reg = (reg', j') \<Longrightarrow>
   registration_runs X compile host reg (Persisted bytes cid component) reg' j' []"

inductive_cases registration_runsE: "registration_runs X compile host reg j reg' j' outs"

definition entry_ok where
  "entry_ok X compile host reg cid sha \<longleftrightarrow>
     hash_allowed host sha \<and> cid \<in> set (uuids reg) \<and>
     (\<exists>bytes component. sha256_hex X bytes = sha \<and> compile bytes = Some component \<and>
        compiled reg cid = Some component \<and> files reg cid = Some bytes)"

definition registry_ok where
  "registry_ok X compile host reg \<longleftrightarrow>
     (\<forall>cid sha. by_id reg cid = Some sha \<longleftrightarrow> by_hash reg sha = Some cid) \<and>
     (\<forall>cid sha. by_id reg cid = Some sha \<longrightarrow> entry_ok X compile host reg cid sha) \<and>
     (\<forall>cid. compiled reg cid = None \<longleftrightarrow> by_id reg cid = None)"

fun owned :: "'c registration \<Rightarrow> string option" where
  "owned (Persisted bytes cid component) = Some cid"
| "owned _ = None"

fun registration_ok where
  "registration_ok X compile host reg (Submitted bytes) = True"
| "registration_ok X compile host reg (Persisted bytes cid component) =
     (hash_allowed host (sha256_hex X bytes) \<and> compile bytes = Some component \<and> cid \<in> set (uuids reg) \<and>
      by_id reg cid = None \<and> files reg cid = Some bytes)"
| "registration_ok X compile host reg (Registered bytes cid) = (by_hash reg (sha256_hex X bytes) = Some cid)"
| "registration_ok X compile host reg (Refused e) = True"

lemma registry_ok_draw:
  assumes "registry_ok X compile host reg" "uuid \<notin> set (uuids reg)"
  shows "registry_ok X compile host (reg\<lparr>uuids := uuid # uuids reg\<rparr>)"
    "registry_ok X compile host (reg\<lparr>uuids := uuid # uuids reg, files := (files reg)(uuid \<mapsto> bytes)\<rparr>)"
    "by_id reg uuid = None"
proof -
  have ne: "cid \<noteq> uuid" if "by_id reg cid = Some sha" for cid sha
    using assms that by (auto simp: registry_ok_def entry_ok_def)
  then show "by_id reg uuid = None" by (cases "by_id reg uuid") auto
  have "entry_ok X compile host (reg\<lparr>uuids := uuid # uuids reg, files := (files reg)(uuid \<mapsto> bytes)\<rparr>) cid sha"
    "entry_ok X compile host (reg\<lparr>uuids := uuid # uuids reg\<rparr>) cid sha"
    if "by_id reg cid = Some sha" for cid sha
    using assms(1) that ne [OF that] by (auto simp: registry_ok_def entry_ok_def)
  then show "registry_ok X compile host (reg\<lparr>uuids := uuid # uuids reg\<rparr>)"
    "registry_ok X compile host (reg\<lparr>uuids := uuid # uuids reg, files := (files reg)(uuid \<mapsto> bytes)\<rparr>)"
    using assms(1) by (simp_all add: registry_ok_def)
qed

lemma registry_ok_discard:
  assumes "registry_ok X compile host reg" "by_id reg cid = None"
  shows "registry_ok X compile host (reg\<lparr>files := (files reg)(cid := None)\<rparr>)"
proof -
  have "entry_ok X compile host (reg\<lparr>files := (files reg)(cid := None)\<rparr>) k sha" if "by_id reg k = Some sha" for k sha
  proof -
    have "k \<noteq> cid" using assms(2) that by auto
    then show ?thesis using assms(1) that unfolding registry_ok_def entry_ok_def by simp
  qed
  then show ?thesis using assms(1) by (simp add: registry_ok_def)
qed

lemma registry_ok_insert:
  assumes reg: "registry_ok X compile host reg" and free: "by_id reg cid = None" "by_hash reg sha = None"
    and entry: "hash_allowed host sha" "cid \<in> set (uuids reg)" "sha256_hex X bytes = sha"
      "compile bytes = Some component" "files reg cid = Some bytes"
  shows "registry_ok X compile host (reg\<lparr>by_id := (by_id reg)(cid \<mapsto> sha), by_hash := (by_hash reg)(sha \<mapsto> cid),
    compiled := (compiled reg)(cid \<mapsto> component)\<rparr>)" (is "registry_ok X compile host ?reg")
proof -
  have old: "by_hash reg s \<noteq> Some cid" "by_id reg k \<noteq> Some sha" for s k
    using reg free unfolding registry_ok_def by (metis option.discI)+
  have "entry_ok X compile host ?reg k s" if "by_id ?reg k = Some s" for k s
    using reg entry that by (cases "k = cid") (auto simp: registry_ok_def entry_ok_def)
  moreover have "by_id ?reg k = Some s \<longleftrightarrow> by_hash ?reg s = Some k" for k s
    using reg old by (auto simp: registry_ok_def)
  moreover have "compiled ?reg k = None \<longleftrightarrow> by_id ?reg k = None" for k
    using reg by (simp add: registry_ok_def)
  ultimately show ?thesis unfolding registry_ok_def by blast
qed

lemma registration_step_ok:
  assumes run: "registration_runs X compile host reg j reg' j' outs"
    and reg: "registry_ok X compile host reg" and j: "registration_ok X compile host reg j"
  shows "registry_ok X compile host reg' \<and> registration_ok X compile host reg' j' \<and>
    (owned j' = None \<or> (\<exists>cid. owned j' = Some cid \<and> cid \<notin> set (uuids reg))) \<and>
    set (uuids reg) \<subseteq> set (uuids reg') \<and>
    (\<forall>k. registration_ok X compile host reg k \<longrightarrow> owned k = None \<or> owned k \<noteq> owned j \<longrightarrow>
      registration_ok X compile host reg' k)"
  using run
proof cases
  case (1 uuid saved bytes)
  note draw = registry_ok_draw [OF reg 1(3)]
  have keep: "registration_ok X compile host reg' k" if "registration_ok X compile host reg k" for k
  proof -
    have "uuid \<noteq> cid" if "k = Persisted b cid c" for b cid c
      using \<open>registration_ok X compile host reg k\<close> that 1(3) by auto
    then show ?thesis
      using that 1 by (cases k) (auto simp: register_begin_def Let_def split: if_splits option.splits)
  qed
  show ?thesis
    using 1 draw reg keep
    by (auto simp: register_begin_def hash_allowed_def Let_def split: if_splits option.splits)
next
  case (2 bytes cid component)
  have j': "hash_allowed host (sha256_hex X bytes)" "compile bytes = Some component" "cid \<in> set (uuids reg)"
    "by_id reg cid = None" "files reg cid = Some bytes" using j 2(1) by simp_all
  show ?thesis
  proof (cases "by_hash reg (sha256_hex X bytes)")
    case None
    from registry_ok_insert [OF reg j'(4) None j'(1,3) refl j'(2,5)]
    have ok: "registry_ok X compile host reg'" using 2 None by (simp add: register_commit_def Let_def)
    have keep: "registration_ok X compile host reg' k"
      if "registration_ok X compile host reg k" "owned k = None \<or> owned k \<noteq> owned j" for k
      using that 2 None by (cases k) (auto simp: register_commit_def Let_def)
    show ?thesis using ok keep 2 None by (auto simp: register_commit_def Let_def)
  next
    case (Some existing)
    from registry_ok_discard [OF reg j'(4)]
    have ok: "registry_ok X compile host reg'" using 2 Some by (simp add: register_commit_def Let_def)
    have keep: "registration_ok X compile host reg' k"
      if "registration_ok X compile host reg k" "owned k = None \<or> owned k \<noteq> owned j" for k
      using that 2 Some by (cases k) (auto simp: register_commit_def Let_def)
    show ?thesis using ok keep 2 Some by (auto simp: register_commit_def Let_def)
  qed
qed

section \<open>Every race\<close>

definition requests_ok where
  "requests_ok X compile host d \<longleftrightarrow> (case d of (reg, js, log) \<Rightarrow>
     registry_ok X compile host reg \<and> (\<forall>j\<in>set js. registration_ok X compile host reg j) \<and>
     (\<forall>a < length js. \<forall>b < length js. a \<noteq> b \<longrightarrow> owned (js ! a) \<noteq> None \<longrightarrow> owned (js ! a) \<noteq> owned (js ! b)))"

lemma owned_drawn:
  "registration_ok X compile host reg j \<Longrightarrow> owned j = Some cid \<Longrightarrow> cid \<in> set (uuids reg)"
  by (cases j) auto

lemma requests_step_ok:
  assumes "pool_step (registration_runs X compile host) d d'" "requests_ok X compile host d"
  shows "requests_ok X compile host d'"
  using assms(1)
proof cases
  case (1 i js reg reg' j' outs log)
  have d: "registry_ok X compile host reg" "\<forall>j\<in>set js. registration_ok X compile host reg j"
    "\<forall>a < length js. \<forall>b < length js. a \<noteq> b \<longrightarrow> owned (js ! a) \<noteq> None \<longrightarrow> owned (js ! a) \<noteq> owned (js ! b)"
    using assms(2) 1(1) by (simp_all add: requests_ok_def)
  have job: "registration_ok X compile host reg (js ! i)" using d(2) 1(3) by simp
  note step = registration_step_ok [OF 1(4) d(1) job]
  have others: "registration_ok X compile host reg' (js ! k)" if "k < length js" "k \<noteq> i" for k
  proof -
    have "owned (js ! k) = None \<or> owned (js ! k) \<noteq> owned (js ! i)" using d(3) 1(3) that by blast
    then show ?thesis using step d(2) that(1) by auto
  qed
  have jobs: "\<forall>j\<in>set (js[i := j']). registration_ok X compile host reg' j"
    using step others 1(3) by (auto simp: in_set_conv_nth nth_list_update)
  have fresh: "owned j' \<noteq> owned (js ! k)" if "owned j' \<noteq> None" "k < length js" for k
    using step owned_drawn [of X compile host reg "js ! k"] d(2) that by (cases "owned (js ! k)") auto
  have "owned (js[i := j'] ! a) \<noteq> owned (js[i := j'] ! b)"
    if "a < length js" "b < length js" "a \<noteq> b" "owned (js[i := j'] ! a) \<noteq> None" for a b
    using that d(3) fresh [of a] fresh [of b] 1(3)
    by (cases "a = i"; cases "b = i"; cases "owned j'") (auto simp: nth_list_update)
  then show ?thesis using 1(2) jobs step by (simp add: requests_ok_def)
qed

lemma requests_run_ok:
  assumes "(pool_step (registration_runs X compile host))\<^sup>*\<^sup>* d d'" "requests_ok X compile host d"
  shows "requests_ok X compile host d'"
  using assms by (induction rule: rtranclp_induct) (auto intro: requests_step_ok)

text \<open>
  C29. However many registrations race: every compiled component was compiled from bytes whose hash
  the whitelist allows and that lie in its file, two requests with bytes of the same hash that were
  answered got the same identifier, and requests with different hashes got different ones.
\<close>
theorem racing_registrations_agree:
  assumes run: "(pool_step (registration_runs X compile host))\<^sup>*\<^sup>*
      (registry_empty, map Submitted uploads, []) (reg, js, log)"
  shows "(\<forall>cid component. compiled reg cid = Some component \<longrightarrow>
      (\<exists>bytes. hash_allowed host (sha256_hex X bytes) \<and> compile bytes = Some component \<and>
         by_hash reg (sha256_hex X bytes) = Some cid \<and> files reg cid = Some bytes)) \<and>
    (\<forall>b1 c1 b2 c2. Registered b1 c1 \<in> set js \<longrightarrow> Registered b2 c2 \<in> set js \<longrightarrow>
      hash_allowed host (sha256_hex X b1) \<and> compiled reg c1 \<noteq> None \<and>
      (c1 = c2 \<longleftrightarrow> sha256_hex X b1 = sha256_hex X b2))"
proof -
  have "requests_ok X compile host (registry_empty, map Submitted uploads, [])"
    by (auto simp: requests_ok_def registry_ok_def registry_empty_def)
  from requests_run_ok [OF run this]
  have inverse: "by_id reg cid = Some sha \<longleftrightarrow> by_hash reg sha = Some cid"
    and entry: "by_id reg cid = Some sha \<Longrightarrow> entry_ok X compile host reg cid sha"
    and dom: "compiled reg cid = None \<longleftrightarrow> by_id reg cid = None"
    and jobs: "\<forall>j\<in>set js. registration_ok X compile host reg j" for cid sha
    by (simp_all add: requests_ok_def registry_ok_def)
  have own: "by_hash reg (sha256_hex X b) = Some c" if "Registered b c \<in> set js" for b c
    using jobs that by force
  show ?thesis
  proof (intro conjI allI impI)
    fix cid component assume c: "compiled reg cid = Some component"
    then obtain sha where sha: "by_id reg cid = Some sha" using dom [of cid] by auto
    then show "\<exists>bytes. hash_allowed host (sha256_hex X bytes) \<and> compile bytes = Some component \<and>
         by_hash reg (sha256_hex X bytes) = Some cid \<and> files reg cid = Some bytes"
      using entry [OF sha] inverse [of cid sha] c by (auto simp: entry_ok_def)
  next
    fix b1 c1 b2 c2 assume r: "Registered b1 c1 \<in> set js" "Registered b2 c2 \<in> set js"
    have id: "by_id reg c1 = Some (sha256_hex X b1)" "by_id reg c2 = Some (sha256_hex X b2)"
      using own r inverse by simp_all
    show "hash_allowed host (sha256_hex X b1)" using entry [OF id(1)] by (simp add: entry_ok_def)
    show "compiled reg c1 \<noteq> None" using dom [of c1] id(1) by simp
    show "c1 = c2 \<longleftrightarrow> sha256_hex X b1 = sha256_hex X b2"
      using id own [OF r(1)] own [OF r(2)] by (metis option.inject)
  qed
qed

text \<open>A toy hash, and two uploads of the same bytes that race: the second one commits first.\<close>

definition toy_ext :: externals where
  "toy_ext = \<lparr>parse_json = (\<lambda>b. Some (JStr (string_of b))), print_json = (\<lambda>v. []),
     b64_encode = string_of, b64_decode = (\<lambda>s. Some (bytes_of s)),
     b64url_encode = string_of, b64url_decode = (\<lambda>s. Some (bytes_of s)),
     hex_encode = string_of, hex_decode = (\<lambda>s. Some (bytes_of s)), sha256 = take 2\<rparr>"

definition toy_host :: wasm_host where
  "toy_host = \<lparr>allow_unsigned = False, trusted_hashes = [''ab'']\<rparr>"

definition toy_compile :: "byte list \<Rightarrow> nat option" where
  "toy_compile b = Some (length b)"

definition toy_upload :: "byte list" where
  "toy_upload = bytes_of ''abc''"

lemma toy_sha: "sha256_hex toy_ext toy_upload = ''ab''"
proof -
  have "take 2 (bytes_of ''abc'') = bytes_of ''ab''" by (simp add: bytes_of_def)
  then show ?thesis by (simp add: sha256_hex_def toy_ext_def toy_upload_def)
qed

lemma toy_race:
  "\<exists>reg. (pool_step (registration_runs toy_ext toy_compile toy_host))\<^sup>*\<^sup>*
      (registry_empty, map Submitted [toy_upload, toy_upload], [])
      (reg, [Registered toy_upload ''u2'', Registered toy_upload ''u2''], [])"
proof -
  let ?run = "registration_runs toy_ext toy_compile toy_host"
  let ?b = toy_upload
  define r0 :: "nat registry" where "r0 = registry_empty"
  define r1 where "r1 = r0\<lparr>uuids := [''u1''], files := (files r0)(''u1'' \<mapsto> ?b)\<rparr>"
  define r2 where "r2 = r1\<lparr>uuids := [''u2'', ''u1''], files := (files r1)(''u2'' \<mapsto> ?b)\<rparr>"
  define r3 where "r3 = r2\<lparr>by_id := (by_id r2)(''u2'' \<mapsto> ''ab''), by_hash := (by_hash r2)(''ab'' \<mapsto> ''u2''),
      compiled := (compiled r2)(''u2'' \<mapsto> 3)\<rparr>"
  define r4 where "r4 = r3\<lparr>files := (files r3)(''u1'' := None)\<rparr>"
  note defs = r4_def r3_def r2_def r1_def r0_def registry_empty_def register_begin_def register_commit_def
    toy_sha toy_host_def toy_compile_def Let_def
  have len: "length toy_upload = 3" by (simp add: toy_upload_def)
  have t1: "?run r0 (Submitted ?b) r1 (Persisted ?b ''u1'' 3) []"
    by (rule registration_runs.intros(1) [where uuid = "''u1''" and saved = True]) (simp_all add: defs len)
  have t2: "?run r1 (Submitted ?b) r2 (Persisted ?b ''u2'' 3) []"
    by (rule registration_runs.intros(1) [where uuid = "''u2''" and saved = True]) (simp_all add: defs len)
  have t3: "?run r2 (Persisted ?b ''u2'' 3) r3 (Registered ?b ''u2'') []"
    by (rule registration_runs.intros(2)) (simp add: defs)
  have t4: "?run r3 (Persisted ?b ''u1'' 3) r4 (Registered ?b ''u2'') []"
    by (rule registration_runs.intros(2)) (simp add: defs)
  have "pool_step ?run (r0, [Submitted ?b, Submitted ?b], []) (r1, [Persisted ?b ''u1'' 3, Submitted ?b], [])"
    using t1 pool_step.intros [where i = 0 and js = "[Submitted ?b, Submitted ?b]" and run = ?run and log = "[]"] by simp
  moreover have "pool_step ?run (r1, [Persisted ?b ''u1'' 3, Submitted ?b], []) (r2, [Persisted ?b ''u1'' 3, Persisted ?b ''u2'' 3], [])"
    using t2 pool_step.intros [where i = 1 and js = "[Persisted ?b ''u1'' 3, Submitted ?b]" and run = ?run and log = "[]"] by simp
  moreover have "pool_step ?run (r2, [Persisted ?b ''u1'' 3, Persisted ?b ''u2'' 3], []) (r3, [Persisted ?b ''u1'' 3, Registered ?b ''u2''], [])"
    using t3 pool_step.intros [where i = 1 and js = "[Persisted ?b ''u1'' 3, Persisted ?b ''u2'' 3]" and run = ?run and log = "[]"] by simp
  moreover have "pool_step ?run (r3, [Persisted ?b ''u1'' 3, Registered ?b ''u2''], []) (r4, [Registered ?b ''u2'', Registered ?b ''u2''], [])"
    using t4 pool_step.intros [where i = 0 and js = "[Persisted ?b ''u1'' 3, Registered ?b ''u2'']" and run = ?run and log = "[]"] by simp
  ultimately show ?thesis
    unfolding r0_def [symmetric] by (intro exI [of _ r4]) (simp add: converse_rtranclp_into_rtranclp)
qed

theorem racing_registrations_agree_witness:
  "\<exists>reg. (pool_step (registration_runs toy_ext toy_compile toy_host))\<^sup>*\<^sup>*
      (registry_empty, map Submitted [toy_upload, toy_upload], [])
      (reg, [Registered toy_upload ''u2'', Registered toy_upload ''u2''], []) \<and>
     compiled reg ''u2'' \<noteq> None \<and> hash_allowed toy_host ''ab''"
proof -
  obtain reg where run: "(pool_step (registration_runs toy_ext toy_compile toy_host))\<^sup>*\<^sup>*
      (registry_empty, map Submitted [toy_upload, toy_upload], [])
      (reg, [Registered toy_upload ''u2'', Registered toy_upload ''u2''], [])" using toy_race by blast
  from racing_registrations_agree [OF run] run show ?thesis by (auto simp: toy_sha)
qed

end
