(* ===== verification/Natives.thy ===== *)
theory Natives
  imports Json
begin

text \<open>
  What the verifier host checks of evidence before a component sees it: \<^verbatim>\<open>verifier/src/cca_native.rs\<close>,
  \<^verbatim>\<open>csv_native.rs\<close>, \<^verbatim>\<open>itrustee_native.rs\<close> and \<^verbatim>\<open>virtcca_native.rs\<close>, with the policies of
  \<^verbatim>\<open>config.rs\<close> they read.

  \<^item> The crates \<^verbatim>\<open>ccatoken\<close> and \<^verbatim>\<open>csv_rs\<close> are the records \<open>ccatoken\<close> and \<open>csv_rs\<close>: what they decode,
    whether they accept it, and the fields the host reads of it.
  \<^item> Reading a file and fetching a URL give \<open>None\<close> when they fail.
\<close>

record cca_policy =
  ta_store :: "string option"
  rv_store :: "string option"
  trusted_subjects :: "string list"
  trusted_rim_hex :: "string list"

record csv_policy =
  csv_enabled :: bool
  cert_dir :: string
  allow_kds_fetch :: bool
  trusted_chip_ids :: "string list"

record tdx_policy =
  pccs_url :: string
  trusted_mr_td_hex :: "string list"
  trusted_mr_seam_hex :: "string list"
  trusted_mr_config_id_hex :: "string list"
  accept_tcb_status :: "string list"

definition cca_policy_default :: cca_policy where
  "cca_policy_default = \<lparr>ta_store = None, rv_store = None, trusted_subjects = [], trusted_rim_hex = []\<rparr>"

definition csv_policy_default :: csv_policy where
  "csv_policy_default = \<lparr>csv_enabled = False, cert_dir = ''/opt/hygon/csv'', allow_kds_fetch = False,
     trusted_chip_ids = []\<rparr>"

definition tdx_policy_default :: tdx_policy where
  "tdx_policy_default = \<lparr>pccs_url = ''https://api.trustedservices.intel.com'', trusted_mr_td_hex = [],
     trusted_mr_seam_hex = [], trusted_mr_config_id_hex = [], accept_tcb_status = []\<rparr>"

section \<open>Arm CCA\<close>

record cca_sw_component =
  mval :: "byte list"
  signer_id :: "byte list"
  mtyp :: json
  version :: json

record ('ta, 'rv, 'ev) ccatoken =
  load_tas :: "string \<Rightarrow> 'ta option"
  load_rvs :: "string \<Rightarrow> 'rv option"
  token_decode :: "byte list \<Rightarrow> 'ev option"
  token_verify :: "'ta \<Rightarrow> 'ev \<Rightarrow> 'ev option"
  token_appraise :: "'rv \<Rightarrow> 'ev \<Rightarrow> 'ev option"
  realm_affirming :: "'ev \<Rightarrow> bool"
  realm_challenge :: "'ev \<Rightarrow> byte list"
  realm_rim :: "'ev \<Rightarrow> byte list"
  realm_perso :: "'ev \<Rightarrow> byte list"
  plat_inst_id :: "'ev \<Rightarrow> byte list"
  plat_impl_id :: "'ev \<Rightarrow> byte list"
  plat_lifecycle :: "'ev \<Rightarrow> u16"
  plat_sw_components :: "'ev \<Rightarrow> cca_sw_component list"

record cca_result =
  realm_initial_measurement :: "string option"
  realm_personalization_value :: "string option"
  cca_platform_instance_id :: "string option"
  cca_platform_implementation_id :: "string option"
  cca_platform_lifecycle :: "string option"
  cca_platform_sw_components :: "json list option"

record ('ta, 'rv) cca_verifier =
  tas :: 'ta
  rvs :: 'rv

definition cca_load ::
  "('ta, 'rv, 'ev) ccatoken \<Rightarrow> (string \<Rightarrow> string option) \<Rightarrow> cca_policy \<Rightarrow> ('ta, 'rv) cca_verifier option res" where
  "cca_load K read_file policy =
     (case (ta_store policy, rv_store policy) of
        (Some ta, Some rv) \<Rightarrow>
          and_then (ok_or ''read CCA TA store'' (read_file ta)) (\<lambda>jta.
          and_then (ok_or ''read CCA RV store'' (read_file rv)) (\<lambda>jrv.
          and_then (ok_or ''load CCA TA store'' (load_tas K jta)) (\<lambda>t.
          and_then (ok_or ''load CCA RV store'' (load_rvs K jrv)) (\<lambda>r.
          Inr (Some \<lparr>tas = t, rvs = r\<rparr>)))))
      | _ \<Rightarrow> Inr None)"

text \<open>\<open>{:04x}\<close> of a \<open>u16\<close>.\<close>

definition hex4 :: "u16 \<Rightarrow> string" where
  "hex4 w = map (\<lambda>i. hex_digit (unat (drop_bit (4 * i) w) mod 16)) [3, 2, 1, 0]"

definition lifecycle_text :: "u16 \<Rightarrow> string" where
  "lifecycle_text w =
     (if w = 0x6000 \<or> w = 0x6001 then ''secured''
      else if w = 0x3000 \<or> w = 0x3001 then ''recoverable''
      else if w \<le> 0x00ff then ''not_secured''
      else ''0x'' @ hex4 w)"

definition sw_component_json :: "externals \<Rightarrow> cca_sw_component \<Rightarrow> json" where
  "sw_component_json X c = jobj [(''measurement'', JStr (hex_encode X (mval c))),
     (''signer_id'', JStr (hex_encode X (signer_id c))), (''measurement_type'', to_value (mtyp c)),
     (''version'', to_value (version c))]"

definition cca_verify ::
  "externals \<Rightarrow> ('ta, 'rv, 'ev) ccatoken \<Rightarrow> ('ta, 'rv) cca_verifier \<Rightarrow> byte list \<Rightarrow> byte list \<Rightarrow> cca_result res" where
  "cca_verify X K v token expected_report_data =
     and_then (ok_or ''decode CCA token'' (token_decode K token)) (\<lambda>e0.
     and_then (ok_or ''verify CCA evidence'' (token_verify K (tas v) e0)) (\<lambda>e1.
     and_then (ok_or ''appraise CCA evidence'' (token_appraise K (rvs v) e1)) (\<lambda>e.
     and_then (bail_unless (realm_affirming K e)
       ''CCA RAK signature or RAK attestation could not be verified'') (\<lambda>_.
     and_then (bail_unless (expected_report_data = realm_challenge K e)
       ''CCA realm token challenge does not match expected_report_data'') (\<lambda>_.
     Inr \<lparr>realm_initial_measurement =
            (if realm_rim K e \<noteq> [] then Some (hex_encode X (realm_rim K e)) else None),
          realm_personalization_value =
            (if realm_perso K e \<noteq> [] then Some (hex_encode X (realm_perso K e)) else None),
          cca_platform_instance_id = Some (hex_encode X (plat_inst_id K e)),
          cca_platform_implementation_id = Some (hex_encode X (plat_impl_id K e)),
          cca_platform_lifecycle = Some (lifecycle_text (plat_lifecycle K e)),
          cca_platform_sw_components =
            (if plat_sw_components K e = [] then None
             else Some (map (sw_component_json X) (plat_sw_components K e)))\<rparr>)))))"

section \<open>Hygon CSV\<close>

text \<open>
  \<open>'w\<close> is the report as it travels, \<open>'r\<close> the parsed one, \<open>'ca\<close> and \<open>'cs\<close> the two kinds of certificate.
  \<open>hrk\<close> is the decoding of the embedded root certificate.
\<close>

record ('w, 'r, 'ca, 'cs) csv_rs =
  wrapper_of_json :: "json \<Rightarrow> 'w option"
  ca_of_json :: "json \<Rightarrow> 'ca option"
  cert_of_json :: "json \<Rightarrow> 'cs option"
  report_of :: "'w \<Rightarrow> 'r option"
  ca_decode :: "byte list \<Rightarrow> ('ca \<times> byte list) option"
  cert_decode :: "byte list \<Rightarrow> ('cs \<times> byte list) option"
  hrk :: "'ca option"
  ca_signs_ca :: "'ca \<Rightarrow> 'ca \<Rightarrow> bool"
  ca_signs_cert :: "'ca \<Rightarrow> 'cs \<Rightarrow> bool"
  cert_signs_cert :: "'cs \<Rightarrow> 'cs \<Rightarrow> bool"
  cert_signs_report :: "'cs \<Rightarrow> 'r \<Rightarrow> bool"
  rep_report_data :: "'r \<Rightarrow> byte list"
  rep_measure :: "'r \<Rightarrow> byte list"
  rep_vm_version :: "'r \<Rightarrow> byte list"
  rep_nodbg :: "'r \<Rightarrow> u32"
  rep_noks :: "'r \<Rightarrow> u32"

record csv_result =
  chip_id :: "string option"
  csv_measurement :: "string option"
  vm_version :: "string option"
  policy_nodbg :: "u32 option"
  policy_noks :: "u32 option"

record ('w, 'ca, 'cs) csv_envelope =
  env_report :: 'w
  env_hsk_cek :: "('ca \<times> 'cs) option"
  env_pek :: 'cs
  env_serial :: "byte list"

definition hsk_cek_of_json :: "('w, 'r, 'ca, 'cs) csv_rs \<Rightarrow> json \<Rightarrow> ('ca \<times> 'cs) option" where
  "hsk_cek_of_json K v =
     Option.bind (struct_of [''hsk'', ''cek''] v) (\<lambda>f.
     Option.bind (required (ca_of_json K) (f ''hsk'')) (\<lambda>hsk.
     Option.bind (required (cert_of_json K) (f ''cek'')) (\<lambda>cek. Some (hsk, cek))))"

definition chain_of_json :: "('w, 'r, 'ca, 'cs) csv_rs \<Rightarrow> json \<Rightarrow> (('ca \<times> 'cs) option \<times> 'cs) option" where
  "chain_of_json K v =
     Option.bind (struct_of [''hsk_cek'', ''pek''] v) (\<lambda>f.
     Option.bind (optional (hsk_cek_of_json K) (f ''hsk_cek'')) (\<lambda>h.
     Option.bind (required (cert_of_json K) (f ''pek'')) (\<lambda>pek. Some (h, pek))))"

definition csv_envelope_of_json :: "('w, 'r, 'ca, 'cs) csv_rs \<Rightarrow> json \<Rightarrow> ('w, 'ca, 'cs) csv_envelope option" where
  "csv_envelope_of_json K v =
     Option.bind (struct_of [''attestation_report'', ''cert_chain'', ''serial_number''] v) (\<lambda>f.
     Option.bind (required (wrapper_of_json K) (f ''attestation_report'')) (\<lambda>w.
     Option.bind (required (chain_of_json K) (f ''cert_chain'')) (\<lambda>c.
     Option.bind (required as_bytes (f ''serial_number'')) (\<lambda>sn.
     Some \<lparr>env_report = w, env_hsk_cek = fst c, env_pek = snd c, env_serial = sn\<rparr>))))"

definition csv_load :: "csv_policy \<Rightarrow> csv_policy option" where
  "csv_load policy = (if csv_enabled policy then Some policy else None)"

text \<open>\<open>trim_end_matches('\0')\<close>.\<close>

definition trim_nulls :: "string \<Rightarrow> string" where
  "trim_nulls s = rev (dropWhile (\<lambda>c. c = char_of (0::nat)) (rev s))"

definition load_hsk_cek ::
  "(string \<Rightarrow> byte list option) \<Rightarrow> (string \<Rightarrow> byte list option) \<Rightarrow> csv_policy \<Rightarrow> string \<Rightarrow> byte list res" where
  "load_hsk_cek read_file http_get policy chip =
     (let local = path_join (path_join (path_join (cert_dir policy) ''hsk_cek'') chip) ''hsk_cek.cert'' in
      case read_file local of
        Some b \<Rightarrow> Inr b
      | None \<Rightarrow>
          and_then (bail_unless (allow_kds_fetch policy) ''HSK/CEK not found'') (\<lambda>_.
          ok_or ''GET'' (http_get (''https://cert.hygon.cn/hsk_cek?snumber='' @ chip))))"

definition verify_chain :: "('w, 'r, 'ca, 'cs) csv_rs \<Rightarrow> 'r \<Rightarrow> 'ca \<Rightarrow> 'cs \<Rightarrow> 'cs \<Rightarrow> unit res" where
  "verify_chain K report hsk cek pek =
     and_then (ok_or ''decode HRK'' (hrk K)) (\<lambda>root.
     and_then (bail_unless (ca_signs_ca K root root) ''HRK self-sign'') (\<lambda>_.
     and_then (bail_unless (ca_signs_ca K root hsk) ''HSK signed by HRK'') (\<lambda>_.
     and_then (bail_unless (ca_signs_cert K hsk cek) ''CEK signed by HSK'') (\<lambda>_.
     and_then (bail_unless (cert_signs_cert K cek pek) ''PEK signed by CEK'') (\<lambda>_.
     bail_unless (cert_signs_report K pek report) ''report signed by PEK'')))))"

text \<open>\<open>Vec::resize(n, 0)\<close>.\<close>

definition resize :: "nat \<Rightarrow> byte list \<Rightarrow> byte list" where
  "resize n xs = take n xs @ replicate (n - length xs) 0"

definition csv_certs where
  "csv_certs K read_file http_get policy chip env =
     (case env_hsk_cek env of
        Some h \<Rightarrow> Inr h
      | None \<Rightarrow>
          and_then (with_context ''load HSK/CEK'' (load_hsk_cek read_file http_get policy chip)) (\<lambda>cert_data.
          and_then (ok_or ''decode HSK'' (ca_decode K cert_data)) (\<lambda>(hsk, rest).
          and_then (ok_or ''decode CEK'' (cert_decode K rest)) (\<lambda>(cek, _).
          Inr (hsk, cek)))))"

definition csv_verify ::
  "externals \<Rightarrow> ('w, 'r, 'ca, 'cs) csv_rs \<Rightarrow> (string \<Rightarrow> byte list option) \<Rightarrow> (string \<Rightarrow> byte list option)
   \<Rightarrow> csv_policy \<Rightarrow> byte list \<Rightarrow> byte list \<Rightarrow> csv_result res" where
  "csv_verify X K read_file http_get policy evidence expected_report_data =
     and_then (ok_or ''decode CSV evidence JSON''
       (Option.bind (parse_json X evidence) (csv_envelope_of_json K))) (\<lambda>env.
     and_then (ok_or ''parse CSV attestation report'' (report_of K (env_report env))) (\<lambda>report.
     and_then (bail_unless (valid_utf8 (env_serial env)) ''decode serial_number'') (\<lambda>_.
     (let chip = trim_nulls (string_of (env_serial env)) in
     and_then (csv_certs K read_file http_get policy chip env) (\<lambda>(hsk, cek).
     and_then (verify_chain K report hsk cek (env_pek env)) (\<lambda>_.
     and_then (bail_unless (resize 64 expected_report_data = rep_report_data K report)
       ''CSV report_data does not match expected nonce'') (\<lambda>_.
     and_then (bail_unless (trusted_chip_ids policy = [] \<or> chip \<in> set (trusted_chip_ids policy))
       ''CSV chip_id not in trusted list'') (\<lambda>_.
     Inr \<lparr>chip_id = Some chip,
          csv_measurement =
            (if rep_measure K report \<noteq> [] then Some (hex_encode X (rep_measure K report)) else None),
          vm_version = Some (hex_encode X (rep_vm_version K report)),
          policy_nodbg = Some (rep_nodbg K report),
          policy_noks = Some (rep_noks K report)\<rparr>))))))))"

section \<open>iTrustee and VirtCCA\<close>

record itrustee_result =
  it_uuid :: "string option"
  it_ta_img :: "string option"
  it_ta_mem :: "string option"
  it_hash_alg :: "string option"
  it_version :: "string option"

definition payload_str :: "json option \<Rightarrow> string \<Rightarrow> string option" where
  "payload_str payload k = Option.bind payload (get_str k)"

definition itrustee_extract_claims :: "externals \<Rightarrow> byte list \<Rightarrow> itrustee_result res" where
  "itrustee_extract_claims X evidence =
     and_then (ok_or ''parse itrustee evidence JSON'' (from_slice X evidence)) (\<lambda>ev.
     and_then (ok_or ''evidence.report missing or not a string'' (get_str ''report'' ev)) (\<lambda>report_str.
     and_then (ok_or ''parse itrustee report JSON'' (from_slice X (bytes_of report_str))) (\<lambda>report.
     (let payload = json_get ''payload'' report in
      Inr \<lparr>it_uuid = payload_str payload ''uuid'',
           it_ta_img = payload_str payload ''ta_img'',
           it_ta_mem = payload_str payload ''ta_mem'',
           it_hash_alg = payload_str payload ''hash_alg'',
           it_version = payload_str payload ''version''\<rparr>))))"

record virtcca_result =
  token_size :: nat
  cert_size :: nat
  ima_log_size :: "nat option"
  event_log_size :: "nat option"

definition array_len :: "string \<Rightarrow> json \<Rightarrow> nat option" where
  "array_len k v = map_option length (get_array k v)"

definition virtcca_extract_claims :: "externals \<Rightarrow> byte list \<Rightarrow> virtcca_result res" where
  "virtcca_extract_claims X evidence =
     and_then (ok_or ''json'' (from_slice X evidence)) (\<lambda>ev.
     Inr \<lparr>token_size = (case array_len ''evidence'' ev of Some n \<Rightarrow> n | None \<Rightarrow> 0),
          cert_size = (case array_len ''dev_cert'' ev of Some n \<Rightarrow> n | None \<Rightarrow> 0),
          ima_log_size = array_len ''ima_log'' ev,
          event_log_size = array_len ''event_log'' ev\<rparr>)"

section \<open>What acceptance means\<close>

lemma verify_chain_ok:
  "verify_chain K report hsk cek pek = Inr u \<longleftrightarrow>
     (\<exists>root. hrk K = Some root \<and> ca_signs_ca K root root \<and> ca_signs_ca K root hsk \<and> ca_signs_cert K hsk cek \<and>
        cert_signs_cert K cek pek \<and> cert_signs_report K pek report)"
  by (auto simp: verify_chain_def and_then_Inr_iff)

lemma cca_verify_ok:
  assumes "cca_verify X K v token expected = Inr r"
  obtains e0 e1 e where "token_decode K token = Some e0" "token_verify K (tas v) e0 = Some e1"
    "token_appraise K (rvs v) e1 = Some e" "realm_affirming K e" "realm_challenge K e = expected"
    "realm_initial_measurement r = (if realm_rim K e \<noteq> [] then Some (hex_encode X (realm_rim K e)) else None)"
    "cca_platform_lifecycle r = Some (lifecycle_text (plat_lifecycle K e))"
  using assms by (auto simp: cca_verify_def and_then_Inr_iff)

lemma csv_verify_ok:
  assumes "csv_verify X K read_file http_get policy evidence nonce = Inr r"
  obtains env report hsk cek root where
    "Option.bind (parse_json X evidence) (csv_envelope_of_json K) = Some env"
    "report_of K (env_report env) = Some report"
    "csv_certs K read_file http_get policy (trim_nulls (string_of (env_serial env))) env = Inr (hsk, cek)"
    "hrk K = Some root" "ca_signs_ca K root hsk" "ca_signs_cert K hsk cek"
    "cert_signs_cert K cek (env_pek env)" "cert_signs_report K (env_pek env) report"
    "rep_report_data K report = resize 64 nonce"
    "trusted_chip_ids policy = [] \<or> trim_nulls (string_of (env_serial env)) \<in> set (trusted_chip_ids policy)"
    "chip_id r = Some (trim_nulls (string_of (env_serial env)))"
    "csv_measurement r = (if rep_measure K report \<noteq> [] then Some (hex_encode X (rep_measure K report)) else None)"
proof -
  obtain env report hsk cek where "Option.bind (parse_json X evidence) (csv_envelope_of_json K) = Some env"
    "report_of K (env_report env) = Some report"
    "csv_certs K read_file http_get policy (trim_nulls (string_of (env_serial env))) env = Inr (hsk, cek)"
    "verify_chain K report hsk cek (env_pek env) = Inr ()"
    "resize 64 nonce = rep_report_data K report"
    "trusted_chip_ids policy = [] \<or> trim_nulls (string_of (env_serial env)) \<in> set (trusted_chip_ids policy)"
    "chip_id r = Some (trim_nulls (string_of (env_serial env)))"
    "csv_measurement r = (if rep_measure K report \<noteq> [] then Some (hex_encode X (rep_measure K report)) else None)"
    using assms unfolding csv_verify_def Let_def by (auto simp: and_then_Inr_iff split: prod.splits)
  then show ?thesis using that by (auto simp: verify_chain_ok)
qed

text \<open>None of these calls panics.\<close>

lemma calm_load_hsk_cek [calm_intros]: "calm (load_hsk_cek read_file http_get policy chip)"
  unfolding load_hsk_cek_def Let_def by (intro calm_intros)

lemma calm_natives:
  "calm (cca_verify X K v token nonce)"
  "calm (csv_verify X K' read_file http_get policy evidence nonce)"
  "calm (itrustee_extract_claims X evidence)"
  "calm (virtcca_extract_claims X evidence)"
  unfolding cca_verify_def csv_verify_def csv_certs_def verify_chain_def itrustee_extract_claims_def
    virtcca_extract_claims_def Let_def
  by (intro calm_intros)+

lemma length_resize [simp]: "length (resize n xs) = n"
  by (simp add: resize_def)

lemma resize_eq: "length xs \<le> n \<Longrightarrow> resize n xs = xs @ replicate (n - length xs) 0"
  by (simp add: resize_def)

end
