(* ===== verification/Grpc.thy ===== *)
theory Grpc
  imports WasmHost Natives
begin

text \<open>
  The gRPC service of the verifier, \<^verbatim>\<open>verifier/src/grpc.rs\<close>, with the result it signs,
  \<^verbatim>\<open>verifier/src/ear.rs\<close>.

  \<^item> \<open>verify\<close> is the handler: it may register a component, and answers with a response or a status.
    The code's steps 1 to 5 are \<open>resolve_component\<close>, \<open>evidence_for_wasm\<close>, \<open>evaluate\<close> of \<open>WasmHost\<close>,
    \<open>enforce_policy\<close> and \<open>issue_ear\<close>.
  \<^item> The record \<open>world\<close> holds what the service calls and this repository does not define; a \<open>draw\<close>
    holds what differs from call to call: the UUID and the clock.
\<close>

datatype status = Invalid_argument string | Internal string

datatype tee_type =
    Unspecified | Mock | Cca | CcaHydra | Tdx | TdxHydra | Csv | CsvHydra | Itrustee | Virtcca
  | ItrusteeHydra | VirtccaHydra

text \<open>\<open>TeeType::try_from(i32)\<close>.\<close>

definition tee_of_i32 :: "int \<Rightarrow> tee_type option" where
  "tee_of_i32 n =
     (if 0 \<le> n \<and> n < 12
      then Some ([Unspecified, Mock, Cca, CcaHydra, Tdx, TdxHydra, Csv, CsvHydra, Itrustee, Virtcca,
                  ItrusteeHydra, VirtccaHydra] ! nat n)
      else None)"

fun tee_type_str :: "tee_type \<Rightarrow> string" where
  "tee_type_str Unspecified = ''unspecified''"
| "tee_type_str Mock = ''mock''"
| "tee_type_str Cca = ''cca''"
| "tee_type_str CcaHydra = ''cca-hydra''"
| "tee_type_str Csv = ''csv''"
| "tee_type_str CsvHydra = ''csv-hydra''"
| "tee_type_str Tdx = ''tdx''"
| "tee_type_str TdxHydra = ''tdx-hydra''"
| "tee_type_str Itrustee = ''itrustee''"
| "tee_type_str ItrusteeHydra = ''itrustee-hydra''"
| "tee_type_str Virtcca = ''virtcca''"
| "tee_type_str VirtccaHydra = ''virtcca-hydra''"

section \<open>The result\<close>

record trust_vector =
  instance_identity :: int
  configuration :: int
  executables :: int

definition trust_vector_new :: "int \<Rightarrow> int \<Rightarrow> int \<Rightarrow> trust_vector" where
  "trust_vector_new i c e = \<lparr>instance_identity = i, configuration = c, executables = e\<rparr>"

definition affirming :: trust_vector where
  "affirming = \<lparr>instance_identity = 2, configuration = 2, executables = 2\<rparr>"

record ear_claims =
  ear_iss :: string
  ear_iat :: int
  ear_exp :: "int option"
  eat_nonce :: string
  ear_tee_type :: string
  ear_component_id :: string
  submods :: json
  ear_trust_vector :: trust_vector
  verifier_id :: "string \<times> string option"
  eat_profile :: "string option"

definition trust_vector_for :: "tee_type \<Rightarrow> bool \<Rightarrow> string option \<Rightarrow> string option \<Rightarrow> trust_vector" where
  "trust_vector_for tee nonce_bound cca_lifecycle tcb_status =
     (if tee \<in> {Tdx, TdxHydra} then
        trust_vector_new 2 2
          (if tcb_status = Some ''UpToDate'' then 2
           else if tcb_status \<in> {Some ''SWHardeningNeeded'', Some ''ConfigurationAndSWHardeningNeeded''} then 1
           else if tcb_status \<in> {Some ''OutOfDate'', Some ''Revoked''} then 0
           else 1)
      else if tee \<in> {Cca, CcaHydra} then
        trust_vector_new (if nonce_bound then 2 else 0)
          (if cca_lifecycle \<in> {Some ''secured'', Some ''secured_no_debug''} then 2
           else if cca_lifecycle \<in> {Some ''not_secured'', Some ''recoverable''} then 1
           else 0) 2
      else if tee \<in> {Csv, CsvHydra} then trust_vector_new (if nonce_bound then 2 else 0) 2 2
      else affirming)"

section \<open>Policies\<close>

definition enforce_cca_policy :: "cca_policy \<Rightarrow> json \<Rightarrow> unit res" where
  "enforce_cca_policy policy claims =
     and_then (if trusted_rim_hex policy = [] then Inr () else
       and_then (ok_or ''claims.cca_realm_initial_measurement missing''
         (get_str ''cca_realm_initial_measurement'' claims)) (\<lambda>rim.
       bail_unless (\<exists>s\<in>set (trusted_rim_hex policy). eq_ignore_ascii_case s rim) ''rim not in trusted list'')) (\<lambda>_.
     and_then (if trusted_subjects policy = [] then Inr () else
       and_then (ok_or ''claims.subject missing'' (get_str ''subject'' claims)) (\<lambda>subject.
       bail_unless (subject \<in> set (trusted_subjects policy)) ''subject not in trusted list'')) (\<lambda>_.
     Inr ()))"

definition match_hex :: "string option \<Rightarrow> string list \<Rightarrow> unit res" where
  "match_hex claim trusted =
     (if trusted = [] then Inr () else
      and_then (ok_or ''claim missing'' claim) (\<lambda>v.
      bail_unless (\<exists>s\<in>set trusted. eq_ignore_ascii_case s v) ''not in trusted list''))"

definition enforce_tdx_policy :: "tdx_policy \<Rightarrow> json \<Rightarrow> unit res" where
  "enforce_tdx_policy policy claims =
     and_then (match_hex (get_str ''mr_td'' claims) (trusted_mr_td_hex policy)) (\<lambda>_.
     and_then (match_hex (get_str ''mr_seam'' claims) (trusted_mr_seam_hex policy)) (\<lambda>_.
     and_then (match_hex (get_str ''mr_config_id'' claims) (trusted_mr_config_id_hex policy)) (\<lambda>_.
     if accept_tcb_status policy = [] then Inr () else
       and_then (ok_or ''claims.tcb_status missing'' (get_str ''tcb_status'' claims)) (\<lambda>s.
       bail_unless (s \<in> set (accept_tcb_status policy)) ''tcb_status not accepted''))))"

section \<open>Injection of what the host extracted\<close>

definition str_of :: "string option \<Rightarrow> json option" where
  "str_of o' = map_option JStr o'"

definition inject_cca_claims :: "cca_result \<Rightarrow> (string \<times> json) list \<Rightarrow> (string \<times> json) list" where
  "inject_cca_claims r m =
     insert_some ''cca_platform_sw_components'' (map_option JArr (cca_platform_sw_components r))
     (insert_some ''cca_platform_lifecycle'' (str_of (cca_platform_lifecycle r))
     (insert_some ''cca_platform_implementation_id'' (str_of (cca_platform_implementation_id r))
     (insert_some ''cca_platform_instance_id'' (str_of (cca_platform_instance_id r))
     (insert_some ''cca_realm_personalization_value'' (str_of (realm_personalization_value r))
     (insert_some ''cca_realm_initial_measurement'' (str_of (realm_initial_measurement r)) m)))))"

definition inject_csv_claims :: "csv_result \<Rightarrow> (string \<times> json) list \<Rightarrow> (string \<times> json) list" where
  "inject_csv_claims r m =
     insert_some ''policy_noks'' (map_option (\<lambda>w. JNum (uint w)) (policy_noks r))
     (insert_some ''policy_nodbg'' (map_option (\<lambda>w. JNum (uint w)) (policy_nodbg r))
     (insert_some ''vm_version'' (str_of (vm_version r))
     (insert_some ''measurement'' (str_of (csv_measurement r))
     (insert_some ''chip_id'' (str_of (chip_id r)) m))))"

definition inject_itrustee_claims :: "itrustee_result \<Rightarrow> (string \<times> json) list \<Rightarrow> (string \<times> json) list" where
  "inject_itrustee_claims r m =
     insert_some ''itrustee_version'' (str_of (it_version r))
     (insert_some ''itrustee_hash_alg'' (str_of (it_hash_alg r))
     (insert_some ''itrustee_ta_mem'' (str_of (it_ta_mem r))
     (insert_some ''itrustee_ta_img'' (str_of (it_ta_img r))
     (insert_some ''itrustee_uuid'' (str_of (it_uuid r)) m))))"

definition inject_virtcca_claims :: "virtcca_result \<Rightarrow> (string \<times> json) list \<Rightarrow> (string \<times> json) list" where
  "inject_virtcca_claims r m =
     insert_some ''virtcca_event_log_size'' (map_option (\<lambda>n. JNum (int n)) (event_log_size r))
     (insert_some ''virtcca_ima_log_size'' (map_option (\<lambda>n. JNum (int n)) (ima_log_size r))
     (obj_insert ''virtcca_cert_size'' (JNum (int (cert_size r)))
     (obj_insert ''virtcca_token_size'' (JNum (int (token_size r))) m)))"

definition extract_b64_field :: "externals \<Rightarrow> byte list \<Rightarrow> string \<Rightarrow> byte list res" where
  "extract_b64_field X evidence key =
     and_then (ok_or ''evidence json'' (from_slice X evidence)) (\<lambda>v.
     and_then (ok_or ''evidence field missing'' (get_str key v)) (\<lambda>s.
     ok_or ''base64'' (b64_decode X s)))"

text \<open>\<open>collateral url quote\<close> is the JSON of what the PCCS returned.\<close>

definition inject_tdx_collateral ::
  "externals \<Rightarrow> (string \<Rightarrow> byte list \<Rightarrow> json option) \<Rightarrow> int \<Rightarrow> byte list \<Rightarrow> string \<Rightarrow> byte list res" where
  "inject_tdx_collateral X collateral now evidence url =
     and_then (ok_or ''evidence json'' (from_slice X evidence)) (\<lambda>v.
     and_then (ok_or ''evidence root must be object'' (as_object v)) (\<lambda>obj.
     and_then (ok_or ''evidence.quote_b64 missing'' (Option.bind (map_of obj ''quote_b64'') as_str)) (\<lambda>q.
     and_then (ok_or ''quote_b64 base64'' (b64_decode X q)) (\<lambda>quote.
     and_then (ok_or ''get_collateral'' (collateral url quote)) (\<lambda>c.
     Inr (print_json X (JObj (obj_insert ''now_secs'' (JNum now)
       (obj_insert ''collateral_b64'' (JStr (b64_encode X (print_json X c))) obj)))))))))"

section \<open>The handler\<close>

datatype wasm_ref = WasmComponent "byte list" | WasmComponentId string

record verify_request =
  rq_tee_type :: int
  rq_nonce :: "byte list"
  rq_evidence :: "byte list"
  rq_wasm :: "wasm_ref option"

record ('c, 'ta, 'rv, 'ev, 'w, 'r, 'ca, 'cs) world =
  w_externals :: externals
  w_compile :: "byte list \<Rightarrow> 'c option"
  w_run :: "'c \<Rightarrow> byte list \<Rightarrow> byte list option \<Rightarrow> byte list option \<Rightarrow> string option"
  w_ccatoken :: "('ta, 'rv, 'ev) ccatoken"
  w_csv :: "('w, 'r, 'ca, 'cs) csv_rs"
  w_read_file :: "string \<Rightarrow> byte list option"
  w_http_get :: "string \<Rightarrow> byte list option"
  w_collateral :: "string \<Rightarrow> byte list \<Rightarrow> json option"
  w_sign :: "ear_claims \<Rightarrow> string option"

record ('ta, 'rv) app_state =
  host :: wasm_host
  cca_policy :: cca_policy
  tdx_policy :: tdx_policy
  cca_verifier :: "('ta, 'rv) cca_verifier option"
  csv_verifier :: "csv_policy option"

record call_draw =
  d_uuid :: string
  d_saved :: bool
  d_fetched_at :: int
  d_iat :: int
  d_exp_base :: int

definition invalid :: "string \<Rightarrow> failure + 'a \<Rightarrow> status + 'a" where
  "invalid msg m = (case m of Inl _ \<Rightarrow> Inl (Invalid_argument msg) | Inr x \<Rightarrow> Inr x)"

definition internal :: "string \<Rightarrow> failure + 'a \<Rightarrow> status + 'a" where
  "internal msg m = (case m of Inl _ \<Rightarrow> Inl (Internal msg) | Inr x \<Rightarrow> Inr x)"

definition check_request :: "verify_request \<Rightarrow> status + tee_type" where
  "check_request req =
     and_then (invalid ''invalid tee_type'' (ok_or ''tee_type'' (tee_of_i32 (rq_tee_type req)))) (\<lambda>tee.
     and_then (invalid ''tee_type unspecified'' (bail_unless (tee \<noteq> Unspecified) '''')) (\<lambda>_.
     and_then (invalid ''nonce required'' (bail_unless (rq_nonce req \<noteq> []) '''')) (\<lambda>_.
     Inr tee)))"

text \<open>Step 1.\<close>

definition resolve_component where
  "resolve_component W st d req reg =
     (case rq_wasm req of
        Some (WasmComponent b) \<Rightarrow>
          (case register (w_externals W) (w_compile W) (host st) (d_uuid d) (d_saved d) b reg of
             (reg', cid) \<Rightarrow> (reg', invalid ''component rejected'' cid))
      | Some (WasmComponentId cid) \<Rightarrow> (reg, Inr cid)
      | None \<Rightarrow> (reg, Inl (Invalid_argument ''wasm required'')))"

text \<open>Step 2: the evidence given to the component, and the platform lifecycle of a CCA token.\<close>

definition cca_evidence where
  "cca_evidence W st nonce evidence =
     (let X = w_externals W in
      and_then (invalid ''evidence json'' (ok_or '''' (from_slice X evidence))) (\<lambda>ev.
      case cca_verifier st of
        None \<Rightarrow> Inr (print_json X ev, None)
      | Some v \<Rightarrow>
          and_then (invalid ''extract cca token'' (extract_b64_field X evidence ''cca_token_b64'')) (\<lambda>token.
          and_then (invalid ''cca verify failed'' (cca_verify X (w_ccatoken W) v token (resize 64 nonce))) (\<lambda>result.
          and_then (invalid ''evidence root must be object'' (ok_or '''' (as_object ev))) (\<lambda>obj.
          Inr (print_json X (JObj (inject_cca_claims result obj)), cca_platform_lifecycle result))))))"

definition csv_evidence where
  "csv_evidence W st nonce evidence =
     (let X = w_externals W in
      and_then (invalid ''evidence json'' (ok_or '''' (from_slice X evidence))) (\<lambda>ev.
      case csv_verifier st of
        None \<Rightarrow> Inr (print_json X ev)
      | Some policy \<Rightarrow>
          and_then (invalid ''extract csv evidence'' (extract_b64_field X evidence ''csv_evidence_b64'')) (\<lambda>inner.
          and_then (invalid ''csv verify failed''
            (csv_verify X (w_csv W) (w_read_file W) (w_http_get W) policy inner nonce)) (\<lambda>result.
          and_then (invalid ''evidence root must be object'' (ok_or '''' (as_object ev))) (\<lambda>obj.
          Inr (print_json X (JObj (inject_csv_claims result obj))))))))"

definition itrustee_evidence where
  "itrustee_evidence X evidence =
     and_then (invalid ''evidence json'' (ok_or '''' (from_slice X evidence))) (\<lambda>ev.
     case itrustee_extract_claims X evidence of
       Inl _ \<Rightarrow> Inr (print_json X ev)
     | Inr result \<Rightarrow>
         and_then (invalid ''evidence root must be object'' (ok_or '''' (as_object ev))) (\<lambda>obj.
         Inr (print_json X (JObj (inject_itrustee_claims result obj)))))"

definition virtcca_evidence where
  "virtcca_evidence X evidence =
     and_then (invalid ''evidence json'' (ok_or '''' (from_slice X evidence))) (\<lambda>ev.
     case virtcca_extract_claims X evidence of
       Inl _ \<Rightarrow> Inr (print_json X ev)
     | Inr result \<Rightarrow>
         and_then (invalid ''evidence root must be object'' (ok_or '''' (as_object ev))) (\<lambda>obj.
         Inr (print_json X (JObj (inject_virtcca_claims result obj)))))"

definition evidence_for_wasm where
  "evidence_for_wasm W st d tee nonce evidence =
     (let X = w_externals W;
          plain = (\<lambda>m. and_then m (\<lambda>b. Inr (b, None :: string option))) in
      if tee \<in> {Cca, CcaHydra} then cca_evidence W st nonce evidence
      else if tee \<in> {Csv, CsvHydra} then plain (csv_evidence W st nonce evidence)
      else if tee \<in> {Itrustee, ItrusteeHydra} then plain (itrustee_evidence X evidence)
      else if tee \<in> {Virtcca, VirtccaHydra} then plain (virtcca_evidence X evidence)
      else if tee \<in> {Tdx, TdxHydra} then
        plain (internal ''fetch collateral''
          (inject_tdx_collateral X (w_collateral W) (d_fetched_at d) evidence (pccs_url (tdx_policy st))))
      else Inr (evidence, None))"

text \<open>Step 3: only the first configured value reaches a TDX component.\<close>

definition expected_init where
  "expected_init W st tee =
     (if tee \<in> {Tdx, TdxHydra} then
        (case trusted_mr_config_id_hex (tdx_policy st) of
           [] \<Rightarrow> None
         | s # _ \<Rightarrow> hex_decode (w_externals W) s)
      else None)"

text \<open>Step 4.\<close>

definition enforce_policy where
  "enforce_policy st tee claims =
     and_then (invalid ''tee_type mismatch'' (bail_unless
       ((case get_str ''tee_type'' claims of Some s \<Rightarrow> s | None \<Rightarrow> ''unknown'') = tee_type_str tee) '''')) (\<lambda>_.
     if tee \<in> {Cca, CcaHydra} then invalid ''cca policy'' (enforce_cca_policy (cca_policy st) claims)
     else if tee \<in> {Tdx, TdxHydra} then invalid ''tdx'' (enforce_tdx_policy (tdx_policy st) claims)
     else Inr ())"

text \<open>Step 5.\<close>

definition issue_ear where
  "issue_ear W d tee nonce lifecycle cid claims =
     \<lparr>ear_iss = ''unified-attestation-verifier'',
      ear_iat = d_iat d,
      ear_exp = Some (d_exp_base d + 3600),
      eat_nonce = b64url_encode (w_externals W) nonce,
      ear_tee_type = tee_type_str tee,
      ear_component_id = cid,
      submods = claims,
      ear_trust_vector = trust_vector_for tee
        (case get_bool ''nonce_bound'' claims of Some b \<Rightarrow> b | None \<Rightarrow> False) lifecycle
        (get_str ''tcb_status'' claims),
      verifier_id = (''unified-attestation'', None),
      eat_profile = Some ''tag:github.com,2024:unified-attestation''\<rparr>"

definition verify where
  "verify W st d req reg =
     (case check_request req of
        Inl s \<Rightarrow> (reg, Inl s)
      | Inr tee \<Rightarrow>
          (case resolve_component W st d req reg of
             (reg', Inl s) \<Rightarrow> (reg', Inl s)
           | (reg', Inr cid) \<Rightarrow>
               (reg',
                and_then (evidence_for_wasm W st d tee (rq_nonce req) (rq_evidence req)) (\<lambda>(evidence, lifecycle).
                and_then (invalid ''evidence rejected'' (evaluate (w_externals W) (w_run W) reg' cid evidence
                  (Some (rq_nonce req)) (expected_init W st tee))) (\<lambda>(cid', claims).
                and_then (enforce_policy st tee claims) (\<lambda>_.
                and_then (internal ''encode JWT'' (ok_or ''''
                  (w_sign W (issue_ear W d tee (rq_nonce req) lifecycle cid' claims)))) (\<lambda>ear.
                Inr (ear, cid'))))))))"

section \<open>Inversion rules\<close>

lemma invalid_simps [simp]:
  "invalid msg (Inl e) = Inl (Invalid_argument msg)"
  "invalid msg (Inr x) = Inr x"
  "internal msg (Inl e) = Inl (Internal msg)"
  "internal msg (Inr x) = Inr x"
  by (simp_all add: invalid_def internal_def)

lemma invalid_Inr_iff [simp]:
  "invalid msg m = Inr x \<longleftrightarrow> m = Inr x"
  "internal msg m = Inr x \<longleftrightarrow> m = Inr x"
  by (cases m; simp)+

lemma check_request_ok:
  "check_request req = Inr tee \<longleftrightarrow>
     tee_of_i32 (rq_tee_type req) = Some tee \<and> tee \<noteq> Unspecified \<and> rq_nonce req \<noteq> []"
  by (auto simp: check_request_def and_then_Inr_iff)

end
