(* ===== verification/Attestation.thy ===== *)
theory Attestation
  imports Grpc
begin

text \<open>
  The two ends of a remote attestation: the attester's gRPC service, \<^verbatim>\<open>attester/src/main.rs\<close> with
  the evidence it builds (\<^verbatim>\<open>evidence.rs\<close>), and the relying party's run, \<^verbatim>\<open>relying-party/src/main.rs\<close>.

  \<^item> A gRPC connection is a function from a request to a status or a response; connecting to an
    address gives one, or fails. In a run the attester and the relying party call it at most once.
  \<^item> The record \<open>attester_world\<close> is what the attester reaches: the HTTP interface of the attestation
    agent and the verifiers. The record \<open>party_world\<close> is what the relying party reaches: the files,
    the attesters, the verifiers, and the crate \<^verbatim>\<open>jsonwebtoken\<close>.
  \<^item> Random numbers and clocks are drawn before a call: \<open>attester_draw\<close> and \<open>party_draw\<close>.
\<close>

section \<open>Names of the TEE types\<close>

definition tee_names :: "(string \<times> tee_type) list" where
  "tee_names = [(''mock'', Mock), (''cca'', Cca), (''cca-hydra'', CcaHydra), (''csv'', Csv),
     (''csv-hydra'', CsvHydra), (''tdx'', Tdx), (''tdx-hydra'', TdxHydra), (''itrustee'', Itrustee),
     (''itrustee-hydra'', ItrusteeHydra), (''virtcca'', Virtcca), (''virtcca-hydra'', VirtccaHydra)]"

definition parse_tee_type :: "string \<Rightarrow> tee_type res" where
  "parse_tee_type s = ok_or ''unknown tee_type'' (map_of tee_names s)"

definition party_tee_type :: "string \<Rightarrow> tee_type res" where
  "party_tee_type s = ok_or ''invalid tee_type'' (map_of tee_names s)"

text \<open>\<open>tee_type as i32\<close>.\<close>

fun i32_of_tee :: "tee_type \<Rightarrow> int" where
  "i32_of_tee Unspecified = 0"
| "i32_of_tee Mock = 1"
| "i32_of_tee Cca = 2"
| "i32_of_tee CcaHydra = 3"
| "i32_of_tee Tdx = 4"
| "i32_of_tee TdxHydra = 5"
| "i32_of_tee Csv = 6"
| "i32_of_tee CsvHydra = 7"
| "i32_of_tee Itrustee = 8"
| "i32_of_tee Virtcca = 9"
| "i32_of_tee ItrusteeHydra = 10"
| "i32_of_tee VirtccaHydra = 11"

lemma tee_of_i32_of_tee [simp]: "tee_of_i32 (i32_of_tee t) = Some t"
  by (cases t) (simp_all add: tee_of_i32_def)

lemma tee_of_i32_eq: "tee_of_i32 n = Some t \<Longrightarrow> n = i32_of_tee t"
proof -
  assume t: "tee_of_i32 n = Some t"
  then have "n \<in> {0..<12}" by (simp add: tee_of_i32_def split: if_splits)
  then have "n \<in> {0, 1, 2, 3, 4, 5, 6, 7, 8, 9, 10, 11}"
    by (simp add: atLeastLessThan_iff) presburger
  with t show "n = i32_of_tee t" by (auto simp: tee_of_i32_def)
qed

section \<open>Evidence\<close>

definition fetch_aa_evidence :: "externals \<Rightarrow> (string \<Rightarrow> byte list option) \<Rightarrow> string \<Rightarrow> string \<Rightarrow> byte list res" where
  "fetch_aa_evidence X http nonce_b64 aa_endpoint =
     and_then (ok_or ''decode challenge nonce'' (b64url_decode X nonce_b64)) (\<lambda>nonce_raw.
     ok_or ''GET'' (http (aa_endpoint @ ''/aa/evidence?runtime_data='' @ b64_encode X nonce_raw)))"

definition build_cca_part where
  "build_cca_part X http nonce_b64 aa_endpoint =
     and_then (fetch_aa_evidence X http nonce_b64 aa_endpoint) (\<lambda>cca_token.
     Inr (jobj [(''cca_token_b64'', JStr (b64_encode X cca_token)), (''nonce'', JStr nonce_b64)]))"

definition build_csv_part where
  "build_csv_part X http nonce_b64 aa_endpoint =
     and_then (fetch_aa_evidence X http nonce_b64 aa_endpoint) (\<lambda>csv_evidence.
     Inr (jobj [(''csv_evidence_b64'', JStr (b64_encode X csv_evidence)), (''nonce'', JStr nonce_b64)]))"

definition build_tdx_part where
  "build_tdx_part X http nonce_b64 aa_endpoint =
     and_then (fetch_aa_evidence X http nonce_b64 aa_endpoint) (\<lambda>quote_bytes.
     Inr (jobj [(''quote_b64'', JStr (b64_encode X quote_bytes))]))"

text \<open>The agent's own JSON, with the nonce put in when it is an object.\<close>

definition with_nonce :: "string \<Rightarrow> json \<Rightarrow> json" where
  "with_nonce nonce_b64 v =
     (case as_object v of Some obj \<Rightarrow> JObj (obj_insert ''nonce'' (JStr nonce_b64) obj) | None \<Rightarrow> v)"

definition build_itrustee_part where
  "build_itrustee_part X http nonce_b64 aa_endpoint =
     and_then (fetch_aa_evidence X http nonce_b64 aa_endpoint) (\<lambda>evidence_bytes.
     and_then (ok_or ''parse itrustee AA evidence'' (from_slice X evidence_bytes)) (\<lambda>evidence.
     Inr (with_nonce nonce_b64 evidence)))"

definition build_virtcca_part where
  "build_virtcca_part X http nonce_b64 aa_endpoint =
     and_then (fetch_aa_evidence X http nonce_b64 aa_endpoint) (\<lambda>evidence_bytes.
     and_then (ok_or ''parse virtcca AA evidence'' (from_slice X evidence_bytes)) (\<lambda>evidence.
     Inr (with_nonce nonce_b64 evidence)))"

definition mock_part :: "string \<Rightarrow> int \<Rightarrow> json" where
  "mock_part nonce_b64 now =
     jobj [(''payload'', jobj [(''device_id'', JStr ''mock-device-001''), (''challenge_b64'', JStr nonce_b64),
         (''note'', JStr ''stage-1 mock evidence'')]),
       (''issued_at'', JNum now)]"

definition build_evidence ::
  "externals \<Rightarrow> (string \<Rightarrow> byte list option) \<Rightarrow> int \<Rightarrow> tee_type \<Rightarrow> byte list \<Rightarrow> string \<Rightarrow> byte list res" where
  "build_evidence X http now tee nonce_bytes aa_endpoint =
     (let nonce_b64 = b64url_encode X nonce_bytes;
          to_vec = (\<lambda>m. and_then m (\<lambda>v. Inr (print_json X v))) in
      if tee = Mock then to_vec (Inr (mock_part nonce_b64 now))
      else if tee \<in> {Cca, CcaHydra} then to_vec (build_cca_part X http nonce_b64 aa_endpoint)
      else if tee \<in> {Csv, CsvHydra} then to_vec (build_csv_part X http nonce_b64 aa_endpoint)
      else if tee \<in> {Tdx, TdxHydra} then to_vec (build_tdx_part X http nonce_b64 aa_endpoint)
      else if tee \<in> {Itrustee, ItrusteeHydra} then to_vec (build_itrustee_part X http nonce_b64 aa_endpoint)
      else if tee \<in> {Virtcca, VirtccaHydra} then to_vec (build_virtcca_part X http nonce_b64 aa_endpoint)
      else Inl (Err ''tee_type unspecified''))"

section \<open>The attester's service\<close>

datatype attestation_mode = BackgroundCheck | Passport

fun mode_of_i32 :: "int \<Rightarrow> attestation_mode option" where
  "mode_of_i32 n = (if n = 0 then Some BackgroundCheck else if n = 1 then Some Passport else None)"

record evidence_request =
  gq_tee_type :: int
  gq_nonce :: "byte list"
  gq_mode :: int

record evidence_response =
  gr_evidence :: "byte list"
  gr_wasm_component :: "byte list"
  gr_generated_nonce :: "byte list"
  gr_ear :: string

type_synonym ('q, 'r) connection = "'q \<Rightarrow> status + 'r"

type_synonym verifier_connection = "(verify_request, string \<times> string) connection"

record attester_config =
  at_tee_type :: tee_type
  at_aa_endpoint :: string
  at_verifier_endpoint :: "string option"
  at_wasm_bytes :: "byte list"

record attester_world =
  at_http :: "string \<Rightarrow> byte list option"
  at_connect :: "string \<Rightarrow> verifier_connection option"

record attester_draw =
  ad_nonce :: "byte list"
  ad_now :: int

text \<open>The nonce the evidence is bound to, and the one the response reports.\<close>

definition effective_nonce ::
  "attestation_mode \<Rightarrow> byte list \<Rightarrow> byte list \<Rightarrow> status + byte list \<times> byte list" where
  "effective_nonce mode buf nonce =
     (if mode = Passport \<and> nonce = [] then Inr (buf, buf)
      else if nonce = [] then Inl (Invalid_argument ''nonce required for background-check mode'')
      else Inr (nonce, []))"

definition get_evidence ::
  "externals \<Rightarrow> attester_world \<Rightarrow> attester_config \<Rightarrow> attester_draw \<Rightarrow> evidence_request
   \<Rightarrow> status + evidence_response" where
  "get_evidence X A cfg d req =
     and_then (invalid ''invalid tee_type'' (ok_or '''' (tee_of_i32 (gq_tee_type req)))) (\<lambda>tee.
     and_then (invalid ''tee_type mismatch'' (bail_unless (tee = at_tee_type cfg) '''')) (\<lambda>_.
     let mode = (case mode_of_i32 (gq_mode req) of Some m \<Rightarrow> m | None \<Rightarrow> BackgroundCheck) in
     and_then (effective_nonce mode (ad_nonce d) (gq_nonce req)) (\<lambda>(nonce, generated).
     and_then (internal ''build evidence failed''
       (build_evidence X (at_http A) (ad_now d) (at_tee_type cfg) nonce (at_aa_endpoint cfg))) (\<lambda>evidence.
     if mode = Passport then
       and_then (internal ''verifier_endpoint must be configured for passport mode''
         (ok_or '''' (at_verifier_endpoint cfg))) (\<lambda>ep.
       and_then (internal ''connect verifier'' (ok_or '''' (at_connect A (''http://'' @ ep)))) (\<lambda>call.
       case call \<lparr>rq_tee_type = i32_of_tee (at_tee_type cfg), rq_nonce = nonce, rq_evidence = evidence,
                  rq_wasm = Some (WasmComponent (at_wasm_bytes cfg))\<rparr> of
         Inl _ \<Rightarrow> Inl (Internal ''verifier Verify'')
       | Inr (ear, _) \<Rightarrow>
           Inr \<lparr>gr_evidence = [], gr_wasm_component = [], gr_generated_nonce = generated, gr_ear = ear\<rparr>))
     else
       Inr \<lparr>gr_evidence = evidence, gr_wasm_component = at_wasm_bytes cfg,
            gr_generated_nonce = generated, gr_ear = []\<rparr>))))"

section \<open>The result in the token\<close>

text \<open>\<open>EarClaims\<close> as it is serialized: the options that are absent are left out.\<close>

definition verifier_id_json :: "string \<times> string option \<Rightarrow> json" where
  "verifier_id_json v =
     JObj (insert_some ''build'' (str_of (snd v)) [(''developer'', JStr (fst v))])"

definition trust_vector_json :: "trust_vector \<Rightarrow> json" where
  "trust_vector_json t =
     jobj [(''instance_identity'', JNum (instance_identity t)), (''configuration'', JNum (configuration t)),
       (''executables'', JNum (executables t))]"

definition ear_members :: "ear_claims \<Rightarrow> (string \<times> json) list" where
  "ear_members c =
     [(''iss'', JStr (ear_iss c)), (''iat'', JNum (ear_iat c)), (''eat_nonce'', JStr (eat_nonce c)),
      (''tee_type'', JStr (ear_tee_type c)), (''component_id'', JStr (ear_component_id c)),
      (''submods'', submods c), (''trust_vector'', trust_vector_json (ear_trust_vector c)),
      (''verifier_id'', verifier_id_json (verifier_id c))]"

definition ear_json :: "ear_claims \<Rightarrow> json" where
  "ear_json c =
     (case jobj (ear_members c) of
        JObj m \<Rightarrow> JObj (insert_some ''exp'' (map_option JNum (ear_exp c))
          (insert_some ''eat_profile'' (str_of (eat_profile c)) m))
      | v \<Rightarrow> v)"

section \<open>The relying party's run\<close>

record party_cli =
  cl_attester :: "string option"
  cl_verifier :: "string option"
  cl_tee_type :: "tee_type option"
  cl_pubkey :: "string option"
  cl_mode :: string
  cl_ear_out :: "string option"

record 'k party_world =
  pw_read :: "string \<Rightarrow> byte list option"
  pw_key :: "byte list \<Rightarrow> 'k option"
  pw_attester :: "string \<Rightarrow> (evidence_request, evidence_response) connection option"
  pw_verifier :: "string \<Rightarrow> verifier_connection option"
  pw_writable :: "string \<Rightarrow> bool"
  pw_jwt_decode :: "'k \<Rightarrow> string \<Rightarrow> json option"

record party_draw =
  pd_nonce :: "byte list"
  pd_now :: int

definition call :: "string \<Rightarrow> ('q, 'r) connection \<Rightarrow> 'q \<Rightarrow> 'r res" where
  "call msg c q = (case c q of Inl _ \<Rightarrow> Inl (Err msg) | Inr r \<Rightarrow> Inr r)"

definition is_passport :: "party_cli \<Rightarrow> bool" where
  "is_passport cli \<longleftrightarrow> cl_mode cli = ''passport''"

text \<open>Up to the result: the key, the text of the result, and the nonce it has to carry.\<close>

definition obtain_ear where
  "obtain_ear X P d cli =
     and_then (ok_or ''--attester required'' (cl_attester cli)) (\<lambda>attester.
     and_then (ok_or ''--verifier required'' (cl_verifier cli)) (\<lambda>verifier.
     and_then (ok_or ''--tee-type required'' (cl_tee_type cli)) (\<lambda>tee.
     and_then (ok_or ''--pubkey required'' (cl_pubkey cli)) (\<lambda>pubkey.
     and_then (ok_or ''read pubkey'' (pw_read P pubkey)) (\<lambda>pem.
     and_then (ok_or ''parse pubkey as EC PEM'' (pw_key P pem)) (\<lambda>key.
     let request_nonce = (if is_passport cli then [] else pd_nonce d) in
     and_then (ok_or ''connect attester'' (pw_attester P attester)) (\<lambda>att.
     and_then (call ''attester GetEvidence'' att
       \<lparr>gq_tee_type = i32_of_tee tee, gq_nonce = request_nonce, gq_mode = (if is_passport cli then 1 else 0)\<rparr>)
       (\<lambda>evidence.
     if is_passport cli then
       and_then (bail_unless (gr_ear evidence \<noteq> [])
         ''passport mode requires verifier_endpoint configured on attester'') (\<lambda>_.
       Inr (key, gr_ear evidence, b64url_encode X (gr_generated_nonce evidence)))
     else
       and_then (ok_or ''connect verifier'' (pw_verifier P verifier)) (\<lambda>ver.
       and_then (call ''verifier Verify'' ver
         \<lparr>rq_tee_type = i32_of_tee tee, rq_nonce = request_nonce, rq_evidence = gr_evidence evidence,
          rq_wasm = Some (WasmComponent (gr_wasm_component evidence))\<rparr>) (\<lambda>(ear, _).
       Inr (key, ear, b64url_encode X request_nonce)))))))))))"

definition get_i64 :: "string \<Rightarrow> json \<Rightarrow> int" where
  "get_i64 k v = (case Option.bind (json_get k v) as_i64 of Some n \<Rightarrow> n | None \<Rightarrow> 0)"

text \<open>\<open>now - iat\<close> on \<^verbatim>\<open>i64\<close>, as a release build computes it.\<close>

definition i64_diff :: "int \<Rightarrow> int \<Rightarrow> int" where
  "i64_diff a b = sint (word_of_int a - word_of_int b :: 64 word)"

definition check_ear :: "bool \<Rightarrow> int \<Rightarrow> string \<Rightarrow> json \<Rightarrow> unit res" where
  "check_ear passport now nonce_b64 claims =
     and_then
       (if passport then bail_unless (\<not> 300 < i64_diff now (get_i64 ''iat'' claims)) ''EAR expired''
        else and_then (ok_or ''missing eat_nonce'' (get_str ''eat_nonce'' claims)) (\<lambda>n.
          bail_unless (n = nonce_b64) ''eat_nonce mismatch'')) (\<lambda>_.
     and_then (ok_or ''missing trust_vector'' (json_get ''trust_vector'' claims)) (\<lambda>tv.
     bail_unless (\<not> get_i64 ''executables'' tv < 2) ''EAR not affirming''))"

text \<open>What is left in the file of \<open>--ear-out\<close>, and the claims printed before \<open>ACCEPTED\<close>.\<close>

definition attest where
  "attest X P d cli =
     (case obtain_ear X P d cli of
        Inl e \<Rightarrow> (None, Inl e)
      | Inr (key, ear, nonce_b64) \<Rightarrow>
          (if cl_ear_out cli \<noteq> None \<and> \<not> pw_writable P (the (cl_ear_out cli)) then (None, Inl (Err ''write''))
           else
             (map_option (\<lambda>path. (path, ear)) (cl_ear_out cli),
              and_then (ok_or ''decode/verify EAR'' (pw_jwt_decode P key (trim ear))) (\<lambda>claims.
              and_then (check_ear (is_passport cli) (pd_now d) nonce_b64 claims) (\<lambda>_.
              Inr claims)))))"

end
