(* ===== verification/Appraisers.thy ===== *)
theory Appraisers
  imports Json
begin

text \<open>
  The wasm components that appraise evidence: \<^verbatim>\<open>appraisers/*/src/lib.rs\<close>. Each \<open>evaluate_impl\<close> takes
  the evidence and the report data the host expects, and returns the text of a JSON object; an
  \<open>error\<close> member tells a failure. The \<^verbatim>\<open>-hydra\<close> components are the same programs with another
  \<open>tee_type\<close>, which is the first argument here.

  \<^item> The text of an error is kept up to its formatted cause.
  \<^item> The crate \<^verbatim>\<open>dcap_qvl\<close> is the record \<open>dcap\<close>.
\<close>

definition error_claims :: "externals \<Rightarrow> string \<Rightarrow> string" where
  "error_claims X msg = to_string X (jobj [(''error'', JStr msg)])"

text \<open>The nonce of the evidence is the text of the expected report data.\<close>

definition nonce_matches :: "externals \<Rightarrow> string \<Rightarrow> byte list option \<Rightarrow> bool" where
  "nonce_matches X nonce expected =
     (case expected of Some report_data \<Rightarrow> nonce = b64url_encode X report_data | None \<Rightarrow> False)"

definition verdict :: "bool \<Rightarrow> json" where
  "verdict ok = JStr (if ok then ''passed'' else ''failed'')"

definition passthrough :: "json \<Rightarrow> string \<Rightarrow> (string \<times> json) list \<Rightarrow> (string \<times> json) list" where
  "passthrough ev key claims = insert_some key (json_get key ev) claims"

definition full_evidence :: "externals \<Rightarrow> byte list \<Rightarrow> json" where
  "full_evidence X evidence = (case from_slice X evidence of Some v \<Rightarrow> v | None \<Rightarrow> JNull)"

section \<open>Mock\<close>

definition mock_evidence_of :: "json \<Rightarrow> (json \<times> int) option" where
  "mock_evidence_of v =
     Option.bind (struct_of [''payload'', ''issued_at''] v) (\<lambda>f.
     Option.bind (case f ''issued_at'' of None \<Rightarrow> Some 0 | Some n \<Rightarrow> as_i64 n) (\<lambda>at.
     Some (case f ''payload'' of None \<Rightarrow> JNull | Some p \<Rightarrow> to_value p, at)))"

definition mock_evaluate :: "externals \<Rightarrow> byte list \<Rightarrow> byte list option \<Rightarrow> string" where
  "mock_evaluate X evidence expected =
     (case Option.bind (parse_json X evidence) mock_evidence_of of
        None \<Rightarrow> error_claims X ''invalid evidence json''
      | Some (payload, issued_at) \<Rightarrow>
          to_string X (jobj [(''tee_type'', JStr ''mock''), (''verification'', JStr ''passed''),
            (''payload'', payload),
            (''challenge_binding_data'',
              JStr (case expected of Some b \<Rightarrow> b64_encode X b | None \<Rightarrow> '''')),
            (''issued_at'', JNum issued_at)]))"

section \<open>Arm CCA\<close>

definition cca_keys :: "string list" where
  "cca_keys = [''cca_realm_initial_measurement'', ''cca_realm_personalization_value'',
     ''cca_platform_instance_id'', ''cca_platform_implementation_id'', ''cca_platform_lifecycle'',
     ''cca_platform_sw_components'']"

definition cca_evidence_of :: "json \<Rightarrow> (string \<times> string) option" where
  "cca_evidence_of v =
     Option.bind (struct_of [''cca_token_b64'', ''nonce''] v) (\<lambda>f.
     Option.bind (required as_str (f ''cca_token_b64'')) (\<lambda>token.
     Option.bind (required as_str (f ''nonce'')) (\<lambda>nonce. Some (token, nonce))))"

definition base_claims :: "string \<Rightarrow> bool \<Rightarrow> (string \<times> json) list \<Rightarrow> (string \<times> json) list" where
  "base_claims tag ok rest =
     foldl (\<lambda>m (k, v). obj_insert k v m) []
       ([(''tee_type'', JStr tag), (''verification'', verdict ok), (''nonce_bound'', JBool ok)] @ rest)"

definition cca_claims :: "string \<Rightarrow> bool \<Rightarrow> nat \<Rightarrow> json \<Rightarrow> json" where
  "cca_claims tag ok n full =
     JObj (fold (passthrough full) cca_keys (base_claims tag ok [(''token_size'', JNum (int n))]))"

definition cca_evaluate :: "string \<Rightarrow> externals \<Rightarrow> byte list \<Rightarrow> byte list option \<Rightarrow> string" where
  "cca_evaluate tag X evidence expected =
     (case Option.bind (parse_json X evidence) cca_evidence_of of
        None \<Rightarrow> error_claims X ''invalid evidence json''
      | Some (token_b64, nonce) \<Rightarrow>
          (case b64_decode X token_b64 of
             None \<Rightarrow> error_claims X ''cca_token base64''
           | Some cca_token \<Rightarrow>
               to_string X (cca_claims tag (nonce_matches X nonce expected) (length cca_token)
                 (full_evidence X evidence))))"

section \<open>Hygon CSV\<close>

definition csv_keys :: "string list" where
  "csv_keys = [''chip_id'', ''measurement'', ''vm_version'', ''policy_nodbg'', ''policy_noks'']"

definition csv_evidence_of :: "json \<Rightarrow> (string \<times> string) option" where
  "csv_evidence_of v =
     Option.bind (struct_of [''csv_evidence_b64'', ''nonce''] v) (\<lambda>f.
     Option.bind (required as_str (f ''csv_evidence_b64'')) (\<lambda>ev.
     Option.bind (required as_str (f ''nonce'')) (\<lambda>nonce. Some (ev, nonce))))"

definition csv_claims :: "string \<Rightarrow> bool \<Rightarrow> nat \<Rightarrow> json \<Rightarrow> json" where
  "csv_claims tag ok n full =
     JObj (fold (passthrough full) csv_keys (base_claims tag ok [(''evidence_size'', JNum (int n))]))"

definition csv_evaluate :: "string \<Rightarrow> externals \<Rightarrow> byte list \<Rightarrow> byte list option \<Rightarrow> string" where
  "csv_evaluate tag X evidence expected =
     (case Option.bind (parse_json X evidence) csv_evidence_of of
        None \<Rightarrow> error_claims X ''invalid evidence json''
      | Some (b64, nonce) \<Rightarrow>
          (case b64_decode X b64 of
             None \<Rightarrow> error_claims X ''csv_evidence base64''
           | Some inner \<Rightarrow>
               to_string X (csv_claims tag (nonce_matches X nonce expected) (length inner)
                 (full_evidence X evidence))))"

section \<open>iTrustee\<close>

record itrustee_evidence_json =
  ij_report :: string
  ij_nonce :: string
  ij_ima_log :: "byte list option"
  ij_uuid :: "string option"
  ij_ta_img :: "string option"
  ij_ta_mem :: "string option"
  ij_hash_alg :: "string option"
  ij_version :: "string option"

definition itrustee_evidence_of :: "json \<Rightarrow> itrustee_evidence_json option" where
  "itrustee_evidence_of v =
     Option.bind (struct_of [''report'', ''nonce'', ''ima_log'', ''itrustee_uuid'', ''itrustee_ta_img'',
       ''itrustee_ta_mem'', ''itrustee_hash_alg'', ''itrustee_version''] v) (\<lambda>f.
     Option.bind (required as_str (f ''report'')) (\<lambda>report.
     Option.bind (required as_str (f ''nonce'')) (\<lambda>nonce.
     Option.bind (optional as_bytes (f ''ima_log'')) (\<lambda>ima.
     Option.bind (optional as_str (f ''itrustee_uuid'')) (\<lambda>uuid.
     Option.bind (optional as_str (f ''itrustee_ta_img'')) (\<lambda>img.
     Option.bind (optional as_str (f ''itrustee_ta_mem'')) (\<lambda>mem.
     Option.bind (optional as_str (f ''itrustee_hash_alg'')) (\<lambda>alg.
     Option.bind (optional as_str (f ''itrustee_version'')) (\<lambda>ver.
     Some \<lparr>ij_report = report, ij_nonce = nonce, ij_ima_log = ima, ij_uuid = uuid, ij_ta_img = img,
           ij_ta_mem = mem, ij_hash_alg = alg, ij_version = ver\<rparr>)))))))))"

definition opt_str :: "string option \<Rightarrow> json option" where
  "opt_str s = map_option JStr s"

definition itrustee_fields ::
  "externals \<Rightarrow> itrustee_evidence_json \<Rightarrow> string \<times> string option \<times> string option \<times> string option \<times> string option" where
  "itrustee_fields X p =
     (case ij_uuid p of
        Some u \<Rightarrow> (u, ij_ta_img p, ij_ta_mem p, ij_hash_alg p, ij_version p)
      | None \<Rightarrow>
          (let report = (case from_slice X (bytes_of (ij_report p)) of Some v \<Rightarrow> v | None \<Rightarrow> JNull);
               pick = (\<lambda>k. Option.bind (json_get ''payload'' report) (get_str k)) in
           (case pick ''uuid'' of Some u \<Rightarrow> u | None \<Rightarrow> '''', pick ''ta_img'', pick ''ta_mem'',
            pick ''hash_alg'', pick ''version'')))"

definition itrustee_claims :: "string \<Rightarrow> externals \<Rightarrow> bool \<Rightarrow> itrustee_evidence_json \<Rightarrow> json" where
  "itrustee_claims tag X ok p =
     (case itrustee_fields X p of (uuid, img, mem, alg, ver) \<Rightarrow>
        JObj (insert_some ''ima_log_size'' (map_option (\<lambda>b. JNum (int (length b))) (ij_ima_log p))
          (insert_some ''version'' (opt_str ver)
          (insert_some ''hash_alg'' (opt_str alg)
          (insert_some ''ta_mem'' (opt_str mem)
          (insert_some ''ta_img'' (opt_str img)
            (base_claims tag ok [(''uuid'', JStr uuid)])))))))"

definition itrustee_evaluate :: "string \<Rightarrow> externals \<Rightarrow> byte list \<Rightarrow> byte list option \<Rightarrow> string" where
  "itrustee_evaluate tag X evidence expected =
     (case Option.bind (parse_json X evidence) itrustee_evidence_of of
        None \<Rightarrow> error_claims X ''invalid evidence json''
      | Some p \<Rightarrow> to_string X (itrustee_claims tag X (nonce_matches X (ij_nonce p) expected) p))"

section \<open>VirtCCA\<close>

record virtcca_evidence_json =
  vj_evidence :: "byte list"
  vj_dev_cert :: "byte list"
  vj_nonce :: string
  vj_ima_log :: "byte list option"
  vj_event_log :: "byte list option"
  vj_rim :: "string option"
  vj_rpv :: "string option"
  vj_challenge :: "string option"
  vj_is_platform :: "bool option"
  vj_platform_sw_components :: "json option"

definition virtcca_evidence_of :: "json \<Rightarrow> virtcca_evidence_json option" where
  "virtcca_evidence_of v =
     Option.bind (struct_of [''evidence'', ''dev_cert'', ''nonce'', ''ima_log'', ''event_log'', ''virtcca_rim'',
       ''virtcca_rpv'', ''virtcca_challenge'', ''virtcca_is_platform'', ''virtcca_platform_sw_components''] v) (\<lambda>f.
     Option.bind (required as_bytes (f ''evidence'')) (\<lambda>ev.
     Option.bind (required as_bytes (f ''dev_cert'')) (\<lambda>cert.
     Option.bind (required as_str (f ''nonce'')) (\<lambda>nonce.
     Option.bind (optional as_bytes (f ''ima_log'')) (\<lambda>ima.
     Option.bind (optional as_bytes (f ''event_log'')) (\<lambda>elog.
     Option.bind (optional as_str (f ''virtcca_rim'')) (\<lambda>rim.
     Option.bind (optional as_str (f ''virtcca_rpv'')) (\<lambda>rpv.
     Option.bind (optional as_str (f ''virtcca_challenge'')) (\<lambda>chal.
     Option.bind (optional as_bool (f ''virtcca_is_platform'')) (\<lambda>plat.
     Option.bind (optional (\<lambda>w. Some (to_value w)) (f ''virtcca_platform_sw_components'')) (\<lambda>sw.
     Some \<lparr>vj_evidence = ev, vj_dev_cert = cert, vj_nonce = nonce, vj_ima_log = ima, vj_event_log = elog,
           vj_rim = rim, vj_rpv = rpv, vj_challenge = chal, vj_is_platform = plat,
           vj_platform_sw_components = sw\<rparr>)))))))))))"

definition virtcca_claims :: "string \<Rightarrow> bool \<Rightarrow> virtcca_evidence_json \<Rightarrow> json" where
  "virtcca_claims tag ok p =
     JObj (insert_some ''event_log_size'' (map_option (\<lambda>b. JNum (int (length b))) (vj_event_log p))
       (insert_some ''ima_log_size'' (map_option (\<lambda>b. JNum (int (length b))) (vj_ima_log p))
       (insert_some ''platform_sw_components'' (vj_platform_sw_components p)
       (insert_some ''is_platform'' (map_option JBool (vj_is_platform p))
       (insert_some ''challenge_hex'' (opt_str (vj_challenge p))
       (insert_some ''rpv'' (opt_str (vj_rpv p))
       (insert_some ''rim'' (opt_str (vj_rim p))
         (base_claims tag ok [(''token_size'', JNum (int (length (vj_evidence p)))),
            (''cert_size'', JNum (int (length (vj_dev_cert p))))]))))))))"

definition virtcca_evaluate :: "string \<Rightarrow> externals \<Rightarrow> byte list \<Rightarrow> byte list option \<Rightarrow> string" where
  "virtcca_evaluate tag X evidence expected =
     (case Option.bind (parse_json X evidence) virtcca_evidence_of of
        None \<Rightarrow> error_claims X ''invalid evidence json''
      | Some p \<Rightarrow> to_string X (virtcca_claims tag (nonce_matches X (vj_nonce p) expected) p))"

section \<open>Intel TDX\<close>

record td10 =
  td_report_data :: "byte list"
  td_mr_config_id :: "byte list"
  td_mr_td :: "byte list"
  td_mr_seam :: "byte list"
  td_mr_signer_seam :: "byte list"

record ('col, 'q) dcap =
  collateral_of_json :: "json \<Rightarrow> 'col option"
  dcap_verify :: "byte list \<Rightarrow> 'col \<Rightarrow> u64 \<Rightarrow> (string \<times> string list) option"
  quote_parse :: "byte list \<Rightarrow> 'q option"
  as_td10 :: "'q \<Rightarrow> td10 option"

definition tdx_evidence_of :: "json \<Rightarrow> (string \<times> string \<times> u64) option" where
  "tdx_evidence_of v =
     Option.bind (struct_of [''quote_b64'', ''collateral_b64'', ''now_secs''] v) (\<lambda>f.
     Option.bind (required as_str (f ''quote_b64'')) (\<lambda>q.
     Option.bind (required as_str (f ''collateral_b64'')) (\<lambda>c.
     Option.bind (required as_u64 (f ''now_secs'')) (\<lambda>now. Some (q, c, now)))))"

definition tdx_error :: "string \<Rightarrow> externals \<Rightarrow> string \<Rightarrow> string" where
  "tdx_error tag X msg = to_string X (jobj [(''tee_type'', JStr tag),
     (''verification'', JStr ''failed''), (''error'', JStr msg)])"

text \<open>The two bindings: the whole report data, zeros after the nonce; a prefix of \<open>mr_config_id\<close>.\<close>

definition report_data_bound :: "byte list \<Rightarrow> byte list \<Rightarrow> bool" where
  "report_data_bound report_data expected =
     (let cmp_len = min (length expected) (length report_data) in
      take cmp_len report_data = expected \<and> (\<forall>b\<in>set (drop cmp_len report_data). b = 0))"

definition init_data_bound :: "byte list \<Rightarrow> byte list \<Rightarrow> bool" where
  "init_data_bound mr_config_id expected =
     (take (min (length expected) (length mr_config_id)) mr_config_id = expected)"

definition tdx_claims :: "string \<Rightarrow> externals \<Rightarrow> string \<Rightarrow> string list \<Rightarrow> td10 \<Rightarrow> json" where
  "tdx_claims tag X tcb advisories td = jobj [
     (''tee_type'', JStr tag),
     (''verification'', JStr ''passed''),
     (''tcb_status'', JStr tcb),
     (''advisory_ids'', JArr (map JStr advisories)),
     (''mr_td'', JStr (hex_encode X (td_mr_td td))),
     (''mr_seam'', JStr (hex_encode X (td_mr_seam td))),
     (''mr_signer_seam'', JStr (hex_encode X (td_mr_signer_seam td))),
     (''mr_config_id'', JStr (hex_encode X (td_mr_config_id td))),
     (''report_data'', JStr (hex_encode X (td_report_data td)))]"

definition tdx_appraise ::
  "externals \<Rightarrow> ('col, 'q) dcap \<Rightarrow> byte list \<Rightarrow> byte list option \<Rightarrow> byte list option
   \<Rightarrow> string + (string \<times> string list \<times> td10)" where
  "tdx_appraise X D evidence expected init_hash =
     (case Option.bind (parse_json X evidence) tdx_evidence_of of
        None \<Rightarrow> Inl ''invalid evidence json''
      | Some (q, c, now) \<Rightarrow>
     (case b64_decode X q of None \<Rightarrow> Inl ''quote'' | Some quote_bin \<Rightarrow>
     (case b64_decode X c of None \<Rightarrow> Inl ''collateral'' | Some collateral_bin \<Rightarrow>
     (case Option.bind (parse_json X collateral_bin) (collateral_of_json D) of
        None \<Rightarrow> Inl ''collateral parse''
      | Some collateral \<Rightarrow>
     (case dcap_verify D quote_bin collateral now of None \<Rightarrow> Inl ''dcap verify'' | Some (tcb, advisories) \<Rightarrow>
     (case quote_parse D quote_bin of None \<Rightarrow> Inl ''parse quote'' | Some quote \<Rightarrow>
     (case as_td10 D quote of None \<Rightarrow> Inl ''not a TDX quote'' | Some td \<Rightarrow>
      if (case expected of Some e \<Rightarrow> \<not> report_data_bound (td_report_data td) e | None \<Rightarrow> False)
      then Inl ''report_data does not match expected (challenge nonce)''
      else if (case init_hash of Some e \<Rightarrow> \<not> init_data_bound (td_mr_config_id td) e | None \<Rightarrow> False)
      then Inl ''mr_config_id does not match expected_init_data_hash''
      else Inr (tcb, advisories, td))))))))"

definition tdx_evaluate ::
  "string \<Rightarrow> externals \<Rightarrow> ('col, 'q) dcap \<Rightarrow> byte list \<Rightarrow> byte list option \<Rightarrow> byte list option \<Rightarrow> string" where
  "tdx_evaluate tag X D evidence expected init_hash =
     (case tdx_appraise X D evidence expected init_hash of
        Inl msg \<Rightarrow> tdx_error tag X msg
      | Inr (tcb, advisories, td) \<Rightarrow> to_string X (tdx_claims tag X tcb advisories td))"

section \<open>The components\<close>

definition mock_component where
  "mock_component = mock_evaluate"

definition cca_component where
  "cca_component = cca_evaluate ''cca''"

definition cca_hydra_component where
  "cca_hydra_component = cca_evaluate ''cca-hydra''"

definition csv_component where
  "csv_component = csv_evaluate ''csv''"

definition csv_hydra_component where
  "csv_hydra_component = csv_evaluate ''csv-hydra''"

definition itrustee_component where
  "itrustee_component = itrustee_evaluate ''itrustee''"

definition itrustee_hydra_component where
  "itrustee_hydra_component = itrustee_evaluate ''itrustee-hydra''"

definition virtcca_component where
  "virtcca_component = virtcca_evaluate ''virtcca''"

definition virtcca_hydra_component where
  "virtcca_hydra_component = virtcca_evaluate ''virtcca-hydra''"

definition tdx_component where
  "tdx_component X D = tdx_evaluate ''tdx'' X D"

definition tdx_hydra_component where
  "tdx_hydra_component X D = tdx_evaluate ''tdx-hydra'' X D"


lemmas component_defs = mock_component_def cca_component_def cca_hydra_component_def csv_component_def
  csv_hydra_component_def itrustee_component_def itrustee_hydra_component_def virtcca_component_def
  virtcca_hydra_component_def tdx_component_def tdx_hydra_component_def

section \<open>Claims\<close>

lemma map_of_base_claims:
  "map_of (base_claims tag ok rest) =
     [''tee_type'' \<mapsto> JStr tag, ''verification'' \<mapsto> verdict ok, ''nonce_bound'' \<mapsto> JBool ok] ++ map_of (rev rest)"
  by (auto simp: base_claims_def map_of_jobj_fold map_add_def fun_eq_iff split: option.split)

lemma map_of_passthrough:
  "map_of (passthrough full k m) j = (if j = k \<and> json_get k full \<noteq> None then json_get k full else map_of m j)"
  by (auto simp: passthrough_def split: option.split)

lemma map_of_passthroughs:
  "map_of (fold (passthrough full) ks m) j =
     (if j \<in> set ks \<and> json_get j full \<noteq> None then json_get j full else map_of m j)"
  by (induction ks arbitrary: m) (auto simp: map_of_passthrough)

lemma json_get_cca_claims:
  "json_get j (cca_claims tag ok n (JObj m)) =
     (if j \<in> set cca_keys \<and> map_of m j \<noteq> None then map_of m j
      else map_of (base_claims tag ok [(''token_size'', JNum (int n))]) j)"
  by (auto simp: cca_claims_def map_of_passthroughs)

lemma value_ok_passthrough:
  "value_ok full \<Longrightarrow> value_ok (JObj m) \<Longrightarrow> value_ok (JObj (fold (passthrough full) ks m))"
  by (induction ks arbitrary: m)
     (simp_all add: passthrough_def value_ok_insert_some value_ok_json_get del: value_ok.simps)

lemma value_ok_base_claims:
  "(\<And>p. p \<in> set rest \<Longrightarrow> value_ok (snd p)) \<Longrightarrow> value_ok (JObj (base_claims tag ok rest))"
  unfolding base_claims_def by (rule value_ok_fold) (auto simp: verdict_def)

lemma full_evidence_ok [simp]: "value_ok (full_evidence X evidence)"
  by (auto simp: full_evidence_def value_ok_from_slice split: option.split)

lemma value_ok_cca_claims: "value_ok (cca_claims tag ok n (full_evidence X evidence))"
  unfolding cca_claims_def
  by (rule value_ok_passthrough [OF full_evidence_ok], rule value_ok_base_claims) simp

lemma value_ok_csv_claims: "value_ok (csv_claims tag ok n (full_evidence X evidence))"
  unfolding csv_claims_def
  by (rule value_ok_passthrough [OF full_evidence_ok], rule value_ok_base_claims) simp

lemma value_ok_strs [simp]:
  "opt_str s = Some v \<Longrightarrow> value_ok v"
  by (auto simp: opt_str_def)

lemma value_ok_itrustee_claims: "value_ok (itrustee_claims tag X ok p)"
proof -
  obtain u i m a v where f: "itrustee_fields X p = (u, i, m, a, v)" by (cases "itrustee_fields X p") auto
  show ?thesis unfolding itrustee_claims_def f prod.case
    by (intro value_ok_insert_some value_ok_base_claims) auto
qed

lemma value_ok_virtcca_claims:
  "(\<And>v. vj_platform_sw_components p = Some v \<Longrightarrow> value_ok v) \<Longrightarrow> value_ok (virtcca_claims tag ok p)"
  unfolding virtcca_claims_def
  by (intro value_ok_insert_some value_ok_base_claims) auto

lemma optional_value_ok: "optional (\<lambda>w. Some (to_value w)) x = Some (Some v) \<Longrightarrow> value_ok v"
  by (drule optional_Some) auto

lemma virtcca_sw_components_ok:
  "virtcca_evidence_of v = Some p \<Longrightarrow> vj_platform_sw_components p = Some w \<Longrightarrow> value_ok w"
  by (clarsimp simp: virtcca_evidence_of_def Option.bind_eq_Some_conv optional_value_ok)

lemma value_ok_tdx_claims: "value_ok (tdx_claims tag X tcb advisories td)"
  unfolding tdx_claims_def by (rule value_ok_jobj) (auto simp: list_all_iff)

lemma error_claims_ok: "value_ok (jobj [(''error'', JStr msg)])"
  by (rule value_ok_jobj) simp

end
