(* ===== verification/JsonInstance.thy ===== *)
theory JsonInstance
  imports Json
begin

text \<open>
  An executable reader and printer of JSON values that satisfies what the development assumes of
  \<^verbatim>\<open>serde_json\<close> (\<open>printer_ok\<close>), for the witnesses. The text is not JSON's: a tag byte, lengths and
  numbers in unary. The other third-party functions are the identity, a hash a prefix.
\<close>

definition toy_nat :: "nat \<Rightarrow> byte list" where
  "toy_nat n = replicate n 1 @ [0]"

definition toy_read_nat :: "byte list \<Rightarrow> nat \<times> byte list" where
  "toy_read_nat b = (let n = length (takeWhile (\<lambda>x. x = 1) b) in (n, drop (Suc n) b))"

lemma toy_read_nat [simp]: "toy_read_nat (toy_nat n @ rest) = (n, rest)"
proof -
  have "takeWhile (\<lambda>x. x = 1) (replicate n 1 @ 0 # rest) = replicate n (1 :: byte)"
    by (induction n) auto
  then show ?thesis by (simp add: toy_read_nat_def toy_nat_def)
qed

definition toy_str :: "string \<Rightarrow> byte list" where
  "toy_str s = toy_nat (length s) @ bytes_of s"

definition toy_read_str :: "byte list \<Rightarrow> string \<times> byte list" where
  "toy_read_str b = (case toy_read_nat b of (n, r) \<Rightarrow> (string_of (take n r), drop n r))"

lemma toy_read_str [simp]: "toy_read_str (toy_str s @ rest) = (s, rest)"
  by (simp add: toy_read_str_def toy_str_def)

primrec toy_print :: "json \<Rightarrow> byte list" where
  "toy_print JNull = [0]"
| "toy_print (JBool b) = [1, if b then 1 else 0]"
| "toy_print (JNum n) = 2 # (if n < 0 then 1 else 0) # toy_nat (nat \<bar>n\<bar>)"
| "toy_print (JFloat s) = 3 # toy_str s"
| "toy_print (JStr s) = 4 # toy_str s"
| "toy_print (JArr xs) = 5 # toy_nat (length xs) @ concat (map toy_print xs)"
| "toy_print (JObj m) =
     6 # toy_nat (length m) @ concat (map (\<lambda>p. toy_str (fst p) @ snd p) (map (map_prod (\<lambda>k. k) toy_print) m))"

primrec read_many :: "(byte list \<Rightarrow> ('a \<times> byte list) option) \<Rightarrow> nat \<Rightarrow> byte list \<Rightarrow> ('a list \<times> byte list) option" where
  "read_many rd 0 b = Some ([], b)"
| "read_many rd (Suc n) b =
     Option.bind (rd b) (\<lambda>(x, r). Option.bind (read_many rd n r) (\<lambda>(xs, r'). Some (x # xs, r')))"

lemma read_many_concat:
  "(\<And>x rest. x \<in> set xs \<Longrightarrow> rd (wr x @ rest) = Some (x, rest)) \<Longrightarrow>
    read_many rd (length xs) (concat (map wr xs) @ rest) = Some (xs, rest)"
  by (induction xs arbitrary: rest) simp_all

primrec toy_read :: "nat \<Rightarrow> byte list \<Rightarrow> (json \<times> byte list) option" where
  "toy_read 0 b = None"
| "toy_read (Suc f) b =
     (case b of
        [] \<Rightarrow> None
      | t # r \<Rightarrow>
          if t = 0 then Some (JNull, r)
          else if t = 1 then (case r of [] \<Rightarrow> None | x # r' \<Rightarrow> Some (JBool (x = 1), r'))
          else if t = 2 then
            (case r of [] \<Rightarrow> None
             | s # r' \<Rightarrow> (case toy_read_nat r' of (n, r'') \<Rightarrow> Some (JNum (if s = 1 then - int n else int n), r'')))
          else if t = 3 then (case toy_read_str r of (s, r') \<Rightarrow> Some (JFloat s, r'))
          else if t = 4 then (case toy_read_str r of (s, r') \<Rightarrow> Some (JStr s, r'))
          else if t = 5 then
            (case toy_read_nat r of (n, r') \<Rightarrow>
               map_option (map_prod JArr (\<lambda>x. x)) (read_many (toy_read f) n r'))
          else
            (case toy_read_nat r of (n, r') \<Rightarrow>
               map_option (map_prod JObj (\<lambda>x. x))
                 (read_many (\<lambda>b. case toy_read_str b of (k, r) \<Rightarrow>
                    map_option (\<lambda>(v, r). ((k, v), r)) (toy_read f r)) n r')))"

lemma concat_longer: "x \<in> set xs \<Longrightarrow> length (wr x) \<le> length (concat (map wr xs))"
  by (induction xs) auto

lemma toy_read_print: "length (toy_print v) \<le> f \<Longrightarrow> toy_read f (toy_print v @ rest) = Some (v, rest)"
proof (induction v arbitrary: f rest)
  case (JArr xs)
  then obtain g where f: "f = Suc g" by (cases f) auto
  have "read_many (toy_read g) (length xs) (concat (map toy_print xs) @ rest) = Some (xs, rest)"
  proof (rule read_many_concat)
    fix x rest assume "x \<in> set xs"
    with concat_longer [of x xs toy_print] JArr.prems
    show "toy_read g (toy_print x @ rest) = Some (x, rest)" by (intro JArr.IH) (simp_all add: f)
  qed
  then show ?case by (simp add: f)
next
  case (JObj m)
  then obtain g where f: "f = Suc g" by (cases f) auto
  let ?rd = "\<lambda>b. case toy_read_str b of (k, r) \<Rightarrow> map_option (\<lambda>(v, r). ((k, v), r)) (toy_read g r)"
  let ?wr = "\<lambda>p. toy_str (fst p) @ toy_print (snd p)"
  have body: "concat (map (\<lambda>p. toy_str (fst p) @ snd p) (map (map_prod (\<lambda>k. k) toy_print) m)) = concat (map ?wr m)"
    by (simp add: comp_def)
  have "read_many ?rd (length m) (concat (map ?wr m) @ rest) = Some (m, rest)"
  proof (rule read_many_concat)
    fix p rest assume p: "p \<in> set m"
    have "length (toy_print (snd p)) \<le> g"
      using concat_longer [OF p, of ?wr] JObj.prems by (simp add: f comp_def)
    then have "toy_read g (toy_print (snd p) @ rest) = Some (snd p, rest)"
      using p by (intro JObj.IH) (auto simp: snds.simps prod_eq_iff)
    then show "?rd (?wr p @ rest) = Some (p, rest)" by simp
  qed
  then show ?case unfolding toy_print.simps(7) body by (simp add: f)
qed (auto simp: Suc_le_eq dest!: less_imp_Suc_add)

definition toy_parse :: "byte list \<Rightarrow> json option" where
  "toy_parse b = (case toy_read (length b) b of Some (v, []) \<Rightarrow> Some v | _ \<Rightarrow> None)"

definition toy_json :: externals where
  "toy_json = \<lparr>parse_json = toy_parse, print_json = toy_print,
     b64_encode = string_of, b64_decode = (\<lambda>s. Some (bytes_of s)),
     b64url_encode = string_of, b64url_decode = (\<lambda>s. Some (bytes_of s)),
     hex_encode = string_of, hex_decode = (\<lambda>s. Some (bytes_of s)), sha256 = take 2\<rparr>"

lemma toy_json_sel [simp]:
  "print_json toy_json = toy_print"
  "b64_encode toy_json = string_of" "b64_decode toy_json s = Some (bytes_of s)"
  "b64url_encode toy_json = string_of" "b64url_decode toy_json s = Some (bytes_of s)"
  "hex_encode toy_json = string_of" "hex_decode toy_json s = Some (bytes_of s)"
  "sha256 toy_json = take 2"
  by (simp_all add: toy_json_def)

lemma toy_parse_print [simp]: "parse_json toy_json (toy_print v) = Some v"
  using toy_read_print [of v "length (toy_print v)" "[]"] by (simp add: toy_json_def toy_parse_def)

lemma toy_from_slice [simp]: "from_slice toy_json (toy_print v) = Some (to_value v)"
  by (simp add: from_slice_def)

lemma toy_printer_ok [simp]: "printer_ok toy_json"
  by (simp add: printer_ok_def)

declare toy_print.simps [simp del]

end
