(* ===== verification/GrpcFacts.thy ===== *)
theory GrpcFacts
  imports Grpc Appraisers JsonInstance
begin

text \<open>
  What the verifier's result means: the checks behind every signed result, and what it says of the
  hardware when the component that ran is one of this repository's.
\<close>

section \<open>Signed results\<close>

lemma verify_ok:
  assumes "verify W st d req reg = (reg', Inr (ear, cid))"
  obtains tee evidence lifecycle component raw claims where
    "check_request req = Inr tee"
    "resolve_component W st d req reg = (reg', Inr cid)"
    "evidence_for_wasm W st d tee (rq_nonce req) (rq_evidence req) = Inr (evidence, lifecycle)"
    "compiled reg' cid = Some component"
    "w_run W component evidence (Some (rq_nonce req)) (expected_init W st tee) = Some raw"
    "from_slice (w_externals W) (bytes_of raw) = Some claims"
    "json_get ''error'' claims = None"
    "get_str ''verification'' claims = Some ''passed''"
    "enforce_policy st tee claims = Inr ()"
    "w_sign W (issue_ear W d tee (rq_nonce req) lifecycle cid claims) = Some ear"
proof -
  obtain tee where tee: "check_request req = Inr tee"
    using assms by (cases "check_request req") (simp_all add: verify_def)
  obtain reg1 m where rc: "resolve_component W st d req reg = (reg1, m)"
    by (cases "resolve_component W st d req reg")
  then obtain cid0 where m: "m = Inr cid0"
    using assms tee by (cases m) (simp_all add: verify_def)
  have reg: "reg1 = reg'" using assms by (simp add: verify_def tee rc m)
  have run:
    "and_then (evidence_for_wasm W st d tee (rq_nonce req) (rq_evidence req)) (\<lambda>(evidence, lifecycle).
       and_then (invalid ''evidence rejected'' (evaluate (w_externals W) (w_run W) reg' cid0 evidence
         (Some (rq_nonce req)) (expected_init W st tee))) (\<lambda>(cid', claims).
       and_then (enforce_policy st tee claims) (\<lambda>_.
       and_then (internal ''encode JWT'' (ok_or ''''
         (w_sign W (issue_ear W d tee (rq_nonce req) lifecycle cid' claims)))) (\<lambda>ear.
       Inr (ear, cid'))))) = Inr (ear, cid)"
    using assms reg by (simp add: verify_def tee rc m)
  obtain evidence lifecycle where ev:
    "evidence_for_wasm W st d tee (rq_nonce req) (rq_evidence req) = Inr (evidence, lifecycle)"
    using run by (auto simp: and_then_Inr_iff)
  obtain cid' claims where el: "evaluate (w_externals W) (w_run W) reg' cid0 evidence
      (Some (rq_nonce req)) (expected_init W st tee) = Inr (cid', claims)"
    using run by (auto simp: ev and_then_Inr_iff)
  have "enforce_policy st tee claims = Inr ()" and
    "w_sign W (issue_ear W d tee (rq_nonce req) lifecycle cid' claims) = Some ear" and "cid' = cid"
    using run by (auto simp: ev el and_then_Inr_iff)
  moreover have "resolve_component W st d req reg = (reg', Inr cid0)" by (simp add: rc m reg)
  ultimately show ?thesis using el tee ev by (auto simp: evaluate_Inr_iff intro: that)
qed

lemma as_object_Some [simp]: "as_object v = Some m \<longleftrightarrow> v = JObj m"
  by (cases v) auto

lemma cca_evidence_ok:
  assumes "cca_evidence W st nonce evidence = Inr (b, lifecycle)" and "cca_verifier st = Some v"
  obtains token result obj where
    "extract_b64_field (w_externals W) evidence ''cca_token_b64'' = Inr token"
    "cca_verify (w_externals W) (w_ccatoken W) v token (resize 64 nonce) = Inr result"
    "from_slice (w_externals W) evidence = Some (JObj obj)"
    "b = print_json (w_externals W) (JObj (inject_cca_claims result obj))"
    "lifecycle = cca_platform_lifecycle result"
  using assms by (auto simp: cca_evidence_def Let_def and_then_Inr_iff)

lemma value_ok_str_of: "str_of s = Some v \<Longrightarrow> value_ok v"
  by (auto simp: str_of_def)

lemma sw_components_ok:
  assumes "cca_verify X K v token nonce = Inr r" and "cca_platform_sw_components r = Some xs"
  shows "value_ok (JArr xs)"
proof -
  obtain e where "xs = map (sw_component_json X) (plat_sw_components K e)"
    using assms by (auto simp: cca_verify_def and_then_Inr_iff split: if_splits)
  then show ?thesis
    by (auto simp: value_ok_JArr sw_component_json_def intro!: value_ok_jobj)
qed

lemma inject_cca_value_ok:
  assumes "cca_verify X K v token nonce = Inr r" and "value_ok (JObj m)"
  shows "value_ok (JObj (inject_cca_claims r m))"
  unfolding inject_cca_claims_def
  by (intro value_ok_insert_some assms(2)) (auto simp: value_ok_str_of dest: sw_components_ok [OF assms(1)])

text \<open>What the component says of the evidence the host gives it.\<close>

lemma cca_component_says:
  assumes ok: "printer_ok X" and m: "value_ok (JObj m)"
    and claims: "from_slice X (bytes_of (cca_evaluate tag X (print_json X (JObj m)) (Some nonce))) = Some claims"
    and passed: "get_str ''verification'' claims = Some ''passed''"
  shows "get_bool ''nonce_bound'' claims = Some True"
    and "get_str ''tee_type'' claims = Some tag"
    and "map_of m ''nonce'' = Some (JStr (b64url_encode X nonce))"
    and "k \<in> set cca_keys \<Longrightarrow> map_of m k = Some w \<Longrightarrow> json_get k claims = Some w"
proof -
  let ?b = "print_json X (JObj m)"
  have read: "parse_json X ?b = Some (JObj m)" "full_evidence X ?b = JObj m"
    using ok m by (simp_all add: full_evidence_def)
  have err: "get_str ''verification'' claims = None" if "from_slice X (bytes_of (error_claims X msg)) = Some claims" for msg
    using that ok error_claims_ok [of msg]
    by (auto simp: error_claims_def to_string_def) (simp add: get_str_def)
  obtain token_b64 n token where ev: "cca_evidence_of (JObj m) = Some (token_b64, n)"
    and token: "b64_decode X token_b64 = Some token"
    using claims passed err by (fastforce simp: cca_evaluate_def read split: option.splits)
  let ?ok = "nonce_matches X n (Some nonce)"
  have val: "value_ok (cca_claims tag ?ok (length token) (JObj m))"
    using value_ok_cca_claims [of tag ?ok "length token" X ?b] by (simp only: read)
  have claims_eq: "claims = cca_claims tag ?ok (length token) (JObj m)"
    using claims ok val by (simp add: cca_evaluate_def read ev token to_string_def)
  note get = json_get_cca_claims [of _ tag ?ok "length token" m, folded claims_eq]
  have keys: "''verification'' \<notin> set cca_keys" "''tee_type'' \<notin> set cca_keys" "''nonce_bound'' \<notin> set cca_keys"
    by (simp_all add: cca_keys_def)
  have bound: ?ok
    using passed keys by (simp add: get_str_def get map_of_base_claims verdict_def split: if_splits)
  then show "get_bool ''nonce_bound'' claims = Some True" "get_str ''tee_type'' claims = Some tag"
    using keys by (simp_all add: get_str_def get_bool_def get map_of_base_claims)
  show "k \<in> set cca_keys \<Longrightarrow> map_of m k = Some w \<Longrightarrow> json_get k claims = Some w"
    by (simp add: get)
  have "n = b64url_encode X nonce" using bound by (simp add: nonce_matches_def)
  then show "map_of m ''nonce'' = Some (JStr (b64url_encode X nonce))"
    using ev by (auto simp: cca_evidence_of_def struct_of_def as_str_Some_iff Option.bind_eq_Some_conv split: if_splits)
qed

definition lifecycle_grade :: "u16 \<Rightarrow> int" where
  "lifecycle_grade w =
     (if w \<in> {0x6000, 0x6001} then 2 else if w \<in> {0x3000, 0x3001} \<or> w \<le> 0xff then 1 else 0)"

lemma trust_vector_cca:
  "trust_vector_for Cca True (Some (lifecycle_text w)) t = trust_vector_new 2 (lifecycle_grade w) 2"
  by (simp add: trust_vector_for_def lifecycle_text_def lifecycle_grade_def)

lemma trust_vector_graded:
  "{instance_identity (trust_vector_for tee b l t), configuration (trust_vector_for tee b l t),
    executables (trust_vector_for tee b l t)} \<subseteq> {0, 1, 2}"
  by (simp add: trust_vector_for_def trust_vector_new_def affirming_def)

text \<open>
  C30. When the verifier has a trust anchor store, and the component that ran is this repository's
  CCA component, a signed CCA result is about a token that passed every check of the host: it was
  decoded, its signatures and its reference values were accepted, its realm is affirming, and its
  challenge is the request's nonce in a 64-byte field. The realm measurement in the result is the
  token's, whatever the evidence claimed; it is in the configured list when there is one; the trust
  vector is (2, grade of the platform's lifecycle, 2); and the result carries the nonce.
\<close>
theorem cca_result_is_the_token:
  fixes W :: "('c, 'ta, 'rv, 'ev, 'w, 'r, 'ca, 'cs) world"
  assumes result: "verify W st d req reg = (reg', Inr (ear, cid))"
    and verifier: "cca_verifier st = Some v"
    and tee: "rq_tee_type req = 2"
    and printer: "printer_ok (w_externals W)"
    and component: "\<And>c b rd ini. compiled reg' cid = Some c \<Longrightarrow>
        w_run W c b (Some rd) ini = Some (cca_component (w_externals W) b (Some rd))"
  shows "\<exists>token e0 e1 e claims.
     extract_b64_field (w_externals W) (rq_evidence req) ''cca_token_b64'' = Inr token \<and>
     token_decode (w_ccatoken W) token = Some e0 \<and> token_verify (w_ccatoken W) (tas v) e0 = Some e1 \<and>
     token_appraise (w_ccatoken W) (rvs v) e1 = Some e \<and> realm_affirming (w_ccatoken W) e \<and>
     realm_challenge (w_ccatoken W) e = resize 64 (rq_nonce req) \<and>
     w_sign W claims = Some ear \<and> eat_nonce claims = b64url_encode (w_externals W) (rq_nonce req) \<and>
     (realm_rim (w_ccatoken W) e \<noteq> [] \<longrightarrow>
        get_str ''cca_realm_initial_measurement'' (submods claims) =
          Some (hex_encode (w_externals W) (realm_rim (w_ccatoken W) e)) \<and>
        (trusted_rim_hex (cca_policy st) = [] \<or> (\<exists>s\<in>set (trusted_rim_hex (cca_policy st)).
          eq_ignore_ascii_case s (hex_encode (w_externals W) (realm_rim (w_ccatoken W) e))))) \<and>
     ear_trust_vector claims = trust_vector_new 2 (lifecycle_grade (plat_lifecycle (w_ccatoken W) e)) 2"
proof -
  let ?X = "w_externals W" and ?K = "w_ccatoken W" and ?rim = "''cca_realm_initial_measurement''"
  obtain tee' evidence lifecycle c raw claims where r:
    "check_request req = Inr tee'"
    "evidence_for_wasm W st d tee' (rq_nonce req) (rq_evidence req) = Inr (evidence, lifecycle)"
    "compiled reg' cid = Some c" "w_run W c evidence (Some (rq_nonce req)) (expected_init W st tee') = Some raw"
    "from_slice ?X (bytes_of raw) = Some claims" "get_str ''verification'' claims = Some ''passed''"
    "enforce_policy st tee' claims = Inr ()"
    "w_sign W (issue_ear W d tee' (rq_nonce req) lifecycle cid claims) = Some ear"
    using result by (rule verify_ok)
  have cca: "tee' = Cca" using r(1) tee by (simp add: check_request_ok tee_of_i32_def)
  obtain token result obj where ev:
    "extract_b64_field ?X (rq_evidence req) ''cca_token_b64'' = Inr token"
    "cca_verify ?X ?K v token (resize 64 (rq_nonce req)) = Inr result"
    "from_slice ?X (rq_evidence req) = Some (JObj obj)"
    "evidence = print_json ?X (JObj (inject_cca_claims result obj))"
    "lifecycle = cca_platform_lifecycle result"
    using r(2) verifier by (auto simp: cca evidence_for_wasm_def Let_def elim!: cca_evidence_ok)
  obtain e0 e1 e where host: "token_decode ?K token = Some e0" "token_verify ?K (tas v) e0 = Some e1"
    "token_appraise ?K (rvs v) e1 = Some e" "realm_affirming ?K e" "realm_challenge ?K e = resize 64 (rq_nonce req)"
    "realm_initial_measurement result = (if realm_rim ?K e \<noteq> [] then Some (hex_encode ?X (realm_rim ?K e)) else None)"
    "cca_platform_lifecycle result = Some (lifecycle_text (plat_lifecycle ?K e))"
    using ev(2) by (rule cca_verify_ok)
  have raw: "raw = cca_evaluate ''cca'' ?X evidence (Some (rq_nonce req))"
    using component [OF r(3)] r(4) by (simp add: cca_component_def)
  have obj: "value_ok (JObj (inject_cca_claims result obj))"
    using inject_cca_value_ok [OF ev(2) value_ok_from_slice [OF ev(3)]] .
  note says = cca_component_says [OF printer obj r(5) [unfolded raw ev(4)] r(6)]
  have rim: "get_str ?rim claims = Some (hex_encode ?X (realm_rim ?K e))" if "realm_rim ?K e \<noteq> []"
    using that says(4) [of ?rim "JStr (hex_encode ?X (realm_rim ?K e))"] host(6)
    by (simp add: inject_cca_claims_def cca_keys_def get_str_def str_of_def split: option.split)
  have policy: "enforce_cca_policy (cca_policy st) claims = Inr ()"
    using r(7) by (auto simp: enforce_policy_def cca and_then_Inr_iff)
  have trusted: "trusted_rim_hex (cca_policy st) = [] \<or> (\<exists>s\<in>set (trusted_rim_hex (cca_policy st)).
      eq_ignore_ascii_case s (hex_encode ?X (realm_rim ?K e)))" if "realm_rim ?K e \<noteq> []"
    using policy rim [OF that] by (auto simp: enforce_cca_policy_def and_then_Inr_iff split: if_splits)
  show ?thesis
    by (intro exI conjI, (rule ev(1) host r(8))+)
       (simp_all add: issue_ear_def rim trusted cca says(1) ev(5) host(7) trust_vector_cca)
qed

text \<open>A small world: a token is a realm measurement of one byte and the nonce, an anchor is a number.\<close>

definition toy_ccatoken :: "(nat, nat, byte list) ccatoken" where
  "toy_ccatoken = \<lparr>load_tas = (\<lambda>s. Some 7), load_rvs = (\<lambda>s. Some 9), token_decode = Some,
     token_verify = (\<lambda>ta e. if ta = 7 then Some e else None),
     token_appraise = (\<lambda>rv e. if rv = 9 then Some e else None),
     realm_affirming = (\<lambda>e. True), realm_challenge = (\<lambda>e. resize 64 (drop 1 e)), realm_rim = take 1,
     realm_perso = (\<lambda>e. []), plat_inst_id = (\<lambda>e. []), plat_impl_id = (\<lambda>e. []),
     plat_lifecycle = (\<lambda>e. 0x6000), plat_sw_components = (\<lambda>e. [])\<rparr>"

definition toy_world ::
  "(unit \<Rightarrow> byte list \<Rightarrow> byte list option \<Rightarrow> byte list option \<Rightarrow> string option) \<Rightarrow> ('w, 'r, 'ca, 'cs) csv_rs
   \<Rightarrow> (unit, nat, nat, byte list, 'w, 'r, 'ca, 'cs) world" where
  "toy_world run csv = \<lparr>w_externals = toy_json, w_compile = (\<lambda>b. Some ()), w_run = run,
     w_ccatoken = toy_ccatoken, w_csv = csv, w_read_file = (\<lambda>p. None), w_http_get = (\<lambda>u. None),
     w_collateral = (\<lambda>u q. Some JNull), w_sign = (\<lambda>c. Some (eat_nonce c))\<rparr>"

definition toy_csv :: "(unit, unit, unit, unit) csv_rs" where
  "toy_csv = \<lparr>wrapper_of_json = (\<lambda>v. None), ca_of_json = (\<lambda>v. None), cert_of_json = (\<lambda>v. None),
     report_of = (\<lambda>w. None), ca_decode = (\<lambda>b. None), cert_decode = (\<lambda>b. None), hrk = None,
     ca_signs_ca = (\<lambda>a b. False), ca_signs_cert = (\<lambda>a b. False), cert_signs_cert = (\<lambda>a b. False),
     cert_signs_report = (\<lambda>a b. False), rep_report_data = (\<lambda>r. []), rep_measure = (\<lambda>r. []),
     rep_vm_version = (\<lambda>r. []), rep_nodbg = (\<lambda>r. 0), rep_noks = (\<lambda>r. 0)\<rparr>"

definition toy_app :: "string list \<Rightarrow> (nat, nat) app_state" where
  "toy_app rims = \<lparr>host = \<lparr>allow_unsigned = True, trusted_hashes = []\<rparr>,
     cca_policy = cca_policy_default\<lparr>trusted_rim_hex := rims\<rparr>, tdx_policy = tdx_policy_default,
     cca_verifier = Some \<lparr>tas = 7, rvs = 9\<rparr>, csv_verifier = None\<rparr>"

definition toy_call :: call_draw where
  "toy_call = \<lparr>d_uuid = ''u'', d_saved = True, d_fetched_at = 0, d_iat = 0, d_exp_base = 0\<rparr>"

definition toy_components :: "unit registry" where
  "toy_components = registry_empty\<lparr>compiled := [''c'' \<mapsto> ()]\<rparr>"

definition toy_ask :: "int \<Rightarrow> json \<Rightarrow> verify_request" where
  "toy_ask tee ev = \<lparr>rq_tee_type = tee, rq_nonce = bytes_of ''ab'', rq_evidence = toy_print ev,
     rq_wasm = Some (WasmComponentId ''c'')\<rparr>"

lemmas toy_verifier_defs = toy_ccatoken_def toy_world_def toy_csv_def toy_app_def toy_call_def toy_components_def
  toy_ask_def cca_policy_default_def tdx_policy_default_def registry_empty_def

definition toy_cca_evidence :: json where
  "toy_cca_evidence = JObj [(''cca_token_b64'', JStr ''Rab''), (''nonce'', JStr ''ab'')]"

lemma toy_cca_evidence_ok: "value_ok toy_cca_evidence"
  by (simp add: toy_cca_evidence_def value_ok_JObj)

definition toy_cca_world where
  "toy_cca_world = toy_world (\<lambda>c b rd ini. Some (cca_component toy_json b rd)) toy_csv"

lemma toy_cca_accepted:
  "verify toy_cca_world (toy_app [''R'']) toy_call (toy_ask 2 toy_cca_evidence) toy_components =
     (toy_components, Inr (''ab'', ''c''))"
proof -
  let ?r = "toy_ask 2 toy_cca_evidence" and ?W = toy_cca_world and ?A = "toy_app [''R'']"
  let ?obj = "[(''cca_token_b64'', JStr ''Rab''), (''nonce'', JStr ''ab'')]"
  note sel = toy_cca_world_def toy_world_def toy_app_def toy_ask_def
  have tee: "check_request ?r = Inr Cca" "resolve_component ?W ?A toy_call ?r toy_components = (toy_components, Inr ''c'')"
    by (simp_all add: check_request_ok toy_ask_def tee_of_i32_def resolve_component_def bytes_of_def)
  have slice: "to_value toy_cca_evidence = JObj ?obj"
    using toy_cca_evidence_ok by (simp only: to_value_ok toy_cca_evidence_def)
  have token: "extract_b64_field toy_json (toy_print toy_cca_evidence) ''cca_token_b64'' = Inr (bytes_of ''Rab'')"
    by (simp add: extract_b64_field_def slice)
  define result where "result = \<lparr>realm_initial_measurement = Some ''R'', realm_personalization_value = None,
    cca_platform_instance_id = Some [], cca_platform_implementation_id = Some [],
    cca_platform_lifecycle = Some ''secured'', cca_platform_sw_components = None\<rparr>"
  have bytes: "take (Suc 0) (bytes_of ''Rab'') = bytes_of ''R''" "drop (Suc 0) (bytes_of ''Rab'') = bytes_of ''ab''"
    "bytes_of ''R'' \<noteq> []" "bytes_of ''Rab'' \<noteq> []" "string_of [] = []"
    by (simp_all add: bytes_of_def string_of_def)
  have host: "cca_verify toy_json toy_ccatoken \<lparr>tas = 7, rvs = 9\<rparr> (bytes_of ''Rab'') (resize 64 (bytes_of ''ab''))
      = Inr result"
    by (simp add: cca_verify_def toy_ccatoken_def lifecycle_text_def bytes result_def)
  note result = result_def
  let ?m = "inject_cca_claims result ?obj"
  have ev: "evidence_for_wasm ?W ?A toy_call Cca (rq_nonce ?r) (rq_evidence ?r) = Inr (toy_print (JObj ?m), Some ''secured'')"
    by (simp add: evidence_for_wasm_def cca_evidence_def sel slice token host result)
  have m: "value_ok (JObj ?m)"
    using toy_cca_evidence_ok by (intro inject_cca_value_ok [OF host]) (simp add: toy_cca_evidence_def)
  let ?claims = "cca_claims ''cca'' True 3 (JObj ?m)"
  have nonce: "cca_evidence_of (JObj ?m) = Some (''Rab'', ''ab'')"
    by (simp add: cca_evidence_of_def struct_of_def inject_cca_claims_def insert_some_def str_of_def result required_def)
  have run: "cca_component toy_json (toy_print (JObj ?m)) (Some (bytes_of ''ab'')) = to_string toy_json ?claims"
    using m by (simp add: cca_component_def cca_evaluate_def nonce nonce_matches_def full_evidence_def numeral_3_eq_3)
  have claims: "value_ok ?claims"
    using value_ok_cca_claims [of "''cca''" True 3 toy_json "toy_print (JObj ?m)"] m by (simp add: full_evidence_def)
  have fields: "json_get ''error'' ?claims = None" "get_str ''verification'' ?claims = Some ''passed''"
    "get_str ''tee_type'' ?claims = Some ''cca''" "get_str ''cca_realm_initial_measurement'' ?claims = Some ''R''"
    by (simp_all add: get_str_def json_get_cca_claims cca_keys_def map_of_base_claims verdict_def inject_cca_claims_def str_of_def result)
  have "evaluate toy_json (w_run ?W) toy_components ''c'' (toy_print (JObj ?m)) (Some (bytes_of ''ab'')) None
      = Inr (''c'', ?claims)"
    using claims fields(1, 2) run
    by (auto simp: evaluate_Inr_iff toy_cca_world_def toy_world_def toy_components_def to_string_def)
  moreover have "enforce_policy ?A Cca ?claims = Inr ()"
    by (simp add: enforce_policy_def fields toy_app_def enforce_cca_policy_def cca_policy_default_def eq_ignore_ascii_case_def)
  ultimately show ?thesis
    by (simp add: verify_def tee ev) (simp add: sel issue_ear_def expected_init_def)
qed

theorem cca_result_is_the_token_witness:
  "\<exists>token e0 e1 e claims.
     extract_b64_field toy_json (toy_print toy_cca_evidence) ''cca_token_b64'' = Inr token \<and>
     token_decode toy_ccatoken token = Some e0 \<and> token_verify toy_ccatoken 7 e0 = Some e1 \<and>
     token_appraise toy_ccatoken 9 e1 = Some e \<and> realm_affirming toy_ccatoken e \<and>
     realm_challenge toy_ccatoken e = resize 64 (bytes_of ''ab'') \<and>
     w_sign toy_cca_world claims = Some ''ab'' \<and> eat_nonce claims = ''ab'' \<and>
     ear_trust_vector claims = trust_vector_new 2 (lifecycle_grade (plat_lifecycle toy_ccatoken e)) 2"
proof -
  have "w_externals toy_cca_world = toy_json" "w_ccatoken toy_cca_world = toy_ccatoken"
    by (simp_all add: toy_cca_world_def toy_world_def)
  note sel = this
  show ?thesis
    using cca_result_is_the_token [OF toy_cca_accepted, of "\<lparr>tas = 7, rvs = 9\<rparr>"]
    by (simp add: sel toy_cca_world_def toy_world_def toy_app_def toy_ask_def) blast
qed

text \<open>
  C33. Every result the verifier signs is well formed, whatever component ran: the request named a
  TEE other than \<open>Unspecified\<close> and had a nonce; the result carries that TEE's name, the nonce and a
  component that is registered; its claims are a JSON value without an \<open>error\<close> member that says
  \<open>passed\<close> and names the same TEE; and each dimension of the trust vector is 0, 1 or 2.
\<close>
theorem signed_result_well_formed:
  assumes "verify W st d req reg = (reg', Inr (ear, cid))"
  shows "\<exists>tee claims. tee_of_i32 (rq_tee_type req) = Some tee \<and> tee \<noteq> Unspecified \<and> rq_nonce req \<noteq> [] \<and>
     compiled reg' cid \<noteq> None \<and> w_sign W claims = Some ear \<and> ear_tee_type claims = tee_type_str tee \<and>
     eat_nonce claims = b64url_encode (w_externals W) (rq_nonce req) \<and> ear_component_id claims = cid \<and>
     value_ok (submods claims) \<and> json_get ''error'' (submods claims) = None \<and>
     get_str ''verification'' (submods claims) = Some ''passed'' \<and>
     get_str ''tee_type'' (submods claims) = Some (tee_type_str tee) \<and>
     {instance_identity (ear_trust_vector claims), configuration (ear_trust_vector claims),
      executables (ear_trust_vector claims)} \<subseteq> {0, 1, 2}"
proof -
  obtain tee evidence lifecycle c raw claims where r:
    "check_request req = Inr tee" "compiled reg' cid = Some c"
    "from_slice (w_externals W) (bytes_of raw) = Some claims" "json_get ''error'' claims = None"
    "get_str ''verification'' claims = Some ''passed''" "enforce_policy st tee claims = Inr ()"
    "w_sign W (issue_ear W d tee (rq_nonce req) lifecycle cid claims) = Some ear"
    using assms by (rule verify_ok)
  have "tee_type_str tee \<noteq> ''unknown''" by (cases tee) simp_all
  then have "get_str ''tee_type'' claims = Some (tee_type_str tee)"
    using r(6) by (auto simp: enforce_policy_def and_then_Inr_iff split: option.splits)
  then show ?thesis
    using r value_ok_from_slice [OF r(3)]
    by (intro exI [of _ tee] exI [of _ "issue_ear W d tee (rq_nonce req) lifecycle cid claims"])
       (simp add: check_request_ok issue_ear_def trust_vector_graded [simplified])
qed

theorem signed_result_well_formed_witness:
  "\<exists>claims. w_sign toy_cca_world claims = Some ''ab'' \<and> ear_tee_type claims = ''cca'' \<and>
     {instance_identity (ear_trust_vector claims), configuration (ear_trust_vector claims),
      executables (ear_trust_vector claims)} \<subseteq> {0, 1, 2}"
proof -
  have "tee_of_i32 (rq_tee_type (toy_ask 2 toy_cca_evidence)) = Some Cca"
    by (simp add: toy_ask_def tee_of_i32_def)
  then show ?thesis using signed_result_well_formed [OF toy_cca_accepted] by auto
qed

section \<open>VirtCCA\<close>

text \<open>Evidence that no hardware had a part in: empty token and certificate, and any measurement.\<close>

definition forged_virtcca :: "externals \<Rightarrow> byte list \<Rightarrow> string \<Rightarrow> json" where
  "forged_virtcca X nonce rim = jobj [(''evidence'', JArr []), (''dev_cert'', JArr []),
     (''nonce'', JStr (b64url_encode X nonce)), (''virtcca_rim'', JStr rim)]"

lemma as_bytes_empty [simp]: "as_bytes (JArr []) = Some []"
  by (simp add: as_bytes_def)

text \<open>
  C31. Nothing of VirtCCA evidence is checked but its nonce field: when this repository's VirtCCA
  component runs, evidence with an empty token, an empty certificate and any realm measurement the
  sender likes is accepted, the result carries that measurement as the component's \<open>rim\<close>, and its
  trust vector is affirming in all three dimensions.
\<close>
theorem virtcca_result_needs_no_hardware:
  fixes W :: "('c, 'ta, 'rv, 'ev, 'w, 'r, 'ca, 'cs) world"
  assumes req: "rq_tee_type req = 9" "rq_nonce req \<noteq> []" "rq_wasm req = Some (WasmComponentId cid)"
      "rq_evidence req = print_json (w_externals W) (forged_virtcca (w_externals W) (rq_nonce req) rim)"
    and printer: "printer_ok (w_externals W)"
    and component: "compiled reg cid = Some c"
      "\<And>b rd ini. w_run W c b (Some rd) ini = Some (virtcca_component (w_externals W) b (Some rd))"
    and signs: "\<And>claims. w_sign W claims \<noteq> None"
  shows "\<exists>claims ear. verify W st d req reg = (reg, Inr (ear, cid)) \<and> w_sign W claims = Some ear \<and>
     get_str ''rim'' (submods claims) = Some rim \<and> ear_trust_vector claims = affirming"
proof -
  let ?X = "w_externals W" and ?nonce = "rq_nonce req"
  let ?f = "forged_virtcca ?X ?nonce rim"
  have f: "value_ok ?f" unfolding forged_virtcca_def by (rule value_ok_jobj) (auto simp: value_ok_JArr)
  obtain m where m: "?f = JObj m" by (simp add: forged_virtcca_def jobj_def)
  have get: "map_of m k = json_get k ?f" for k by (simp add: m)
  have sizes: "virtcca_extract_claims ?X (rq_evidence req) =
      Inr \<lparr>token_size = 0, cert_size = 0, ima_log_size = None, event_log_size = None\<rparr>"
    using printer f by (simp add: virtcca_extract_claims_def req(4) array_len_def get_array_def forged_virtcca_def)
  let ?m = "inject_virtcca_claims \<lparr>token_size = 0, cert_size = 0, ima_log_size = None, event_log_size = None\<rparr> m"
  have ok: "value_ok (JObj ?m)"
    unfolding inject_virtcca_claims_def using f m by (intro value_ok_insert_some value_ok_obj_insert) simp_all
  have tee: "check_request req = Inr Virtcca" "resolve_component W st d req reg = (reg, Inr cid)"
    using req by (simp_all add: check_request_ok tee_of_i32_def resolve_component_def)
  have ev: "evidence_for_wasm W st d Virtcca ?nonce (rq_evidence req) = Inr (print_json ?X (JObj ?m), None)"
    using printer f m sizes by (simp add: evidence_for_wasm_def virtcca_evidence_def req(4))
  let ?p = "\<lparr>vj_evidence = [], vj_dev_cert = [], vj_nonce = b64url_encode ?X ?nonce, vj_ima_log = None,
    vj_event_log = None, vj_rim = Some rim, vj_rpv = None, vj_challenge = None, vj_is_platform = None,
    vj_platform_sw_components = None\<rparr>"
  have parsed: "virtcca_evidence_of (JObj ?m) = Some ?p"
    by (simp add: virtcca_evidence_of_def struct_of_value [OF ok])
       (simp add: inject_virtcca_claims_def get forged_virtcca_def required_def optional_def)
  let ?claims = "virtcca_claims ''virtcca'' True ?p"
  have run: "virtcca_component ?X (print_json ?X (JObj ?m)) (Some ?nonce) = to_string ?X ?claims"
    using printer ok by (simp add: virtcca_component_def virtcca_evaluate_def parsed nonce_matches_def)
  have claims: "value_ok ?claims" by (rule value_ok_virtcca_claims) simp
  have fields: "json_get ''error'' ?claims = None" "get_str ''verification'' ?claims = Some ''passed''"
    "get_str ''tee_type'' ?claims = Some ''virtcca''" "get_str ''rim'' ?claims = Some rim"
    by (simp_all add: virtcca_claims_def map_of_base_claims verdict_def opt_str_def get_str_def)
  have "evaluate ?X (w_run W) reg cid (print_json ?X (JObj ?m)) (Some ?nonce) None = Inr (cid, ?claims)"
    using claims fields component run printer by (auto simp: evaluate_Inr_iff to_string_def)
  moreover have "enforce_policy st Virtcca ?claims = Inr ()"
    by (simp add: enforce_policy_def fields)
  moreover obtain ear where "w_sign W (issue_ear W d Virtcca ?nonce None cid ?claims) = Some ear"
    using signs by auto
  ultimately show ?thesis
    by (intro exI [of _ "issue_ear W d Virtcca ?nonce None cid ?claims"] exI [of _ ear])
       (simp add: verify_def tee ev expected_init_def, simp add: issue_ear_def fields trust_vector_for_def)
qed

definition toy_virtcca_world where
  "toy_virtcca_world = toy_world (\<lambda>c b rd ini. Some (virtcca_component toy_json b rd)) toy_csv"

theorem virtcca_result_needs_no_hardware_witness:
  "\<exists>claims ear. verify toy_virtcca_world (toy_app []) toy_call
      (toy_ask 9 (forged_virtcca toy_json (bytes_of ''ab'') ''genuine'')) toy_components =
        (toy_components, Inr (ear, ''c'')) \<and>
      w_sign toy_virtcca_world claims = Some ear \<and>
      get_str ''rim'' (submods claims) = Some ''genuine'' \<and> ear_trust_vector claims = affirming"
proof -
  have sel: "w_externals toy_virtcca_world = toy_json"
    by (simp add: toy_virtcca_world_def toy_world_def)
  show ?thesis
    by (rule virtcca_result_needs_no_hardware [where c = "()"])
       (simp_all add: sel, simp_all add: toy_virtcca_world_def toy_world_def toy_ask_def toy_components_def bytes_of_def)
qed

section \<open>Intel TDX\<close>

lemma tdx_appraise_ok:
  assumes "tdx_appraise X D (print_json X (JObj m)) (Some nonce) init_hash = Inr (tcb, adv, td)"
    and "printer_ok X" and "value_ok (JObj m)"
  obtains q c now quote collateral_bin col where
    "map_of m ''quote_b64'' = Some (JStr q)" "map_of m ''collateral_b64'' = Some (JStr c)"
    "b64_decode X q = Some quote" "b64_decode X c = Some collateral_bin"
    "Option.bind (parse_json X collateral_bin) (collateral_of_json D) = Some col"
    "dcap_verify D quote col now = Some (tcb, adv)"
    "Option.bind (quote_parse D quote) (as_td10 D) = Some td"
    "report_data_bound (td_report_data td) nonce"
  using assms
  by (auto simp: tdx_appraise_def tdx_evidence_of_def struct_of_value as_str_Some_iff Option.bind_eq_Some_conv
      split: option.splits if_splits prod.splits)

lemma report_data_bound_iff:
  "report_data_bound rd nonce \<longleftrightarrow> length nonce \<le> length rd \<and> rd = resize (length rd) nonce"
proof (cases "length nonce \<le> length rd")
  case True
  have "rd = resize (length rd) nonce"
    if "take (length nonce) rd = nonce" "\<forall>b\<in>set (drop (length nonce) rd). b = 0"
  proof -
    have "drop (length nonce) rd = replicate (length rd - length nonce) 0"
      using that(2) by (intro replicate_eqI) auto
    then show ?thesis
      using that(1) append_take_drop_id [of "length nonce" rd] True by (simp add: resize_eq)
  qed
  moreover have "take (length nonce) rd = nonce \<and> (\<forall>b\<in>set (drop (length nonce) rd). b = 0)"
    if "rd = nonce @ replicate (length rd - length nonce) 0"
    by (subst (1 2) that) simp
  ultimately show ?thesis using True by (auto simp: report_data_bound_def min_def resize_eq Let_def)
next
  case False
  have "take (length rd) rd \<noteq> nonce" using False by auto
  then show ?thesis using False by (simp add: report_data_bound_def min_def Let_def)
qed

lemma inject_tdx_ok:
  assumes "inject_tdx_collateral X collateral now evidence url = Inr b"
  obtains obj q quote c where "from_slice X evidence = Some (JObj obj)" "map_of obj ''quote_b64'' = Some (JStr q)"
    "b64_decode X q = Some quote" "collateral url quote = Some c"
    "b = print_json X (JObj (obj_insert ''now_secs'' (JNum now)
       (obj_insert ''collateral_b64'' (JStr (b64_encode X (print_json X c))) obj)))"
  using assms by (auto simp: inject_tdx_collateral_def and_then_Inr_iff as_str_Some_iff Option.bind_eq_Some_conv)

lemma tdx_component_says:
  assumes "printer_ok X" and "from_slice X (bytes_of (tdx_evaluate tag X D b rd ini)) = Some claims"
    and "get_str ''verification'' claims = Some ''passed''"
  obtains tcb adv td where "tdx_appraise X D b rd ini = Inr (tcb, adv, td)" "claims = tdx_claims tag X tcb adv td"
proof (cases "tdx_appraise X D b rd ini")
  case (Inl msg)
  let ?e = "jobj [(''tee_type'', JStr tag), (''verification'', JStr ''failed''), (''error'', JStr msg)]"
  have "value_ok ?e" by (rule value_ok_jobj) auto
  then have "claims = ?e"
    using assms(1,2) by (simp add: tdx_evaluate_def Inl tdx_error_def to_string_def)
  then show ?thesis using assms(3) by (simp add: get_str_def)
next
  case (Inr p)
  obtain tcb adv td where p: "p = (tcb, adv, td)" by (cases p)
  show ?thesis
    using assms(1,2) value_ok_tdx_claims [of tag X tcb adv td] Inr p
    by (intro that [of tcb adv td]) (simp_all add: tdx_evaluate_def to_string_def)
qed

text \<open>Everything behind a signed TDX result.\<close>

lemma tdx_verified:
  fixes D :: "('col, 'q) dcap"
  assumes result: "verify W st d req reg = (reg', Inr (ear, cid))"
    and tee: "rq_tee_type req = 4"
    and printer: "printer_ok (w_externals W)"
    and base64: "\<forall>b. b64_decode (w_externals W) (b64_encode (w_externals W) b) = Some b"
    and component: "\<forall>c b rd ini. compiled reg' cid = Some c \<longrightarrow>
        w_run W c b (Some rd) ini = Some (tdx_component (w_externals W) D b (Some rd) ini)"
  obtains quote c col now tcb adv td lifecycle where
    "extract_b64_field (w_externals W) (rq_evidence req) ''quote_b64'' = Inr quote"
    "w_collateral W (pccs_url (tdx_policy st)) quote = Some c"
    "Option.bind (parse_json (w_externals W) (print_json (w_externals W) c)) (collateral_of_json D) = Some col"
    "dcap_verify D quote col now = Some (tcb, adv)"
    "Option.bind (quote_parse D quote) (as_td10 D) = Some td"
    "report_data_bound (td_report_data td) (rq_nonce req)"
    "enforce_tdx_policy (tdx_policy st) (tdx_claims ''tdx'' (w_externals W) tcb adv td) = Inr ()"
    "w_sign W (issue_ear W d Tdx (rq_nonce req) lifecycle cid (tdx_claims ''tdx'' (w_externals W) tcb adv td)) = Some ear"
proof -
  let ?X = "w_externals W" and ?P = "tdx_policy st"
  obtain tee' evidence lifecycle c raw claims where r:
    "check_request req = Inr tee'"
    "evidence_for_wasm W st d tee' (rq_nonce req) (rq_evidence req) = Inr (evidence, lifecycle)"
    "compiled reg' cid = Some c" "w_run W c evidence (Some (rq_nonce req)) (expected_init W st tee') = Some raw"
    "from_slice ?X (bytes_of raw) = Some claims" "get_str ''verification'' claims = Some ''passed''"
    "enforce_policy st tee' claims = Inr ()"
    "w_sign W (issue_ear W d tee' (rq_nonce req) lifecycle cid claims) = Some ear"
    using result by (rule verify_ok)
  have tdx: "tee' = Tdx" using r(1) tee by (simp add: check_request_ok tee_of_i32_def)
  have "inject_tdx_collateral ?X (w_collateral W) (d_fetched_at d) (rq_evidence req) (pccs_url ?P) = Inr evidence"
    using r(2) by (auto simp: tdx evidence_for_wasm_def Let_def and_then_Inr_iff)
  then obtain obj q quote c' where ev: "from_slice ?X (rq_evidence req) = Some (JObj obj)"
    "map_of obj ''quote_b64'' = Some (JStr q)" "b64_decode ?X q = Some quote" "w_collateral W (pccs_url ?P) quote = Some c'"
    "evidence = print_json ?X (JObj (obj_insert ''now_secs'' (JNum (d_fetched_at d))
       (obj_insert ''collateral_b64'' (JStr (b64_encode ?X (print_json ?X c'))) obj)))"
    by (rule inject_tdx_ok)
  have raw: "raw = tdx_evaluate ''tdx'' ?X D evidence (Some (rq_nonce req)) (expected_init W st tee')"
    using component r(3,4) by (simp add: tdx_component_def)
  obtain tcb adv td where passed: "tdx_appraise ?X D evidence (Some (rq_nonce req)) (expected_init W st tee') = Inr (tcb, adv, td)"
    and claims: "claims = tdx_claims ''tdx'' ?X tcb adv td"
    using printer r(5) [unfolded raw] r(6) by (rule tdx_component_says)
  have "value_ok (JObj (obj_insert ''now_secs'' (JNum (d_fetched_at d))
       (obj_insert ''collateral_b64'' (JStr (b64_encode ?X (print_json ?X c'))) obj)))"
    using value_ok_from_slice [OF ev(1)] by (simp add: value_ok_obj_insert)
  from tdx_appraise_ok [OF passed [unfolded ev(5)] printer this]
  obtain q' c'' now quote' cb col where q: "map_of obj ''quote_b64'' = Some (JStr q')"
    "c'' = b64_encode ?X (print_json ?X c')" "b64_decode ?X q' = Some quote'" "b64_decode ?X c'' = Some cb"
    "Option.bind (parse_json ?X cb) (collateral_of_json D) = Some col"
    "dcap_verify D quote' col now = Some (tcb, adv)"
    "Option.bind (quote_parse D quote') (as_td10 D) = Some td"
    "report_data_bound (td_report_data td) (rq_nonce req)" by simp metis
  have same: "quote' = quote" "cb = print_json ?X c'" using q(1-4) ev(2,3) base64 by auto
  have "extract_b64_field ?X (rq_evidence req) ''quote_b64'' = Inr quote"
    using ev(1-3) by (simp add: extract_b64_field_def)
  moreover have "enforce_tdx_policy ?P claims = Inr ()"
    using r(7) by (auto simp: enforce_policy_def tdx and_then_Inr_iff)
  ultimately show ?thesis
    using ev(4) q(5-8) same r(8) that [of quote c' col now tcb adv td lifecycle] by (simp add: claims tdx)
qed

lemma tdx_lists:
  assumes "enforce_tdx_policy P (tdx_claims tag X tcb adv td) = Inr ()"
  shows "trusted_mr_td_hex P = [] \<or>
      (\<exists>s\<in>set (trusted_mr_td_hex P). eq_ignore_ascii_case s (hex_encode X (td_mr_td td)))"
    and "accept_tcb_status P = [] \<or> tcb \<in> set (accept_tcb_status P)"
  using assms
  by (auto simp: enforce_tdx_policy_def match_hex_def tdx_claims_def get_str_def and_then_Inr_iff split: if_splits)


definition toy_dcap :: "(json, byte list) dcap" where
  "toy_dcap = \<lparr>collateral_of_json = Some, dcap_verify = (\<lambda>q col now. Some (''UpToDate'', [])), quote_parse = Some,
     as_td10 = (\<lambda>q. Some \<lparr>td_report_data = resize 64 q, td_mr_config_id = [], td_mr_td = bytes_of ''M'',
       td_mr_seam = [], td_mr_signer_seam = []\<rparr>)\<rparr>"

definition toy_tdx_world where
  "toy_tdx_world = toy_world (\<lambda>c b rd ini. Some (tdx_component toy_json toy_dcap b rd ini)) toy_csv"

definition toy_tdx_app :: "(nat, nat) app_state" where
  "toy_tdx_app = (toy_app [])\<lparr>tdx_policy := tdx_policy_default
     \<lparr>trusted_mr_td_hex := [''m''], accept_tcb_status := [''UpToDate'']\<rparr>\<rparr>"

definition toy_tdx_evidence :: json where
  "toy_tdx_evidence = JObj [(''quote_b64'', JStr ''ab'')]"

lemma toy_tdx_accepted:
  "verify toy_tdx_world toy_tdx_app toy_call (toy_ask 4 toy_tdx_evidence) toy_components =
     (toy_components, Inr (''ab'', ''c''))"
proof -
  let ?r = "toy_ask 4 toy_tdx_evidence" and ?W = toy_tdx_world and ?A = toy_tdx_app
  note sel = toy_tdx_world_def toy_world_def toy_tdx_app_def toy_app_def toy_ask_def toy_call_def tdx_policy_default_def
  have tee: "check_request ?r = Inr Tdx" "resolve_component ?W ?A toy_call ?r toy_components = (toy_components, Inr ''c'')"
    by (simp_all add: check_request_ok toy_ask_def tee_of_i32_def resolve_component_def bytes_of_def)
  have vok: "value_ok (JObj [(''quote_b64'', JStr ''ab'')])" by (simp add: value_ok_JObj)
  have slice: "to_value toy_tdx_evidence = JObj [(''quote_b64'', JStr ''ab'')]"
    unfolding toy_tdx_evidence_def by (rule to_value_ok [OF vok])
  let ?m = "[(''collateral_b64'', JStr (string_of (toy_print JNull))), (''now_secs'', JNum 0), (''quote_b64'', JStr ''ab'')]"
  have ev: "evidence_for_wasm ?W ?A toy_call Tdx (rq_nonce ?r) (rq_evidence ?r) = Inr (toy_print (JObj ?m), None)"
    by (simp add: evidence_for_wasm_def inject_tdx_collateral_def sel slice)
  have m: "value_ok (JObj ?m)" by (simp add: value_ok_JObj)
  let ?td = "\<lparr>td_report_data = resize 64 (bytes_of ''ab''), td_mr_config_id = [], td_mr_td = bytes_of ''M'',
       td_mr_seam = [], td_mr_signer_seam = []\<rparr>"
  have parsed: "tdx_evidence_of (JObj ?m) = Some (''ab'', string_of (toy_print JNull), 0)"
    by (simp add: tdx_evidence_of_def struct_of_def required_def)
  have "report_data_bound (td_report_data ?td) (bytes_of ''ab'')"
    by (simp add: report_data_bound_iff)
  then have appraise: "tdx_appraise toy_json toy_dcap (toy_print (JObj ?m)) (Some (bytes_of ''ab'')) None = Inr (''UpToDate'', [], ?td)"
    by (simp add: tdx_appraise_def parsed) (simp add: toy_dcap_def)
  let ?claims = "tdx_claims ''tdx'' toy_json ''UpToDate'' [] ?td"
  have run: "tdx_component toy_json toy_dcap (toy_print (JObj ?m)) (Some (bytes_of ''ab'')) None = to_string toy_json ?claims"
    by (simp add: tdx_component_def tdx_evaluate_def appraise)
  have fields: "json_get ''error'' ?claims = None" "get_str ''verification'' ?claims = Some ''passed''"
    "get_str ''tee_type'' ?claims = Some ''tdx''" "get_str ''mr_td'' ?claims = Some ''M''"
    "get_str ''tcb_status'' ?claims = Some ''UpToDate''"
    by (simp_all add: get_str_def tdx_claims_def)
  have "evaluate toy_json (w_run ?W) toy_components ''c'' (toy_print (JObj ?m)) (Some (bytes_of ''ab'')) None
      = Inr (''c'', ?claims)"
    using value_ok_tdx_claims [of "''tdx''" toy_json "''UpToDate''" "[]" ?td] fields(1, 2) run
    by (auto simp: evaluate_Inr_iff toy_tdx_world_def toy_world_def toy_components_def to_string_def)
  moreover have hex: "eq_ignore_ascii_case ''m'' ''M''" by code_simp
  moreover have "enforce_policy ?A Tdx ?claims = Inr ()"
    using hex by (simp add: enforce_policy_def fields enforce_tdx_policy_def match_hex_def toy_tdx_app_def tdx_policy_default_def)
  ultimately show ?thesis
    by (simp add: verify_def tee ev) (simp add: sel issue_ear_def expected_init_def)
qed


end
