(* ===== verification/AttestationFacts.thy ===== *)
theory AttestationFacts
  imports Attestation GrpcFacts
begin

text \<open>
  What the relying party may conclude from an accepted run, what it may not, and that an honest
  attester and verifier are accepted.
\<close>

section \<open>The token's members\<close>

lemma json_get_ear [simp]:
  "json_get ''eat_nonce'' (ear_json c) = Some (JStr (eat_nonce c))"
  "json_get ''tee_type'' (ear_json c) = Some (JStr (ear_tee_type c))"
  "json_get ''iat'' (ear_json c) = Some (JNum (ear_iat c))"
  "json_get ''submods'' (ear_json c) = Some (submods c)"
  "json_get ''trust_vector'' (ear_json c) = Some (trust_vector_json (ear_trust_vector c))"
  by (simp_all add: ear_json_def jobj_def map_of_jobj_fold ear_members_def split: option.split)

lemma get_i64_executables [simp]:
  "executables t \<in> {0, 1, 2} \<Longrightarrow> get_i64 ''executables'' (trust_vector_json t) = executables t"
  by (auto simp: get_i64_def trust_vector_json_def)

lemma get_i64_iat: "- (2 ^ 63) \<le> ear_iat c \<Longrightarrow> ear_iat c < 2 ^ 63 \<Longrightarrow> get_i64 ''iat'' (ear_json c) = ear_iat c"
  by (simp add: get_i64_def)

lemma executables_graded: "executables (trust_vector_for tee b l t) \<in> {0, 1, 2}"
  using trust_vector_graded [of tee b l t] by simp

lemma executables_tdx: "2 \<le> executables (trust_vector_for Tdx b l t) \<longleftrightarrow> t = Some ''UpToDate''"
  by (simp add: trust_vector_for_def trust_vector_new_def)

lemma check_ear_issued:
  "check_ear passport now nonce (ear_json (issue_ear W d tee n l cid claims)) = Inr () \<longleftrightarrow>
     (if passport then i64_diff now (get_i64 ''iat'' (ear_json (issue_ear W d tee n l cid claims))) \<le> 300
      else b64url_encode (w_externals W) n = nonce) \<and>
     2 \<le> executables (ear_trust_vector (issue_ear W d tee n l cid claims))"
  using executables_graded
  by (auto simp: check_ear_def and_then_Inr_iff issue_ear_def get_str_def not_less)

section \<open>The run\<close>

lemma attest_ok:
  assumes "attest X P d cli = (out, Inr v)"
  obtains key ear nonce_b64 where "obtain_ear X P d cli = Inr (key, ear, nonce_b64)"
    "pw_jwt_decode P key (trim ear) = Some v"
    "check_ear (is_passport cli) (pd_now d) nonce_b64 v = Inr ()"
  using assms by (auto simp: attest_def and_then_Inr_iff split: sum.splits if_splits)

lemma background_nonce:
  "obtain_ear X P d cli = Inr (key, ear, nonce_b64) \<Longrightarrow> \<not> is_passport cli \<Longrightarrow>
    nonce_b64 = b64url_encode X (pd_nonce d)"
  by (clarsimp simp: obtain_ear_def and_then_Inr_iff Let_def)

lemma attestI:
  assumes "obtain_ear X P d cli = Inr (key, ear, nonce_b64)" "pw_jwt_decode P key (trim ear) = Some v"
    "check_ear (is_passport cli) (pd_now d) nonce_b64 v = Inr ()"
    "\<And>path. cl_ear_out cli = Some path \<Longrightarrow> pw_writable P path"
  shows "attest X P d cli = (map_option (\<lambda>path. (path, ear)) (cl_ear_out cli), Inr v)"
  using assms by (cases "cl_ear_out cli") (simp_all add: attest_def)

text \<open>A result signed in a call of the verifier, as its token decodes.\<close>

lemma verify_issued:
  assumes "verify W st d req reg = (reg', Inr (ear, cid))"
  obtains tee lifecycle claims where
    "check_request req = Inr tee" "value_ok claims"
    "w_sign W (issue_ear W d tee (rq_nonce req) lifecycle cid claims) = Some ear"
  using assms by (rule verify_ok) (auto intro: that value_ok_from_slice)

lemma issue_ear_sel [simp]:
  "submods (issue_ear W d tee n l cid claims) = claims"
  "eat_nonce (issue_ear W d tee n l cid claims) = b64url_encode (w_externals W) n"
  "ear_tee_type (issue_ear W d tee n l cid claims) = tee_type_str tee"
  "ear_iat (issue_ear W d tee n l cid claims) = d_iat d"
  by (simp_all add: issue_ear_def)

section \<open>What an accepted run shows\<close>

text \<open>The key the relying party reads.\<close>

definition party_key where
  "party_key P cli = Option.bind (cl_pubkey cli) (\<lambda>k. Option.bind (pw_read P k) (pw_key P))"

lemma obtain_ear_key: "obtain_ear X P d cli = Inr (key, ear, n) \<Longrightarrow> party_key P cli = Some key"
  by (auto simp: obtain_ear_def party_key_def and_then_Inr_iff Let_def split: if_splits)

text \<open>A call of the verifier handed the token out, leaving these components registered.\<close>

definition handed_out ::
  "('c, 'ta, 'rv, 'ev, 'w, 'r, 'ca, 'cs) world \<Rightarrow> ('ta, 'rv) app_state \<Rightarrow> call_draw \<Rightarrow> verify_request \<Rightarrow>
   'c registry \<Rightarrow> string \<Rightarrow> string \<Rightarrow> bool" where
  "handed_out W st dv r reg' cid ear \<longleftrightarrow> (\<exists>reg. verify W st dv r reg = (reg', Inr (ear, cid)))"

text \<open>The component registered under an id runs as the TDX appraiser of this repository does.\<close>

definition runs_tdx_appraiser ::
  "('c, 'ta, 'rv, 'ev, 'w, 'r, 'ca, 'cs) world \<Rightarrow> ('col, 'q) dcap \<Rightarrow> 'c registry \<Rightarrow> string \<Rightarrow> bool" where
  "runs_tdx_appraiser W D reg cid \<longleftrightarrow> (\<forall>c b rd ini. compiled reg cid = Some c \<longrightarrow>
     w_run W c b (Some rd) ini = Some (tdx_component (w_externals W) D b (Some rd) ini))"

lemma tdx_affirmed:
  fixes W :: "('c, 'ta, 'rv, 'ev, 'w, 'r, 'ca, 'cs) world" and D :: "('col, 'q) dcap"
  assumes handed: "handed_out W st dv r reg' cid ear" and runs: "runs_tdx_appraiser W D reg' cid" and tee: "rq_tee_type r = 4"
    and printer: "printer_ok (w_externals W)"
    and base64: "\<forall>b. b64_decode (w_externals W) (b64_encode (w_externals W) b) = Some b"
    and v: "\<forall>c. w_sign W c = Some ear \<longrightarrow> v = ear_json c"
    and checked: "check_ear passport now n v = Inr ()"
  shows "\<exists>quote col at adv td. extract_b64_field (w_externals W) (rq_evidence r) ''quote_b64'' = Inr quote \<and>
     dcap_verify D quote col at = Some (''UpToDate'', adv) \<and> Option.bind (quote_parse D quote) (as_td10 D) = Some td \<and>
     td_report_data td = resize (length (td_report_data td)) (rq_nonce r) \<and>
     (trusted_mr_td_hex (tdx_policy st) = [] \<or> (\<exists>s\<in>set (trusted_mr_td_hex (tdx_policy st)).
        eq_ignore_ascii_case s (hex_encode (w_externals W) (td_mr_td td))))"
proof -
  let ?X = "w_externals W"
  obtain reg where call: "verify W st dv r reg = (reg', Inr (ear, cid))" using handed by (auto simp: handed_out_def)
  have genuine: "\<forall>c b rd ini. compiled reg' cid = Some c \<longrightarrow>
      w_run W c b (Some rd) ini = Some (tdx_component ?X D b (Some rd) ini)"
    using runs by (simp add: runs_tdx_appraiser_def)
  obtain quote c col at tcb adv td l where q:
    "extract_b64_field ?X (rq_evidence r) ''quote_b64'' = Inr quote"
    "w_collateral W (pccs_url (tdx_policy st)) quote = Some c"
    "Option.bind (parse_json ?X (print_json ?X c)) (collateral_of_json D) = Some col"
    "dcap_verify D quote col at = Some (tcb, adv)"
    "Option.bind (quote_parse D quote) (as_td10 D) = Some td"
    "report_data_bound (td_report_data td) (rq_nonce r)"
    "enforce_tdx_policy (tdx_policy st) (tdx_claims ''tdx'' ?X tcb adv td) = Inr ()"
    "w_sign W (issue_ear W dv Tdx (rq_nonce r) l cid (tdx_claims ''tdx'' ?X tcb adv td)) = Some ear"
    using call tee printer base64 genuine by (rule tdx_verified)
  have "tcb = ''UpToDate''"
    using checked unfolding v [rule_format, OF q(8)] check_ear_issued
    by (simp add: issue_ear_def executables_tdx tdx_claims_def get_str_def)
  then show ?thesis
    using q(1,4,5) q(6) [unfolded report_data_bound_iff] tdx_lists(1) [OF q(7)] by blast
qed

text \<open>
  C5. The relying party's own conclusion from an accepted background-check run, whoever is at the
  other end of its plain connections. Besides the round trips of JSON and base64, two things are assumed
  of the key it reads: every token that
  decodes under it was handed out in a call of the verifier, whose component was this repository's TDX
  appraiser if the call was for TDX; and decoding gives the claims that were signed. Then one of these
  calls had exactly this run's random nonce, and the printed claims name the TEE type of that call. When
  they say \<open>tdx\<close>, the certificate chain accepted a quote with the status \<open>UpToDate\<close>, its report data is
  this run's nonce, cut or filled with zeros to the length of the field, and its measurement is in the
  verifier's list unless that list is empty, which admits every measurement and is the default.
\<close>
theorem accepted_result_is_fresh:
  fixes W :: "('c, 'ta, 'rv, 'ev, 'w, 'r, 'ca, 'cs) world" and D :: "('col, 'q) dcap"
  assumes accepted: "attest (w_externals W) P d cli = (out, Inr v)"
    and background: "\<not> is_passport cli"
    and unforgeable: "\<And>key t v. party_key P cli = Some key \<Longrightarrow> pw_jwt_decode P key t = Some v \<Longrightarrow>
        \<exists>dv r reg' cid ear. handed_out W st dv r reg' cid ear \<and> trim ear = t \<and>
          (rq_tee_type r = 4 \<longrightarrow> runs_tdx_appraiser W D reg' cid)"
    and decodes: "\<And>key c t v. party_key P cli = Some key \<Longrightarrow> w_sign W c = Some t \<Longrightarrow>
        pw_jwt_decode P key (trim t) = Some v \<Longrightarrow> v = ear_json c"
    and printer: "printer_ok (w_externals W)"
    and base64: "\<And>b. b64_decode (w_externals W) (b64_encode (w_externals W) b) = Some b"
    and base64url: "\<And>a b. b64url_encode (w_externals W) a = b64url_encode (w_externals W) b \<Longrightarrow> a = b"
  shows "\<exists>dv r reg' cid ear tee. handed_out W st dv r reg' cid ear \<and> rq_nonce r = pd_nonce d \<and>
     tee_of_i32 (rq_tee_type r) = Some tee \<and> get_str ''tee_type'' v = Some (tee_type_str tee) \<and>
     (get_str ''tee_type'' v = Some ''tdx'' \<longrightarrow>
       (\<exists>quote col now adv td. extract_b64_field (w_externals W) (rq_evidence r) ''quote_b64'' = Inr quote \<and>
          dcap_verify D quote col now = Some (''UpToDate'', adv) \<and>
          Option.bind (quote_parse D quote) (as_td10 D) = Some td \<and>
          td_report_data td = resize (length (td_report_data td)) (pd_nonce d) \<and>
          (trusted_mr_td_hex (tdx_policy st) = [] \<or> (\<exists>s\<in>set (trusted_mr_td_hex (tdx_policy st)).
             eq_ignore_ascii_case s (hex_encode (w_externals W) (td_mr_td td))))))"
proof -
  let ?X = "w_externals W"
  obtain key ear0 n where run: "obtain_ear ?X P d cli = Inr (key, ear0, n)"
    "pw_jwt_decode P key (trim ear0) = Some v" "check_ear (is_passport cli) (pd_now d) n v = Inr ()"
    using accepted by (rule attest_ok)
  note key = obtain_ear_key [OF run(1)]
  obtain dv r reg' cid ear where given: "handed_out W st dv r reg' cid ear" "trim ear = trim ear0"
    "rq_tee_type r = 4 \<longrightarrow> runs_tdx_appraiser W D reg' cid"
    using unforgeable [OF key run(2)] by blast
  then obtain reg where call: "verify W st dv r reg = (reg', Inr (ear, cid))"
    by (auto simp: handed_out_def)
  obtain tee l claims where tee: "check_request r = Inr tee"
    and signs: "w_sign W (issue_ear W dv tee (rq_nonce r) l cid claims) = Some ear"
    using call by (rule verify_issued)
  have all: "\<forall>c. w_sign W c = Some ear \<longrightarrow> v = ear_json c"
    using decodes [OF key] run(2) given(2) by auto
  note v = all [rule_format, OF signs]
  have nonce: "rq_nonce r = pd_nonce d"
    using run(3) background base64url background_nonce [OF run(1) background]
    by (simp add: v check_ear_issued)
  have type: "get_str ''tee_type'' v = Some (tee_type_str tee)" by (simp add: get_str_def v)
  have tdx: "rq_tee_type r = 4" if "get_str ''tee_type'' v = Some ''tdx''"
    using that type tee by (cases tee) (auto simp: check_request_ok dest: tee_of_i32_eq)
  note quote = tdx_affirmed [where D = D, OF given(1) _ tdx printer allI [OF base64] all run(3), unfolded nonce]
  have "tee_of_i32 (rq_tee_type r) = Some tee" using tee by (simp add: check_request_ok)
  moreover have "get_str ''tee_type'' v = Some ''tdx'' \<Longrightarrow> runs_tdx_appraiser W D reg' cid" using tdx given(3) by simp
  ultimately show ?thesis using given(1) nonce type quote by blast
qed

text \<open>The call is the same whatever key the result is signed with.\<close>

lemma resigned [simp]:
  "resolve_component (W\<lparr>w_sign := f\<rparr>) st d req reg = resolve_component W st d req reg"
  "evidence_for_wasm (W\<lparr>w_sign := f\<rparr>) st d tee nonce ev = evidence_for_wasm W st d tee nonce ev"
  "expected_init (W\<lparr>w_sign := f\<rparr>) st tee = expected_init W st tee"
  by (simp_all add: resolve_component_def evidence_for_wasm_def cca_evidence_def csv_evidence_def expected_init_def
      Let_def cong: option.case_cong wasm_ref.case_cong list.case_cong)

lemma verify_resigned:
  assumes "verify W st d req reg = (reg', Inr (ear, cid))" and "\<And>c. f c \<noteq> None"
  shows "\<exists>ear'. verify (W\<lparr>w_sign := f\<rparr>) st d req reg = (reg', Inr (ear', cid))"
  using assms(1)
proof (rule verify_ok)
  fix tee evidence lifecycle component raw claims
  assume r: "check_request req = Inr tee" "resolve_component W st d req reg = (reg', Inr cid)"
    "evidence_for_wasm W st d tee (rq_nonce req) (rq_evidence req) = Inr (evidence, lifecycle)"
    "compiled reg' cid = Some component"
    "w_run W component evidence (Some (rq_nonce req)) (expected_init W st tee) = Some raw"
    "from_slice (w_externals W) (bytes_of raw) = Some claims" "json_get ''error'' claims = None"
    "get_str ''verification'' claims = Some ''passed''" "enforce_policy st tee claims = Inr ()"
  have "evaluate (w_externals W) (w_run W) reg' cid evidence (Some (rq_nonce req)) (expected_init W st tee) = Inr (cid, claims)"
    using r(4-8) by (auto simp: evaluate_Inr_iff)
  moreover obtain ear' where "f (issue_ear (W\<lparr>w_sign := f\<rparr>) d tee (rq_nonce req) lifecycle cid claims) = Some ear'"
    using assms(2) by blast
  ultimately show ?thesis using r(1-3,9) by (simp add: verify_def)
qed

definition toy_jwt :: "ear_claims \<Rightarrow> string option" where
  "toy_jwt c = Some (''j'' @ string_of (toy_print (ear_json c)) @ ''j'')"

lemma trim_toy_jwt: "toy_jwt c = Some t \<Longrightarrow> trim t = t"
  by (rule trim_tight) (auto simp: toy_jwt_def white_space_def)

lemma string_of_inject: "string_of a = string_of b \<Longrightarrow> a = b"
  by (drule arg_cong [of _ _ bytes_of]) simp

lemma toy_jwt_inject:
  assumes "toy_jwt a = Some t" and "toy_jwt b = Some t"
  shows "ear_json a = ear_json b"
proof -
  have "string_of (toy_print (ear_json a)) = string_of (toy_print (ear_json b))"
    using assms [symmetric] by (simp add: toy_jwt_def)
  then have "toy_print (ear_json a) = toy_print (ear_json b)" by (rule string_of_inject)
  then have "Some (ear_json a) = Some (ear_json b)" by (metis toy_parse_print)
  then show ?thesis by simp
qed

definition toy_cli :: party_cli where
  "toy_cli = \<lparr>cl_attester = Some ''a'', cl_verifier = Some ''v'', cl_tee_type = Some Tdx, cl_pubkey = Some ''k'',
     cl_mode = ''background-check'', cl_ear_out = None\<rparr>"

text \<open>The key decodes one token; the attester and the verifier answer as if from a recording.\<close>

definition toy_party :: "string \<Rightarrow> json \<Rightarrow> unit party_world" where
  "toy_party ear v = \<lparr>pw_read = (\<lambda>p. Some []), pw_key = (\<lambda>b. Some ()),
     pw_attester = (\<lambda>a. Some (\<lambda>q. Inr \<lparr>gr_evidence = [], gr_wasm_component = [], gr_generated_nonce = [], gr_ear = ear\<rparr>)),
     pw_verifier = (\<lambda>a. Some (\<lambda>q. Inr (ear, ''c''))), pw_writable = (\<lambda>p. True),
     pw_jwt_decode = (\<lambda>k t. if t = ear then Some v else None)\<rparr>"

definition toy_signing_world where
  "toy_signing_world = toy_tdx_world\<lparr>w_sign := toy_jwt\<rparr>"

lemma toy_signing_sel [simp]:
  "w_externals toy_signing_world = toy_json" "w_sign toy_signing_world = toy_jwt"
  "w_run toy_signing_world c b rd ini = Some (tdx_component toy_json toy_dcap b rd ini)"
  by (simp_all add: toy_signing_world_def toy_tdx_world_def toy_world_def)

lemma toy_tdx_token:
  obtains ear c where "handed_out toy_signing_world toy_tdx_app toy_call (toy_ask 4 toy_tdx_evidence) toy_components ''c'' ear"
    "runs_tdx_appraiser toy_signing_world toy_dcap toy_components ''c''" "toy_jwt c = Some ear" "trim ear = ear" "check_ear False now ''ab'' (ear_json c) = Inr ()"
proof -
  let ?r = "toy_ask 4 toy_tdx_evidence" and ?W = toy_signing_world
  have "\<And>c. toy_jwt c \<noteq> None" by (simp add: toy_jwt_def)
  from verify_resigned [of _ _ _ _ _ _ _ _ toy_jwt, OF toy_tdx_accepted this]
  obtain ear where call: "verify ?W toy_tdx_app toy_call ?r toy_components = (toy_components, Inr (ear, ''c''))"
    unfolding toy_signing_world_def by blast
  have tee: "rq_tee_type ?r = 4" and nonce: "rq_nonce ?r = bytes_of ''ab''" by (simp_all add: toy_ask_def)
  have run: "\<forall>c b rd ini. compiled toy_components ''c'' = Some c \<longrightarrow>
      w_run ?W c b (Some rd) ini = Some (tdx_component (w_externals ?W) toy_dcap b (Some rd) ini)" by simp
  have base64: "\<forall>b. b64_decode (w_externals ?W) (b64_encode (w_externals ?W) b) = Some b" by simp
  obtain quote c col now tcb adv td l where v:
    "extract_b64_field (w_externals ?W) (rq_evidence ?r) ''quote_b64'' = Inr quote"
    "w_collateral ?W (pccs_url (tdx_policy toy_tdx_app)) quote = Some c"
    "Option.bind (parse_json (w_externals ?W) (print_json (w_externals ?W) c)) (collateral_of_json toy_dcap) = Some col"
    "dcap_verify toy_dcap quote col now = Some (tcb, adv)"
    "Option.bind (quote_parse toy_dcap quote) (as_td10 toy_dcap) = Some td"
    "report_data_bound (td_report_data td) (rq_nonce ?r)"
    "enforce_tdx_policy (tdx_policy toy_tdx_app) (tdx_claims ''tdx'' (w_externals ?W) tcb adv td) = Inr ()"
    "w_sign ?W (issue_ear ?W toy_call Tdx (rq_nonce ?r) l ''c'' (tdx_claims ''tdx'' (w_externals ?W) tcb adv td)) = Some ear"
    using call tee _ base64 run by (rule tdx_verified) simp
  let ?c = "issue_ear ?W toy_call Tdx (rq_nonce ?r) l ''c'' (tdx_claims ''tdx'' toy_json tcb adv td)"
  have "tcb = ''UpToDate''"
    using tdx_lists(2) [OF v(7)] by (simp add: toy_tdx_app_def tdx_policy_default_def)
  then have "check_ear False now' ''ab'' (ear_json ?c) = Inr ()" for now'
    by (simp add: check_ear_issued executables_tdx nonce) (simp add: issue_ear_def executables_tdx tdx_claims_def get_str_def)
  moreover have "handed_out ?W toy_tdx_app toy_call ?r toy_components ''c'' ear" "runs_tdx_appraiser ?W toy_dcap toy_components ''c''"
    using call run by (auto simp: handed_out_def runs_tdx_appraiser_def)
  moreover have "toy_jwt ?c = Some ear" using v(8) by simp
  ultimately show ?thesis using trim_toy_jwt that by blast
qed

theorem accepted_result_is_fresh_witness:
  "\<exists>ear v. attest toy_json (toy_party ear v) \<lparr>pd_nonce = bytes_of ''ab'', pd_now = 0\<rparr> toy_cli = (None, Inr v) \<and>
     (\<exists>dv r reg cid ear tee. handed_out toy_signing_world toy_tdx_app dv r reg cid ear \<and> rq_nonce r = bytes_of ''ab'' \<and>
        tee_of_i32 (rq_tee_type r) = Some tee \<and> get_str ''tee_type'' v = Some (tee_type_str tee))"
proof -
  let ?d = "\<lparr>pd_nonce = bytes_of ''ab'', pd_now = 0\<rparr>"
  obtain ear c where t: "handed_out toy_signing_world toy_tdx_app toy_call (toy_ask 4 toy_tdx_evidence) toy_components ''c'' ear"
    "runs_tdx_appraiser toy_signing_world toy_dcap toy_components ''c''" "toy_jwt c = Some ear" "trim ear = ear" "check_ear False 0 ''ab'' (ear_json c) = Inr ()"
    by (rule toy_tdx_token)
  let ?P = "toy_party ear (ear_json c)"
  have "obtain_ear toy_json ?P ?d toy_cli = Inr ((), ear, ''ab'')" and mode: "\<not> is_passport toy_cli"
    by (simp_all add: obtain_ear_def toy_party_def toy_cli_def call_def is_passport_def)
  then have run: "attest toy_json ?P ?d toy_cli = (None, Inr (ear_json c))"
    using t(4,5) by (subst attestI) (auto simp: toy_party_def toy_cli_def is_passport_def)
  have "\<exists>dv r reg cid ear'. handed_out toy_signing_world toy_tdx_app dv r reg cid ear' \<and> trim ear' = t' \<and>
      (rq_tee_type r = 4 \<longrightarrow> runs_tdx_appraiser toy_signing_world toy_dcap reg cid)"
    if "pw_jwt_decode ?P key t' = Some v" for key t' v
    using that t(1,2,4) by (intro exI [of _ toy_call] exI [of _ "toy_ask 4 toy_tdx_evidence"] exI [of _ toy_components]
        exI [of _ "''c''"] exI [of _ ear]) (auto simp: toy_party_def split: if_splits)
  moreover have "v = ear_json c'"
    if "toy_jwt c' = Some t'" "pw_jwt_decode ?P key (trim t') = Some v" for key c' t' v
    using that t(3) trim_toy_jwt [OF that(1)] toy_jwt_inject [of c' ear c]
    by (auto simp: toy_party_def split: if_splits)
  ultimately show ?thesis
    using accepted_result_is_fresh [of toy_signing_world ?P ?d toy_cli None "ear_json c" toy_tdx_app toy_dcap] run mode string_of_inject
    by (intro exI [of _ ear] exI [of _ "ear_json c"]) (simp, blast)
qed

section \<open>What a passport run does not show\<close>

lemma obtain_ear_passport:
  assumes "cl_attester cli = Some a" "cl_verifier cli = Some vr" "cl_tee_type cli = Some asked"
    "cl_pubkey cli = Some k" "is_passport cli" "pw_read P k = Some pem" "pw_key P pem = Some key"
    "pw_attester P a = Some att"
    "att \<lparr>gq_tee_type = i32_of_tee asked, gq_nonce = [], gq_mode = 1\<rparr> = Inr resp" "gr_ear resp \<noteq> []"
  shows "obtain_ear X P d cli = Inr (key, gr_ear resp, b64url_encode X (gr_generated_nonce resp))"
  using assms by (simp add: obtain_ear_def call_def)

lemma executables_not_tdx: "tee \<notin> {Tdx, TdxHydra} \<Longrightarrow> executables (trust_vector_for tee b l t) = 2"
  by (simp add: trust_vector_for_def trust_vector_new_def affirming_def)

text \<open>
  C16. In a passport run the relying party checks neither the TEE type it asked for nor any nonce: every
  result the verifier has signed within the last 300 seconds, for evidence of any type but TDX and
  for whatever nonce, is accepted in every run, whatever type the user asked for. So a mock result
  passes for a TDX one, and one result passes any number of times.
\<close>
theorem passport_ignores_type_and_nonce:
  fixes W :: "('c, 'ta, 'rv, 'ev, 'w, 'r, 'ca, 'cs) world"
  assumes asks: "cl_attester cli = Some a" "cl_verifier cli = Some vr" "cl_tee_type cli = Some asked"
      "cl_pubkey cli = Some k" "is_passport cli" "cl_ear_out cli = None"
    and key: "pw_read P k = Some pem" "pw_key P pem = Some key"
    and answer: "pw_attester P a = Some att"
      "att \<lparr>gq_tee_type = i32_of_tee asked, gq_nonce = [], gq_mode = 1\<rparr> = Inr resp" "gr_ear resp \<noteq> []"
    and issued: "verify W st dv r reg = (reg', Inr (gr_ear resp, cid))"
      "tee_of_i32 (rq_tee_type r) = Some other" "other \<notin> {Tdx, TdxHydra}"
    and recent: "0 \<le> d_iat dv" "d_iat dv < 2 ^ 63" "i64_diff (pd_now d) (d_iat dv) \<le> 300"
    and decodes: "\<And>c t. w_sign W c = Some t \<Longrightarrow> value_ok (submods c) \<Longrightarrow> pw_jwt_decode P key (trim t) = Some (ear_json c)"
  shows "\<exists>v. attest X P d cli = (None, Inr v) \<and> get_str ''tee_type'' v = Some (tee_type_str other)"
proof -
  obtain tee l claims where tee: "check_request r = Inr tee" "value_ok claims"
    and signs: "w_sign W (issue_ear W dv tee (rq_nonce r) l cid claims) = Some (gr_ear resp)"
    using issued(1) by (rule verify_issued)
  let ?c = "issue_ear W dv tee (rq_nonce r) l cid claims"
  have other: "tee = other" using tee issued(2) by (simp add: check_request_ok)
  have iat: "get_i64 ''iat'' (ear_json ?c) = d_iat dv" using recent by (simp add: get_i64_iat)
  have "2 \<le> executables (ear_trust_vector ?c)"
    using executables_not_tdx [OF issued(3)] by (simp add: issue_ear_def other)
  then have "check_ear (is_passport cli) (pd_now d) n (ear_json ?c) = Inr ()" for n
    using asks(5) recent(3) iat by (simp only: check_ear_issued) simp
  moreover have "pw_jwt_decode P key (trim (gr_ear resp)) = Some (ear_json ?c)"
    using decodes [OF signs] tee(2) by simp
  ultimately have "attest X P d cli = (None, Inr (ear_json ?c))"
    using obtain_ear_passport [OF asks(1-5) key answer] asks(6) by (subst attestI) auto
  then show ?thesis by (intro exI [of _ "ear_json ?c"]) (simp add: get_str_def other)
qed

text \<open>A relying party asks for TDX and is given what the verifier signed for a CCA token.\<close>

definition toy_cca_signing_world where
  "toy_cca_signing_world = toy_cca_world\<lparr>w_sign := toy_jwt\<rparr>"

definition toy_passport_cli :: party_cli where
  "toy_passport_cli = toy_cli\<lparr>cl_mode := ''passport''\<rparr>"

text \<open>A key that decodes every token signed in \<open>toy_cca_signing_world\<close>.\<close>

definition toy_decode :: "string \<Rightarrow> json option" where
  "toy_decode t = toy_parse (bytes_of (butlast (tl t)))"

definition toy_open_party :: "string \<Rightarrow> unit party_world" where
  "toy_open_party ear = (toy_party ear JNull)\<lparr>pw_jwt_decode := (\<lambda>k t. toy_decode t)\<rparr>"

lemma toy_decode: "toy_jwt c = Some t \<Longrightarrow> toy_decode (trim t) = Some (ear_json c)"
proof -
  assume t: "toy_jwt c = Some t"
  have "toy_decode t = Some (ear_json c)"
    using t toy_parse_print [of "ear_json c"] by (auto simp: toy_jwt_def toy_decode_def toy_json_def)
  then show ?thesis by (simp add: trim_toy_jwt [OF t])
qed

theorem passport_ignores_type_and_nonce_witness:
  "\<exists>ear v. attest toy_json (toy_open_party ear) \<lparr>pd_nonce = [], pd_now = 300\<rparr> toy_passport_cli = (None, Inr v) \<and>
     cl_tee_type toy_passport_cli = Some Tdx \<and> get_str ''tee_type'' v = Some ''cca''"
proof -
  have "\<And>c. toy_jwt c \<noteq> None" by (simp add: toy_jwt_def)
  from verify_resigned [of _ _ _ _ _ _ _ _ toy_jwt, OF toy_cca_accepted this]
  obtain ear where call: "verify toy_cca_signing_world (toy_app [''R'']) toy_call (toy_ask 2 toy_cca_evidence) toy_components
      = (toy_components, Inr (ear, ''c''))"
    unfolding toy_cca_signing_world_def by blast
  obtain c where "toy_jwt c = Some ear"
    using call by (rule verify_issued) (auto simp: toy_cca_signing_world_def)
  then have ear: "ear \<noteq> []" by (auto simp: toy_jwt_def)
  have diff: "i64_diff 300 0 \<le> 300" by (simp add: i64_diff_def)
  have "\<exists>v. attest toy_json (toy_open_party ear) \<lparr>pd_nonce = [], pd_now = 300\<rparr> toy_passport_cli = (None, Inr v) \<and>
      get_str ''tee_type'' v = Some (tee_type_str Cca)"
    by (rule passport_ignores_type_and_nonce [where W = toy_cca_signing_world and st = "toy_app [''R'']"
          and dv = toy_call and r = "toy_ask 2 toy_cca_evidence" and reg = toy_components and reg' = toy_components
          and cid = "''c''" and resp = "\<lparr>gr_evidence = [], gr_wasm_component = [], gr_generated_nonce = [], gr_ear = ear\<rparr>"
          and asked = Tdx and key = "()" and a = "''a''" and vr = "''v''" and k = "''k''" and pem = "[]"
          and att = "\<lambda>q. Inr \<lparr>gr_evidence = [], gr_wasm_component = [], gr_generated_nonce = [], gr_ear = ear\<rparr>"])
       (use call ear diff toy_decode in \<open>auto simp: toy_passport_cli_def toy_cli_def is_passport_def toy_open_party_def
          toy_party_def toy_call_def toy_ask_def tee_of_i32_def toy_cca_signing_world_def\<close>)
  then show ?thesis by (auto simp: toy_passport_cli_def toy_cli_def)
qed

end
