(* ===== verification/HonestAttestation.thy ===== *)
theory HonestAttestation
  imports AttestationFacts
begin

text \<open>
  An honest attester, verifier and relying party put together: the evidence the attester builds
  from a CCA token passes the verifier's host checks, its component, its policy and its signature,
  and the relying party accepts the result, in a background-check run and in a passport run.
\<close>

section \<open>The component\<close>

lemma register_gives:
  assumes "hash_allowed h (sha256_hex X b)" "compile b = Some c" "saved"
    and known: "\<And>cid. by_hash reg (sha256_hex X b) = Some cid \<Longrightarrow> compiled reg cid = Some c"
  obtains reg' cid where "register X compile h uuid saved b reg = (reg', Inr cid)" "compiled reg' cid = Some c"
proof (cases "by_hash reg (sha256_hex X b)")
  case None
  then have "register X compile h uuid saved b reg =
      (let r = reg\<lparr>uuids := uuid # uuids reg, files := (files reg)(uuid \<mapsto> b)\<rparr> in
       (r\<lparr>by_id := (by_id r)(uuid \<mapsto> sha256_hex X b), by_hash := (by_hash r)(sha256_hex X b \<mapsto> uuid),
          compiled := (compiled r)(uuid \<mapsto> c)\<rparr>, Inr uuid))"
    using assms(1-3) by (auto simp: register_def register_begin_def register_commit_def hash_allowed_def Let_def)
  from this [unfolded Let_def] show ?thesis by (rule that) simp
next
  case (Some cid)
  then have "register X compile h uuid saved b reg = (reg, Inr cid)"
    using assms(1) by (auto simp: register_def register_begin_def hash_allowed_def Let_def)
  then show ?thesis using known [OF Some] by (rule that)
qed

text \<open>Evidence that carries the expected nonce passes the CCA component.\<close>

lemma cca_component_passes:
  assumes printer: "printer_ok X" and m: "value_ok (JObj m)"
    and members: "map_of m ''cca_token_b64'' = Some (JStr tb)" "map_of m ''nonce'' = Some (JStr (b64url_encode X nonce))"
    and token: "b64_decode X tb = Some token"
  shows "\<exists>claims. cca_component X (print_json X (JObj m)) (Some nonce) = to_string X claims \<and> value_ok claims \<and>
     claims = cca_claims ''cca'' True (length token) (JObj m)"
proof -
  have read: "parse_json X (print_json X (JObj m)) = Some (JObj m)" "full_evidence X (print_json X (JObj m)) = JObj m"
    using printer m by (simp_all add: full_evidence_def)
  have "cca_evidence_of (JObj m) = Some (tb, b64url_encode X nonce)"
    using m members by (simp add: cca_evidence_of_def struct_of_value required_def)
  then show ?thesis
    using read token value_ok_cca_claims [of "''cca''" True "length token" X "print_json X (JObj m)"]
    by (simp add: cca_component_def cca_evaluate_def nonce_matches_def)
qed

lemma cca_claims_passed:
  "json_get ''error'' (cca_claims tag True n (JObj m)) = None"
  "get_str ''verification'' (cca_claims tag True n (JObj m)) = Some ''passed''"
  "get_str ''tee_type'' (cca_claims tag True n (JObj m)) = Some tag"
  by (simp_all add: get_str_def json_get_cca_claims cca_keys_def map_of_base_claims verdict_def)

lemma cca_claims_rim:
  "map_of m ''cca_realm_initial_measurement'' = Some (JStr s) \<Longrightarrow>
    get_str ''cca_realm_initial_measurement'' (cca_claims tag True n (JObj m)) = Some s"
  by (simp add: get_str_def json_get_cca_claims cca_keys_def)

section \<open>The verifier's answer\<close>

text \<open>A token the host's checks and the configured policy accept for a nonce.\<close>

definition good_token where
  "good_token W st v nonce token \<longleftrightarrow> (\<exists>e0 e1 e. token_decode (w_ccatoken W) token = Some e0 \<and>
     token_verify (w_ccatoken W) (tas v) e0 = Some e1 \<and> token_appraise (w_ccatoken W) (rvs v) e1 = Some e \<and>
     realm_affirming (w_ccatoken W) e \<and> realm_challenge (w_ccatoken W) e = resize 64 nonce \<and>
     (trusted_rim_hex (cca_policy st) \<noteq> [] \<longrightarrow> realm_rim (w_ccatoken W) e \<noteq> [] \<and>
        (\<exists>s\<in>set (trusted_rim_hex (cca_policy st)).
           eq_ignore_ascii_case s (hex_encode (w_externals W) (realm_rim (w_ccatoken W) e)))))"

text \<open>A verifier that has a trust anchor store and takes the attester's CCA component.\<close>

definition verifier_ready where
  "verifier_ready W st d wasm v reg \<longleftrightarrow> cca_verifier st = Some v \<and> trusted_subjects (cca_policy st) = [] \<and>
     hash_allowed (host st) (sha256_hex (w_externals W) wasm) \<and> d_saved d \<and> (\<forall>k. w_sign W k \<noteq> None) \<and>
     (\<exists>c. w_compile W wasm = Some c \<and>
        (\<forall>cid. by_hash reg (sha256_hex (w_externals W) wasm) = Some cid \<longrightarrow> compiled reg cid = Some c) \<and>
        (\<forall>b rd ini. w_run W c b (Some rd) ini = Some (cca_component (w_externals W) b (Some rd))))"

definition cca_part :: "externals \<Rightarrow> byte list \<Rightarrow> byte list \<Rightarrow> (string \<times> json) list" where
  "cca_part X token nonce = [(''cca_token_b64'', JStr (b64_encode X token)), (''nonce'', JStr (b64url_encode X nonce))]"

lemma cca_part_ok: "value_ok (JObj (cca_part X token nonce))"
  by (simp add: cca_part_def value_ok_JObj)

lemma jobj_cca_part:
  "jobj [(''cca_token_b64'', JStr (b64_encode X token)), (''nonce'', JStr (b64url_encode X nonce))] =
     JObj (cca_part X token nonce)"
  by (simp add: jobj_def cca_part_def)

lemma good_token_verified:
  assumes "good_token W st v nonce token"
  obtains e result where "cca_verify (w_externals W) (w_ccatoken W) v token (resize 64 nonce) = Inr result"
    "realm_initial_measurement result = (if realm_rim (w_ccatoken W) e \<noteq> []
       then Some (hex_encode (w_externals W) (realm_rim (w_ccatoken W) e)) else None)"
    "trusted_rim_hex (cca_policy st) \<noteq> [] \<longrightarrow> realm_rim (w_ccatoken W) e \<noteq> [] \<and>
        (\<exists>s\<in>set (trusted_rim_hex (cca_policy st)).
           eq_ignore_ascii_case s (hex_encode (w_externals W) (realm_rim (w_ccatoken W) e)))"
  using assms unfolding good_token_def by (elim exE conjE) (rule that, auto simp: cca_verify_def)

lemma cca_evidence_built:
  assumes printer: "printer_ok (w_externals W)"
    and base64: "b64_decode (w_externals W) (b64_encode (w_externals W) token) = Some token"
    and v: "cca_verifier st = Some v"
    and host: "cca_verify (w_externals W) (w_ccatoken W) v token (resize 64 nonce) = Inr result"
  shows "evidence_for_wasm W st d Cca nonce (print_json (w_externals W) (JObj (cca_part (w_externals W) token nonce))) =
    Inr (print_json (w_externals W) (JObj (inject_cca_claims result (cca_part (w_externals W) token nonce))),
      cca_platform_lifecycle result)"
proof -
  let ?X = "w_externals W"
  have slice: "from_slice ?X (print_json ?X (JObj (cca_part ?X token nonce))) = Some (JObj (cca_part ?X token nonce))"
    using printer cca_part_ok by simp
  then have "extract_b64_field ?X (print_json ?X (JObj (cca_part ?X token nonce))) ''cca_token_b64'' = Inr token"
    using base64 by (simp add: extract_b64_field_def) (simp add: cca_part_def)
  then show ?thesis using slice v host by (simp add: evidence_for_wasm_def cca_evidence_def Let_def)
qed

lemma cca_policy_met:
  assumes "trusted_subjects P = []"
    and "trusted_rim_hex P \<noteq> [] \<longrightarrow> (\<exists>rim. get_str ''cca_realm_initial_measurement'' claims = Some rim \<and>
        (\<exists>s\<in>set (trusted_rim_hex P). eq_ignore_ascii_case s rim))"
  shows "enforce_cca_policy P claims = Inr ()"
  using assms by (auto simp: enforce_cca_policy_def bail_unless_def)

lemma cca_call_succeeds:
  assumes ready: "verifier_ready W st d wasm v reg" and token: "good_token W st v nonce token" and nonce: "nonce \<noteq> []"
    and printer: "printer_ok (w_externals W)"
    and base64: "b64_decode (w_externals W) (b64_encode (w_externals W) token) = Some token"
  shows "\<exists>reg' ear cid. verify W st d \<lparr>rq_tee_type = 2, rq_nonce = nonce,
      rq_evidence = print_json (w_externals W) (JObj (cca_part (w_externals W) token nonce)),
      rq_wasm = Some (WasmComponent wasm)\<rparr> reg = (reg', Inr (ear, cid))"
proof -
  let ?X = "w_externals W" and ?m = "cca_part (w_externals W) token nonce" and ?rim = "''cca_realm_initial_measurement''"
  let ?req = "\<lparr>rq_tee_type = 2, rq_nonce = nonce, rq_evidence = print_json ?X (JObj ?m), rq_wasm = Some (WasmComponent wasm)\<rparr>"
  obtain e result where host: "cca_verify ?X (w_ccatoken W) v token (resize 64 nonce) = Inr result"
    and rim: "realm_initial_measurement result = (if realm_rim (w_ccatoken W) e \<noteq> []
       then Some (hex_encode ?X (realm_rim (w_ccatoken W) e)) else None)"
    and trusted: "trusted_rim_hex (cca_policy st) \<noteq> [] \<longrightarrow> realm_rim (w_ccatoken W) e \<noteq> [] \<and>
        (\<exists>s\<in>set (trusted_rim_hex (cca_policy st)). eq_ignore_ascii_case s (hex_encode ?X (realm_rim (w_ccatoken W) e)))"
    using token by (rule good_token_verified)
  obtain c where c: "w_compile W wasm = Some c"
      "\<And>cid. by_hash reg (sha256_hex ?X wasm) = Some cid \<Longrightarrow> compiled reg cid = Some c"
      "\<And>b rd ini. w_run W c b (Some rd) ini = Some (cca_component ?X b (Some rd))"
    and st: "cca_verifier st = Some v" "trusted_subjects (cca_policy st) = []" "\<And>k. w_sign W k \<noteq> None"
      "hash_allowed (host st) (sha256_hex ?X wasm)" "d_saved d"
    using ready unfolding verifier_ready_def by blast
  obtain reg' cid where reg: "register ?X (w_compile W) (host st) (d_uuid d) (d_saved d) wasm reg = (reg', Inr cid)"
    "compiled reg' cid = Some c"
    using st(4) c(1) st(5) c(2) by (rule register_gives)
  note ev = cca_evidence_built [OF printer base64 st(1) host, of d]
  let ?m' = "inject_cca_claims result ?m"
  have m': "value_ok (JObj ?m')" using inject_cca_value_ok [OF host cca_part_ok] .
  have "\<exists>claims. cca_component ?X (print_json ?X (JObj ?m')) (Some nonce) = to_string ?X claims \<and> value_ok claims \<and>
     claims = cca_claims ''cca'' True (length token) (JObj ?m')"
    using printer m' _ _ base64
    by (rule cca_component_passes) (simp_all add: inject_cca_claims_def cca_part_def split: option.split)
  then obtain claims where comp: "cca_component ?X (print_json ?X (JObj ?m')) (Some nonce) = to_string ?X claims"
    "value_ok claims" and claims: "claims = cca_claims ''cca'' True (length token) (JObj ?m')" by blast
  have el: "evaluate ?X (w_run W) reg' cid (print_json ?X (JObj ?m')) (Some nonce) (expected_init W st Cca) = Inr (cid, claims)"
    using reg(2) c(3) comp printer cca_claims_passed(1,2) [of "''cca''" "length token" ?m', folded claims]
    by (simp add: evaluate_Inr_iff to_string_def)
  have "get_str ?rim claims = Some (hex_encode ?X (realm_rim (w_ccatoken W) e))" if "realm_rim (w_ccatoken W) e \<noteq> []"
    using that rim unfolding claims
    by (intro cca_claims_rim) (simp add: inject_cca_claims_def str_of_def split: option.split)
  then have "enforce_policy st Cca claims = Inr ()"
    using cca_policy_met [OF st(2)] trusted cca_claims_passed(3) [of "''cca''" "length token" ?m', folded claims]
    by (auto simp: enforce_policy_def)
  moreover have "check_request ?req = Inr Cca" using nonce by (simp add: check_request_ok tee_of_i32_def)
  moreover have "resolve_component W st d ?req reg = (reg', Inr cid)" by (simp add: resolve_component_def reg(1))
  moreover obtain ear where "w_sign W (issue_ear W d Cca nonce (cca_platform_lifecycle result) cid claims) = Some ear"
    using st(3) by blast
  ultimately show ?thesis using ev el by (simp add: verify_def)
qed

section \<open>The whole run\<close>

text \<open>An attester whose agent answers every nonce with a good token, and that has the CCA component.\<close>

definition attester_ready where
  "attester_ready W st v A cfg wasm \<longleftrightarrow> at_tee_type cfg = Cca \<and> at_wasm_bytes cfg = wasm \<and>
     (\<forall>nonce. \<exists>token. good_token W st v nonce token \<and>
        at_http A (at_aa_endpoint cfg @ ''/aa/evidence?runtime_data='' @ b64_encode (w_externals W) nonce) = Some token)"

lemma attester_evidence:
  assumes "attester_ready W st v A cfg wasm"
    and "b64url_decode (w_externals W) (b64url_encode (w_externals W) nonce) = Some nonce"
  obtains token where "good_token W st v nonce token"
    "build_evidence (w_externals W) (at_http A) now Cca nonce (at_aa_endpoint cfg) =
       Inr (print_json (w_externals W) (JObj (cca_part (w_externals W) token nonce)))"
proof -
  obtain token where t: "good_token W st v nonce token"
    "at_http A (at_aa_endpoint cfg @ ''/aa/evidence?runtime_data='' @ b64_encode (w_externals W) nonce) = Some token"
    using assms(1) unfolding attester_ready_def by blast
  then show ?thesis
    using assms(2) by (intro that [OF t(1)])
      (simp add: build_evidence_def build_cca_part_def fetch_aa_evidence_def Let_def jobj_cca_part)
qed

text \<open>Either way the run goes, it ends with what one call of the verifier signed for its nonce.\<close>

lemma honest_ear:
  assumes ready: "verifier_ready W st dv wasm v reg" "attester_ready W st v A cfg wasm"
    and printer: "printer_ok (w_externals W)"
    and base64: "\<And>b. b64_decode (w_externals W) (b64_encode (w_externals W) b) = Some b"
      "\<And>b. b64url_decode (w_externals W) (b64url_encode (w_externals W) b) = Some b"
    and nonces: "pd_nonce d \<noteq> []" "ad_nonce ad \<noteq> []" and signs: "\<And>k. w_sign W k \<noteq> Some []"
    and asks: "cl_attester cli = Some a" "cl_verifier cli = Some vr" "cl_tee_type cli = Some Cca" "cl_pubkey cli = Some k"
    and key: "pw_read P k = Some pem" "pw_key P pem = Some key"
    and attester: "pw_attester P a = Some (get_evidence (w_externals W) A cfg ad)"
    and background: "\<not> is_passport cli \<Longrightarrow> pw_verifier P vr = Some (\<lambda>q. snd (verify W st dv q reg))"
    and passport: "is_passport cli \<Longrightarrow> \<exists>ep. at_verifier_endpoint cfg = Some ep \<and>
        at_connect A (''http://'' @ ep) = Some (\<lambda>q. snd (verify W st dv q reg))"
  obtains reg' ear cid q where "obtain_ear (w_externals W) P d cli = Inr (key, ear, b64url_encode (w_externals W) (rq_nonce q))"
    "verify W st dv q reg = (reg', Inr (ear, cid))" "rq_tee_type q = 2"
proof -
  let ?X = "w_externals W"
  let ?n = "if is_passport cli then ad_nonce ad else pd_nonce d"
  obtain token where t: "good_token W st v ?n token" and built: "build_evidence ?X (at_http A) (ad_now ad) Cca ?n (at_aa_endpoint cfg) =
       Inr (print_json ?X (JObj (cca_part ?X token ?n)))"
    using ready(2) base64(2) by (rule attester_evidence)
  let ?q = "\<lparr>rq_tee_type = 2, rq_nonce = ?n, rq_evidence = print_json ?X (JObj (cca_part ?X token ?n)),
    rq_wasm = Some (WasmComponent wasm)\<rparr>"
  have "?n \<noteq> []" using nonces by simp
  from cca_call_succeeds [OF ready(1) t this printer base64(1)]
  obtain reg' ear cid where call: "verify W st dv ?q reg = (reg', Inr (ear, cid))" by blast
  have cfg: "at_tee_type cfg = Cca" "at_wasm_bytes cfg = wasm" using ready(2) by (simp_all add: attester_ready_def)
  have "obtain_ear ?X P d cli = Inr (key, ear, b64url_encode ?X ?n)"
  proof (cases "is_passport cli")
    case True
    obtain ep where ep: "at_verifier_endpoint cfg = Some ep"
      "at_connect A (''http://'' @ ep) = Some (\<lambda>q. snd (verify W st dv q reg))" using passport [OF True] by blast
    have "ear \<noteq> []" using call by (rule verify_issued) (use signs in auto)
    then show ?thesis
      using True built call ep asks key attester cfg
      by (simp add: obtain_ear_def call_def get_evidence_def effective_nonce_def tee_of_i32_def)
  next
    case False
    then show ?thesis
      using built call background [OF False] asks key attester cfg nonces
      by (simp add: obtain_ear_def call_def get_evidence_def effective_nonce_def tee_of_i32_def)
  qed
  then show ?thesis using call by (intro that [of ear ?q reg' cid]) simp_all
qed

text \<open>
  C6. An honest deployment works. Let the attester's agent answer every nonce with a CCA token that the
  trust anchors, the reference values and the configured realm list accept and that is bound to the
  nonce. Let the verifier be configured for CCA without a list of trusted subjects (with one it refuses
  every CCA request), allow this repository's component, run it and sign, under a key the relying party
  has; JSON and base64 are read back as printed, nonces are not empty, and a file asked for with
  \<open>--ear-out\<close> can be written. Then the run of the relying party ends with \<open>ACCEPTED\<close>, in a background-check run and, when the
  attester knows the verifier, in a passport run whose result is at most 300 seconds old, whether the
  component is already registered or is uploaded and saved by this call.
\<close>
theorem honest_cca_attestation_accepted:
  fixes W :: "('c, 'ta, 'rv, 'ev, 'w, 'r, 'ca, 'cs) world"
  assumes ready: "verifier_ready W st dv wasm v reg" "attester_ready W st v A cfg wasm"
    and printer: "printer_ok (w_externals W)"
    and base64: "\<And>b. b64_decode (w_externals W) (b64_encode (w_externals W) b) = Some b"
      "\<And>b. b64url_decode (w_externals W) (b64url_encode (w_externals W) b) = Some b"
    and nonces: "pd_nonce d \<noteq> []" "ad_nonce ad \<noteq> []" and signs: "\<And>k. w_sign W k \<noteq> Some []"
    and decodes: "\<And>c t. w_sign W c = Some t \<Longrightarrow> value_ok (submods c) \<Longrightarrow> pw_jwt_decode P key (trim t) = Some (ear_json c)"
    and recent: "0 \<le> d_iat dv" "d_iat dv < 2 ^ 63" "i64_diff (pd_now d) (d_iat dv) \<le> 300"
    and asks: "cl_attester cli = Some a" "cl_verifier cli = Some vr" "cl_tee_type cli = Some Cca" "cl_pubkey cli = Some k"
      "\<And>path. cl_ear_out cli = Some path \<Longrightarrow> pw_writable P path"
    and key: "pw_read P k = Some pem" "pw_key P pem = Some key"
    and attester: "pw_attester P a = Some (get_evidence (w_externals W) A cfg ad)"
    and background: "\<not> is_passport cli \<Longrightarrow> pw_verifier P vr = Some (\<lambda>q. snd (verify W st dv q reg))"
    and passport: "is_passport cli \<Longrightarrow> \<exists>ep. at_verifier_endpoint cfg = Some ep \<and>
        at_connect A (''http://'' @ ep) = Some (\<lambda>q. snd (verify W st dv q reg))"
  shows "\<exists>v. snd (attest (w_externals W) P d cli) = Inr v \<and> get_str ''tee_type'' v = Some ''cca''"
proof -
  let ?X = "w_externals W"
  obtain reg' ear cid q where run: "obtain_ear ?X P d cli = Inr (key, ear, b64url_encode ?X (rq_nonce q))"
    "verify W st dv q reg = (reg', Inr (ear, cid))" "rq_tee_type q = 2"
    by (rule honest_ear [OF ready printer base64 nonces signs asks(1-4) key attester background passport])
  obtain tee l claims where tee: "check_request q = Inr tee" "value_ok claims"
    and ear: "w_sign W (issue_ear W dv tee (rq_nonce q) l cid claims) = Some ear"
    using run(2) by (rule verify_issued)
  let ?c = "issue_ear W dv tee (rq_nonce q) l cid claims"
  have cca: "tee = Cca" using tee run(3) by (simp add: check_request_ok tee_of_i32_def)
  have "get_i64 ''iat'' (ear_json ?c) = d_iat dv" using recent by (simp add: get_i64_iat)
  moreover have "2 \<le> executables (ear_trust_vector ?c)"
    by (simp add: issue_ear_def cca executables_not_tdx)
  ultimately have "check_ear (is_passport cli) (pd_now d) (b64url_encode ?X (rq_nonce q)) (ear_json ?c) = Inr ()"
    using recent(3) by (simp only: check_ear_issued) simp
  moreover have "pw_jwt_decode P key (trim ear) = Some (ear_json ?c)" using decodes [OF ear] tee(2) by simp
  ultimately have "snd (attest ?X P d cli) = Inr (ear_json ?c)"
    using run(1) asks(5) by (subst attestI) auto
  then show ?thesis by (simp add: get_str_def cca)
qed

text \<open>An agent whose token is the realm measurement \<open>R\<close> followed by the nonce it is asked for.\<close>

definition toy_url :: string where
  "toy_url = ''/aa/evidence?runtime_data=''"

definition toy_verifier :: verifier_connection where
  "toy_verifier q = snd (verify toy_cca_signing_world (toy_app [''R'']) toy_call q toy_components)"

definition toy_agent :: attester_world where
  "toy_agent = \<lparr>at_http = (\<lambda>url. Some (bytes_of (''R'' @ drop (length toy_url) url))),
     at_connect = (\<lambda>ep. Some toy_verifier)\<rparr>"

definition toy_attester :: attester_config where
  "toy_attester = \<lparr>at_tee_type = Cca, at_aa_endpoint = [], at_verifier_endpoint = Some ''v'', at_wasm_bytes = [1, 2]\<rparr>"

definition toy_service :: "(evidence_request, evidence_response) connection" where
  "toy_service = get_evidence toy_json toy_agent toy_attester \<lparr>ad_nonce = bytes_of ''n'', ad_now = 0\<rparr>"

definition toy_honest_party :: "unit party_world" where
  "toy_honest_party = \<lparr>pw_read = (\<lambda>p. Some []), pw_key = (\<lambda>b. Some ()), pw_attester = (\<lambda>a. Some toy_service),
     pw_verifier = (\<lambda>a. Some toy_verifier), pw_writable = (\<lambda>p. True), pw_jwt_decode = (\<lambda>k t. toy_decode t)\<rparr>"

definition toy_honest_cli :: "string \<Rightarrow> party_cli" where
  "toy_honest_cli mode = \<lparr>cl_attester = Some ''a'', cl_verifier = Some ''v'', cl_tee_type = Some Cca,
     cl_pubkey = Some ''k'', cl_mode = mode, cl_ear_out = Some ''out''\<rparr>"

lemma toy_R [simp]:
  "take (Suc 0) (bytes_of ''R'' @ nonce) = bytes_of ''R''" "drop (Suc 0) (bytes_of ''R'' @ nonce) = nonce"
  "bytes_of ''R'' \<noteq> []" "bytes_of (''R'' @ s) = bytes_of ''R'' @ bytes_of s" "bytes_of ''n'' \<noteq> []" "bytes_of ''m'' \<noteq> []"
  by (simp_all add: bytes_of_def)

lemma toy_good_token: "good_token toy_cca_signing_world (toy_app [''R'']) \<lparr>tas = 7, rvs = 9\<rparr> nonce (bytes_of ''R'' @ nonce)"
  by (simp add: good_token_def toy_cca_signing_world_def toy_cca_world_def toy_world_def toy_ccatoken_def toy_app_def
      cca_policy_default_def eq_ignore_ascii_case_def)

lemma toy_ready:
  "verifier_ready toy_cca_signing_world (toy_app [''R'']) toy_call [1, 2] \<lparr>tas = 7, rvs = 9\<rparr> toy_components"
  "attester_ready toy_cca_signing_world (toy_app [''R'']) \<lparr>tas = 7, rvs = 9\<rparr> toy_agent toy_attester [1, 2]"
proof -
  show "verifier_ready toy_cca_signing_world (toy_app [''R'']) toy_call [1, 2] \<lparr>tas = 7, rvs = 9\<rparr> toy_components"
    by (simp add: verifier_ready_def toy_cca_signing_world_def toy_cca_world_def toy_world_def toy_app_def toy_call_def
        toy_components_def registry_empty_def hash_allowed_def cca_policy_default_def toy_jwt_def)
  have "at_http toy_agent (at_aa_endpoint toy_attester @ ''/aa/evidence?runtime_data='' @ string_of nonce) =
      Some (bytes_of ''R'' @ nonce)" for nonce
    using toy_R(4) [of "string_of nonce"] by (simp add: toy_agent_def toy_attester_def toy_url_def)
  then show "attester_ready toy_cca_signing_world (toy_app [''R'']) \<lparr>tas = 7, rvs = 9\<rparr> toy_agent toy_attester [1, 2]"
    using toy_good_token
    by (auto simp: attester_ready_def toy_attester_def toy_cca_signing_world_def toy_cca_world_def toy_world_def)
qed

theorem honest_cca_attestation_accepted_witness:
  "(\<exists>v. snd (attest toy_json toy_honest_party \<lparr>pd_nonce = bytes_of ''m'', pd_now = 10\<rparr> (toy_honest_cli ''background-check'')) = Inr v \<and>
      get_str ''tee_type'' v = Some ''cca'') \<and>
   (\<exists>v. snd (attest toy_json toy_honest_party \<lparr>pd_nonce = bytes_of ''m'', pd_now = 10\<rparr> (toy_honest_cli ''passport'')) = Inr v \<and>
      get_str ''tee_type'' v = Some ''cca'')"
proof -
  have "\<exists>v. snd (attest (w_externals toy_cca_signing_world) toy_honest_party \<lparr>pd_nonce = bytes_of ''m'', pd_now = 10\<rparr> (toy_honest_cli mode)) = Inr v \<and>
      get_str ''tee_type'' v = Some ''cca''" for mode
    by (rule honest_cca_attestation_accepted [OF toy_ready, where ad = "\<lparr>ad_nonce = bytes_of ''n'', ad_now = 0\<rparr>"
          and a = "''a''" and vr = "''v''" and k = "''k''" and pem = "[]" and key = "()"])
       (auto simp: toy_honest_cli_def toy_honest_party_def toy_service_def toy_agent_def toy_attester_def toy_call_def
          toy_verifier_def toy_cca_signing_world_def toy_cca_world_def toy_world_def toy_jwt_def i64_diff_def
          fun_eq_iff toy_decode [unfolded toy_jwt_def])
  then show ?thesis
    by (simp add: toy_cca_signing_world_def toy_cca_world_def toy_world_def)
qed

end
