(* ===== verification/EventLog.thy ===== *)
theory EventLog
  imports Json
begin

text \<open>
  The TCG event logs of \<^verbatim>\<open>evidence-verify/src/eventlog_rs\<close> (\<^verbatim>\<open>enums.rs\<close>, \<^verbatim>\<open>bios_eventlog.rs\<close>, \<^verbatim>\<open>mod.rs\<close>) and
  their use for VirtCCA, \<^verbatim>\<open>virtcca/event_log.rs\<close>.

  \<^item> A parser moves an index through the data; a slice that goes past the end panics.
  \<^item> A \<open>HashMap\<close> is a map. Where the code iterates over one, the order does not show in the result; the
    model takes the order of first insertion.
  \<^item> SHA-256 is that of \<open>externals\<close>; the reference file is its lines, or \<open>None\<close>.
\<close>

definition TCG_ALGORITHMS :: "(u16 \<times> string) list" where
  "TCG_ALGORITHMS = [
     (0x1, ''TPM_ALG_RSA''), (0x3, ''TPM_ALG_TDES''), (0x4, ''TPM_ALG_SHA1''), (0xB, ''TPM_ALG_SHA256''),
     (0xC, ''TPM_ALG_SHA384''), (0xD, ''TPM_ALG_SHA512'')]"

definition EVENTLOG_TYPES :: "(u32 \<times> string) list" where
  "EVENTLOG_TYPES = [
     (0x0, ''EV_PREBOOT_CERT''), (0x1, ''EV_POST_CODE''), (0x2, ''EV_UNUSED''), (0x3, ''EV_NO_ACTION''),
     (0x4, ''EV_SEPARATOR''), (0x5, ''EV_ACTION''), (0x6, ''EV_EVENT_TAG''), (0x7, ''EV_S_CRTM_CONTENTS''),
     (0x8, ''EV_S_CRTM_VERSION''), (0x9, ''EV_CPU_MICROCODE''), (0xa, ''EV_PLATFORM_CONFIG_FLAGS''),
     (0xb, ''EV_TABLE_OF_DEVICES''), (0xc, ''EV_COMPACT_HASH''), (0xd, ''EV_IPL''),
     (0xe, ''EV_IPL_PARTITION_DATA''), (0xf, ''EV_NONHOST_CODE''), (0x10, ''EV_NONHOST_CONFIG''),
     (0x11, ''EV_NONHOST_INFO''), (0x12, ''EV_OMIT_BOOT_DEVICE_EVENTS''),
     (0x80000000, ''EV_EFI_EVENT_BASE''), (0x80000001, ''EV_EFI_VARIABLE_DRIVER_CONFIG''),
     (0x80000002, ''EV_EFI_VARIABLE_BOOT''), (0x80000003, ''EV_EFI_BOOT_SERVICES_APPLICATION''),
     (0x80000004, ''EV_EFI_BOOT_SERVICES_DRIVER''), (0x80000005, ''EV_EFI_RUNTIME_SERVICES_DRIVER''),
     (0x80000006, ''EV_EFI_GPT_EVENT''), (0x80000007, ''EV_EFI_ACTION''),
     (0x80000008, ''EV_EFI_PLATFORM_FIRMWARE_BLOB''), (0x80000009, ''EV_EFI_HANDOFF_TABLES''),
     (0x8000000a, ''EV_EFI_PLATFORM_FIRMWARE_BLOB2''), (0x8000000b, ''EV_EFI_HANDOFF_TABLES2''),
     (0x800000e0, ''EV_EFI_VARIABLE_AUTHORITY'')]"

text \<open>\<open>(&data[i..(i + n)]).read_uN::<LittleEndian>()\<close>.\<close>

definition le_u16 :: "byte list \<Rightarrow> nat \<Rightarrow> u16 res" where
  "le_u16 data i = and_then (slice data i (i + 2)) (\<lambda>b. Inr (u16_of_le b))"

definition le_u32 :: "byte list \<Rightarrow> nat \<Rightarrow> u32 res" where
  "le_u32 data i = and_then (slice data i (i + 4)) (\<lambda>b. Inr (u32_of_le b))"

definition le_u64 :: "byte list \<Rightarrow> nat \<Rightarrow> u64 res" where
  "le_u64 data i = and_then (slice data i (i + 8)) (\<lambda>b. Inr (u64_of_be (rev b)))"

section \<open>Logs of conventional firmware\<close>

record bios_entry =
  be_pcr_index :: u32
  be_event_type :: string
  be_digest :: "byte list"
  be_event_data :: "byte list"

definition SHA1_DIGEST_SIZE :: nat where
  "SHA1_DIGEST_SIZE = 20"

definition event_type_name :: "string \<Rightarrow> u32 \<Rightarrow> string" where
  "event_type_name unknown n =
     (case map_of EVENTLOG_TYPES n of Some name \<Rightarrow> name | None \<Rightarrow> unknown @ hex_digits (unat n))"

definition is_stop :: "u64 \<Rightarrow> bool" where
  "is_stop flag \<longleftrightarrow> flag = 0xFFFFFFFFFFFFFFFF \<or> flag = 0"

text \<open>One turn of the loop at \<open>i\<close>: \<open>None\<close> is the \<open>break\<close>.\<close>

definition bios_step :: "byte list \<Rightarrow> nat \<Rightarrow> (bios_entry \<times> nat) option res" where
  "bios_step data i =
     and_then (le_u64 data i) (\<lambda>stop_flag.
     and_then (le_u32 data i) (\<lambda>pcr_index.
     and_then (le_u32 data (i + 4)) (\<lambda>event_type_num.
     if is_stop stop_flag then Inr None
     else
       and_then (slice data (i + 8) (i + 8 + SHA1_DIGEST_SIZE)) (\<lambda>digest.
       and_then (le_u32 data (i + 28)) (\<lambda>event_data_size.
       and_then (slice data (i + 32) (i + 32 + unat event_data_size)) (\<lambda>event_data.
       Inr (Some (\<lparr>be_pcr_index = pcr_index, be_event_type = event_type_name ''UNKOWN_TYPE: '' event_type_num,
                   be_digest = digest, be_event_data = event_data\<rparr>, i + 32 + unat event_data_size))))))))"

lemma bios_step_advances: "bios_step data i = Inr (Some (e, j)) \<Longrightarrow> i < j"
  by (auto simp: bios_step_def and_then_Inr_iff split: if_splits)

function bios_eventlog_loop :: "byte list \<Rightarrow> nat \<Rightarrow> bios_entry list res" where
  "bios_eventlog_loop data i =
     (if i < length data then
        and_then (bios_step data i) (\<lambda>r.
          case r of
            None \<Rightarrow> Inr []
          | Some (e, j) \<Rightarrow> and_then (bios_eventlog_loop data j) (\<lambda>es. Inr (e # es)))
      else Inr [])"
  by pat_completeness auto
termination
  by (relation "measure (\<lambda>(data, i). length data - i)") (auto dest: bios_step_advances)

definition bios_eventlog_try_from :: "byte list \<Rightarrow> bios_entry list res" where
  "bios_eventlog_try_from data = bios_eventlog_loop data 0"

section \<open>Crypto-agile logs\<close>

record el_digest =
  ed_algorithm :: string
  ed_digest :: "byte list"

record eventlog_entry =
  ee_target :: u32
  ee_type_id :: u32
  ee_type :: string
  ee_digests :: "el_digest list"
  ee_desc :: "byte list"

text \<open>The algorithms of the header: \<open>digest_size_map.insert\<close>, as often as it says.\<close>

primrec read_sizes :: "byte list \<Rightarrow> nat \<Rightarrow> nat \<Rightarrow> (u16 \<rightharpoonup> u16) \<Rightarrow> ((u16 \<rightharpoonup> u16) \<times> nat) res" where
  "read_sizes data 0 i sizes = Inr (sizes, i)"
| "read_sizes data (Suc n) i sizes =
     and_then (le_u16 data i) (\<lambda>alg.
     and_then (le_u16 data (i + 2)) (\<lambda>len.
     read_sizes data n (i + 4) (sizes(alg \<mapsto> len))))"

definition algorithm_name :: "u16 \<Rightarrow> string" where
  "algorithm_name alg = (case map_of TCG_ALGORITHMS alg of Some name \<Rightarrow> name
     | None \<Rightarrow> ''UNKNOWN_ALGORITHM: '' @ hex_digits (unat alg))"

primrec read_digests :: "byte list \<Rightarrow> (u16 \<rightharpoonup> u16) \<Rightarrow> nat \<Rightarrow> nat \<Rightarrow> (el_digest list \<times> nat) res" where
  "read_digests data sizes 0 i = Inr ([], i)"
| "read_digests data sizes (Suc n) i =
     and_then (le_u16 data i) (\<lambda>alg.
     and_then (ok_or ''Internal Error: get digest size failed when parse eventlog entry'' (sizes alg)) (\<lambda>len.
     and_then (slice data (i + 2) (i + 2 + unat len)) (\<lambda>digest.
     and_then (read_digests data sizes n (i + 2 + unat len)) (\<lambda>(ds, j).
     Inr (\<lparr>ed_algorithm = algorithm_name alg, ed_digest = digest\<rparr> # ds, j)))))"

datatype log_step =
    Stop
  | Header "u16 \<rightharpoonup> u16" nat
  | Entry eventlog_entry nat

definition eventlog_step :: "byte list \<Rightarrow> nat \<Rightarrow> (u16 \<rightharpoonup> u16) \<Rightarrow> log_step res" where
  "eventlog_step data i sizes =
     and_then (le_u64 data i) (\<lambda>stop_flag.
     and_then (le_u32 data i) (\<lambda>target.
     and_then (le_u32 data (i + 4)) (\<lambda>event_type_num.
     (let event_type = event_type_name ''UNKNOWN_TYPE: '' event_type_num in
      if event_type = ''EV_NO_ACTION'' then
        and_then (le_u32 data (i + 56)) (\<lambda>algo_number.
        and_then (read_sizes data (unat algo_number) (i + 60) sizes) (\<lambda>(sizes', j).
        and_then (at data j) (\<lambda>vendor_size.
        Inr (Header sizes' (j + unat vendor_size + 1)))))
      else if is_stop stop_flag then Inr Stop
      else
        and_then (le_u32 data (i + 8)) (\<lambda>digest_count.
        and_then (read_digests data sizes (unat digest_count) (i + 12)) (\<lambda>(digests, j).
        and_then (le_u32 data j) (\<lambda>event_desc_size.
        and_then (slice data (j + 4) (j + 4 + unat event_desc_size)) (\<lambda>event_desc.
        Inr (Entry \<lparr>ee_target = target, ee_type_id = event_type_num, ee_type = event_type,
                     ee_digests = digests, ee_desc = event_desc\<rparr> (j + 4 + unat event_desc_size))))))))))"

lemma read_sizes_forward: "read_sizes data n i sizes = Inr (sizes', j) \<Longrightarrow> i \<le> j"
proof (induction n arbitrary: i sizes)
  case (Suc n)
  then obtain s where "read_sizes data n (i + 4) s = Inr (sizes', j)" by (auto simp: and_then_Inr_iff)
  then show ?case using Suc.IH by fastforce
qed simp

lemma read_digests_forward: "read_digests data sizes n i = Inr (ds, j) \<Longrightarrow> i \<le> j"
proof (induction n arbitrary: i ds)
  case (Suc n)
  then obtain len rest where "read_digests data sizes n (i + 2 + len) = Inr (rest, j)"
    by (auto simp: and_then_Inr_iff)
  then show ?case using Suc.IH by fastforce
qed simp

lemma eventlog_step_advances:
  "eventlog_step data i sizes = Inr (Header sizes' j) \<Longrightarrow> i < j"
  "eventlog_step data i sizes = Inr (Entry e j) \<Longrightarrow> i < j"
  by (auto simp: eventlog_step_def Let_def and_then_Inr_iff split: if_splits
      dest!: read_sizes_forward read_digests_forward)

function eventlog_loop :: "byte list \<Rightarrow> nat \<Rightarrow> (u16 \<rightharpoonup> u16) \<Rightarrow> eventlog_entry list res" where
  "eventlog_loop data i sizes =
     (if i < length data then
        and_then (eventlog_step data i sizes) (\<lambda>r.
          case r of
            Stop \<Rightarrow> Inr []
          | Header sizes' j \<Rightarrow> eventlog_loop data j sizes'
          | Entry e j \<Rightarrow> and_then (eventlog_loop data j sizes) (\<lambda>es. Inr (e # es)))
      else Inr [])"
  by pat_completeness auto
termination
  by (relation "measure (\<lambda>(data, i, sizes). length data - i)") (auto dest: eventlog_step_advances)

declare bios_eventlog_loop.simps [simp del] eventlog_loop.simps [simp del]

definition eventlog_try_from :: "byte list \<Rightarrow> eventlog_entry list res" where
  "eventlog_try_from data = eventlog_loop data 0 Map.empty"

section \<open>Replay\<close>

definition RTMR_LENGTH_BY_BYTES :: nat where
  "RTMR_LENGTH_BY_BYTES = 32"

definition group_by_mr :: "eventlog_entry list \<Rightarrow> u32 \<rightharpoonup> eventlog_entry list" where
  "group_by_mr entries = foldl (\<lambda>m e.
     case m (ee_target e) of
       Some es \<Rightarrow> m(ee_target e \<mapsto> es @ [e])
     | None \<Rightarrow> m(ee_target e \<mapsto> [e])) Map.empty entries"

fun replay_chain :: "externals \<Rightarrow> byte list \<Rightarrow> eventlog_entry list \<Rightarrow> byte list res" where
  "replay_chain X mr [] = Inr mr"
| "replay_chain X mr (e # es) =
     and_then (at (ee_digests e) 0) (\<lambda>d.
     and_then (copy_exact RTMR_LENGTH_BY_BYTES (sha256 X (mr @ ed_digest d))) (\<lambda>mr'.
     replay_chain X mr' es))"

definition replay_measurement_registry :: "externals \<Rightarrow> eventlog_entry list \<Rightarrow> (u32 \<rightharpoonup> byte list) res" where
  "replay_measurement_registry X entries =
     and_then (traverse (\<lambda>mr.
       and_then (replay_chain X (replicate RTMR_LENGTH_BY_BYTES 0) (case group_by_mr entries mr of Some es \<Rightarrow> es | None \<Rightarrow> []))
         (\<lambda>v. Inr (mr, v))) (remdups (map ee_target entries))) (\<lambda>kvs. Inr (map_of kvs))"

section \<open>VirtCCA\<close>

definition CVM_REM_ARR_SIZE :: nat where
  "CVM_REM_ARR_SIZE = 4"

definition compare_rtmr_with_event_log :: "(u32 \<rightharpoonup> byte list) \<Rightarrow> byte list list \<Rightarrow> bool" where
  "compare_rtmr_with_event_log replayed event_log_hash =
     (\<forall>i\<in>set [1..<CVM_REM_ARR_SIZE].
        case replayed (of_nat i) of
          None \<Rightarrow> False
        | Some v \<Rightarrow> length v = 32 \<and> length (event_log_hash ! (i - 1)) = 32 \<and> v = event_log_hash ! (i - 1))"

record firmware_state =
  grub_image_count :: byte
  grub_image_list :: "string list"
  state_hash :: "string \<rightharpoonup> string"

text \<open>\<open>str::contains\<close>.\<close>

fun contains :: "string \<Rightarrow> string \<Rightarrow> bool" where
  "contains [] pat = (pat = [])"
| "contains (c # s) pat = (take (length pat) (c # s) = pat \<or> contains s pat)"

definition event_descs :: "(string \<times> string) list" where
  "event_descs = [(''grub_cfg'', ''grub.cfg''), (''kernel'', ''/vmlinuz-''), (''initramfs'', ''/initramfs-'')]"

definition first_digest :: "eventlog_entry \<Rightarrow> byte list option" where
  "first_digest e = (case ee_digests e of d # _ \<Rightarrow> if ed_digest d \<noteq> [] then Some (ed_digest d) else None | [] \<Rightarrow> None)"

fun note_hashes :: "externals \<Rightarrow> eventlog_entry \<Rightarrow> string \<Rightarrow> (string \<times> string) list \<Rightarrow> (string \<rightharpoonup> string) \<Rightarrow> string \<rightharpoonup> string" where
  "note_hashes X e desc [] h = h"
| "note_hashes X e desc ((key, pattern) # ps) h =
     note_hashes X e desc ps
       (if h key \<noteq> None then h
        else if contains desc pattern then
          (case first_digest e of None \<Rightarrow> h | Some d \<Rightarrow> h(key \<mapsto> hex_encode X d))
        else h)"

text \<open>The loop ends when all three hashes are there; the count wraps at 256 (release builds).\<close>

fun firmware_loop :: "externals \<Rightarrow> eventlog_entry list \<Rightarrow> firmware_state \<Rightarrow> firmware_state" where
  "firmware_loop X [] st = st"
| "firmware_loop X (e # es) st =
     (if ee_type e = ''EV_EFI_BOOT_SERVICES_APPLICATION'' then
        (case first_digest e of
           None \<Rightarrow> firmware_loop X es st
         | Some d \<Rightarrow> firmware_loop X es (st\<lparr>grub_image_count := grub_image_count st + 1,
             grub_image_list := grub_image_list st @ [hex_encode X d]\<rparr>))
      else if \<not> valid_utf8 (ee_desc e) then firmware_loop X es st
      else
        (let desc = string_of (ee_desc e) in
         if contains desc ''grub_cmd:'' then firmware_loop X es st
         else
           (let st' = st\<lparr>state_hash := note_hashes X e desc event_descs (state_hash st)\<rparr> in
            if \<forall>p\<in>set event_descs. state_hash st' (fst p) \<noteq> None then st'
            else firmware_loop X es st')))"

definition firmware_log_state :: "externals \<Rightarrow> eventlog_entry list \<Rightarrow> firmware_state" where
  "firmware_log_state X entries =
     firmware_loop X entries \<lparr>grub_image_count = 0, grub_image_list = [], state_hash = Map.empty\<rparr>"

fun validate_event_log_digests :: "eventlog_entry list \<Rightarrow> unit res" where
  "validate_event_log_digests [] = Inr ()"
| "validate_event_log_digests (e # es) =
     (case ee_digests e of
        d # _ \<Rightarrow> if ed_digest d \<noteq> [] then validate_event_log_digests es
                else Inl (Err ''EVENT log entry has an empty digest'')
      | [] \<Rightarrow> Inl (Err ''EVENT log entry has no digest''))"

definition image_refs :: "string list \<Rightarrow> string list \<Rightarrow> (string \<times> json) list" where
  "image_refs images refs =
     map (\<lambda>(i, image). (''Image['' @ show_nat i @ '']'', JBool (image \<in> set refs))) (zip [0..<length images] images)"

definition check_event_references :: "firmware_state \<Rightarrow> string list \<Rightarrow> json" where
  "check_event_references st refs =
     jobj (image_refs (grub_image_list st) refs @
       map (\<lambda>k. (k, JBool (the (state_hash st k) \<in> set refs)))
         (filter (\<lambda>k. state_hash st k \<noteq> None) (map fst event_descs)))"

text \<open>\<open>file_reader\<close>: each line without the white space at its end.\<close>

definition file_reader :: "string list option \<Rightarrow> string list res" where
  "file_reader lines = and_then (ok_or ''open'' lines) (\<lambda>ls. Inr (map trim_end ls))"

definition event_verify :: "externals \<Rightarrow> string list option \<Rightarrow> byte list \<Rightarrow> byte list list \<Rightarrow> json res" where
  "event_verify X ref_lines event_log event_log_hash =
     (if event_log = [] then Inr (jobj [])
      else
        and_then (with_context ''failed to parse EVENT log'' (eventlog_try_from event_log)) (\<lambda>parsed.
        and_then (validate_event_log_digests parsed) (\<lambda>_.
        and_then (replay_measurement_registry X parsed) (\<lambda>replayed.
        and_then (bail_unless (compare_rtmr_with_event_log replayed event_log_hash) ''event log hash verify failed'') (\<lambda>_.
        and_then (with_context ''failed to read VirtCCA event reference'' (file_reader ref_lines)) (\<lambda>refs.
        Inr (check_event_references (firmware_log_state X parsed) refs)))))))"

end
