(* ===== verification/EventLogFacts.thy ===== *)
theory EventLogFacts
  imports EventLog
begin

text \<open>
  The replay of an event log against the registers it stands for, and reading back a log that was
  written in the format.
\<close>

section \<open>The registers\<close>

text \<open>The hardware: a bank of registers, each event extending one of them by its first digest.\<close>

definition extend_register :: "externals \<Rightarrow> (u32 \<Rightarrow> byte list) \<Rightarrow> eventlog_entry \<Rightarrow> u32 \<Rightarrow> byte list" where
  "extend_register X regs e = regs(ee_target e := sha256 X (regs (ee_target e) @ ed_digest (hd (ee_digests e))))"

definition registers :: "externals \<Rightarrow> eventlog_entry list \<Rightarrow> u32 \<Rightarrow> byte list" where
  "registers X es = foldl (extend_register X) (\<lambda>r. replicate 32 0) es"

lemma group_by_mr_snoc:
  "group_by_mr (es @ [e]) = (group_by_mr es)
     (ee_target e \<mapsto> (case group_by_mr es (ee_target e) of Some l \<Rightarrow> l @ [e] | None \<Rightarrow> [e]))"
  by (simp add: group_by_mr_def split: option.split)

lemma group_by_mr_eq:
  "group_by_mr es mr = (if mr \<in> ee_target ` set es then Some (filter (\<lambda>e. ee_target e = mr) es) else None)"
proof (induction es rule: rev_induct)
  case Nil
  show ?case by (simp add: group_by_mr_def)
next
  case (snoc e es)
  have "filter (\<lambda>e. ee_target e = mr) es = []" if "mr \<notin> ee_target ` set es"
    using that by (auto simp: filter_empty_conv)
  then show ?case using snoc by (cases "mr = ee_target e") (simp_all add: group_by_mr_snoc)
qed

lemma extend_register_other: "ee_target e \<noteq> r \<Longrightarrow> extend_register X regs e r = regs r"
  by (simp add: extend_register_def)

lemma replay_chain_registers:
  assumes "\<And>e. e \<in> set es \<Longrightarrow> ee_digests e \<noteq> []" and sha: "\<And>b. length (sha256 X b) = 32"
  shows "replay_chain X (regs r) (filter (\<lambda>e. ee_target e = r) es) = Inr (foldl (extend_register X) regs es r)"
  using assms(1)
proof (induction es arbitrary: regs)
  case (Cons e es)
  have IH: "replay_chain X (extend_register X regs e r) (filter (\<lambda>e. ee_target e = r) es) =
      Inr (foldl (extend_register X) (extend_register X regs e) es r)"
    using Cons by simp
  show ?case
  proof (cases "ee_target e = r")
    case True
    have "ee_digests e \<noteq> []" using Cons.prems by simp
    moreover have "extend_register X regs e r = sha256 X (regs r @ ed_digest (ee_digests e ! 0))"
      using True calculation by (simp add: extend_register_def hd_conv_nth)
    ultimately show ?thesis using IH True by (simp add: sha RTMR_LENGTH_BY_BYTES_def)
  next
    case False
    then show ?thesis using IH by (simp add: extend_register_other)
  qed
qed simp

lemma replay_is_extension:
  assumes digests: "\<And>e. e \<in> set es \<Longrightarrow> ee_digests e \<noteq> []" and sha: "\<And>b. length (sha256 X b) = 32"
  shows "replay_measurement_registry X es =
    Inr (\<lambda>r. if r \<in> ee_target ` set es then Some (registers X es r) else None)"
proof -
  let ?mrs = "remdups (map ee_target es)"
  have "replay_chain X (replicate 32 0) (case group_by_mr es mr of Some l \<Rightarrow> l | None \<Rightarrow> []) = Inr (registers X es mr)"
    if "mr \<in> set ?mrs" for mr
    using that replay_chain_registers [OF digests sha, of es "\<lambda>r. replicate 32 0" mr]
    by (auto simp: group_by_mr_eq registers_def)
  then have "replay_measurement_registry X es = Inr (map_of (map (\<lambda>mr. (mr, registers X es mr)) ?mrs))"
    unfolding replay_measurement_registry_def RTMR_LENGTH_BY_BYTES_def
    by (subst traverse_Inr [where g = "\<lambda>mr. (mr, registers X es mr)"]) auto
  moreover have "map_of (map (\<lambda>mr. (mr, registers X es mr)) ?mrs) =
      (\<lambda>r. if r \<in> ee_target ` set es then Some (registers X es r) else None)"
    by (auto simp: fun_eq_iff map_of_map_restrict restrict_map_def)
  ultimately show ?thesis by simp
qed

lemma validated_digests: "validate_event_log_digests es = Inr () \<Longrightarrow> e \<in> set es \<Longrightarrow> ee_digests e \<noteq> []"
  by (induction es rule: validate_event_log_digests.induct) (auto split: list.splits if_splits)

text \<open>
  C37. An event log that the VirtCCA verifier accepts accounts for the token's registers: it parses,
  each of its events carries a digest, and extending a bank of zeroed registers event by event, in the
  order of the log, ends with exactly the values that the token reports for measurement registers 1, 2
  and 3 (its first three entries), each of which some event extends. The verifier's grouping by
  register changes nothing. Register 0 and the fourth reported value are not compared, and an empty
  log is accepted as it is.
\<close>
theorem event_log_accounts_for_registers:
  assumes "event_verify X refs event_log rem = Inr detail" and sha: "\<And>b. length (sha256 X b) = 32"
  shows "event_log = [] \<or>
    (\<exists>es. eventlog_try_from event_log = Inr es \<and>
       registers X es 1 = rem ! 0 \<and> registers X es 2 = rem ! 1 \<and> registers X es 3 = rem ! 2 \<and>
       {1, 2, 3} \<subseteq> ee_target ` set es \<and> (\<forall>e\<in>set es. ee_digests e \<noteq> []))"
proof (cases "event_log = []")
  case False
  then obtain es replayed where es: "eventlog_try_from event_log = Inr es" "validate_event_log_digests es = Inr ()"
    and replayed: "replay_measurement_registry X es = Inr replayed"
    and same: "compare_rtmr_with_event_log replayed rem"
    using assms(1) by (auto simp: event_verify_def and_then_Inr_iff)
  have digests: "\<And>e. e \<in> set es \<Longrightarrow> ee_digests e \<noteq> []" using validated_digests [OF es(2)] .
  have "replayed = (\<lambda>r. if r \<in> ee_target ` set es then Some (registers X es r) else None)"
    using replayed replay_is_extension [OF digests sha] by simp
  then have "1 \<in> ee_target ` set es \<and> registers X es 1 = rem ! 0"
    "2 \<in> ee_target ` set es \<and> registers X es 2 = rem ! 1"
    "3 \<in> ee_target ` set es \<and> registers X es 3 = rem ! 2"
    using same by (simp_all add: compare_rtmr_with_event_log_def CVM_REM_ARR_SIZE_def upt_rec numeral_2_eq_2 split: if_splits)
  then show ?thesis using es digests by blast
qed simp

section \<open>Logs as they are written\<close>

text \<open>The format of the TCG PC Client profile: a header event that names the digest sizes, then events.\<close>

record raw_event =
  re_target :: u32
  re_type :: u32
  re_digests :: "(u16 \<times> byte list) list"
  re_desc :: "byte list"

definition u16_le :: "u16 \<Rightarrow> byte list" where
  "u16_le w = rev (be_nat 2 (unat w))"

definition write_digests :: "(u16 \<times> byte list) list \<Rightarrow> byte list" where
  "write_digests ds = concat (map (\<lambda>(a, d). u16_le a @ d) ds)"

definition write_sizes :: "(u16 \<times> u16) list \<Rightarrow> byte list" where
  "write_sizes sizes = concat (map (\<lambda>(a, n). u16_le a @ u16_le n) sizes)"

definition write_event :: "raw_event \<Rightarrow> byte list" where
  "write_event e = u32_le (re_target e) @ u32_le (re_type e) @ u32_le (of_nat (length (re_digests e)))
     @ write_digests (re_digests e) @ u32_le (of_nat (length (re_desc e))) @ re_desc e"

definition write_header :: "u32 \<Rightarrow> byte list \<Rightarrow> (u16 \<times> u16) list \<Rightarrow> byte list \<Rightarrow> byte list" where
  "write_header pcr filler sizes vendor = u32_le pcr @ u32_le 3 @ filler @ u32_le (of_nat (length sizes))
     @ write_sizes sizes @ [of_nat (length vendor)] @ vendor"

definition event_ok :: "(u16 \<rightharpoonup> u16) \<Rightarrow> raw_event \<Rightarrow> bool" where
  "event_ok sizes e \<longleftrightarrow> re_type e \<noteq> 3 \<and> \<not> is_stop (u64_of_be (rev (u32_le (re_target e) @ u32_le (re_type e)))) \<and>
     length (re_digests e) < 2 ^ 32 \<and> length (re_desc e) < 2 ^ 32 \<and>
     (\<forall>(a, d)\<in>set (re_digests e). length d < 2 ^ 16 \<and> sizes a = Some (of_nat (length d)))"

definition digest_of :: "u16 \<times> byte list \<Rightarrow> el_digest" where
  "digest_of p = \<lparr>ed_algorithm = algorithm_name (fst p), ed_digest = snd p\<rparr>"

definition entry_of :: "raw_event \<Rightarrow> eventlog_entry" where
  "entry_of e = \<lparr>ee_target = re_target e, ee_type_id = re_type e,
     ee_type = event_type_name ''UNKNOWN_TYPE: '' (re_type e),
     ee_digests = map digest_of (re_digests e), ee_desc = re_desc e\<rparr>"

lemma length_u16_le [simp]: "length (u16_le w) = 2"
  by (simp add: u16_le_def)

lemma u16_of_le_le [simp]: "u16_of_le (u16_le w) = w"
  using unat_bound [of w] by (simp add: u16_of_le_def u16_le_def nat_of_be_nat)

lemma slice_middle: "n = length pre \<Longrightarrow> m = length pre + length mid \<Longrightarrow> slice (pre @ mid @ rest) n m = Inr mid"
  by simp

lemma le_reads:
  "i = length pre \<Longrightarrow> le_u16 (pre @ u16_le w @ rest) i = Inr w"
  "i = length pre \<Longrightarrow> le_u32 (pre @ u32_le v @ rest) i = Inr v"
  "i = length pre \<Longrightarrow> le_u64 (pre @ u32_le v @ u32_le v' @ rest) i = Inr (u64_of_be (rev (u32_le v @ u32_le v')))"
  by (simp_all add: le_u16_def le_u32_def le_u64_def)

lemma read_sizes_written:
  "i = length pre \<Longrightarrow> read_sizes (pre @ write_sizes ss @ rest) (length ss) i sizes =
     Inr (sizes ++ map_of (rev ss), i + length (write_sizes ss))"
proof (induction ss arbitrary: pre i sizes)
  case (Cons s ss)
  obtain a n where s: "s = (a, n)" by (cases s)
  let ?data = "pre @ write_sizes (s # ss) @ rest"
  have data: "?data = pre @ u16_le a @ u16_le n @ write_sizes ss @ rest"
    by (simp add: s write_sizes_def)
  have "le_u16 ?data i = Inr a" unfolding data using Cons.prems by (rule le_reads)
  moreover have "le_u16 ?data (i + 2) = Inr n"
    using le_reads(1) [of "i + 2" "pre @ u16_le a" n "write_sizes ss @ rest"] Cons.prems by (simp add: data)
  moreover have "read_sizes ?data (length ss) (i + 4) (sizes(a \<mapsto> n)) =
      Inr (sizes(a \<mapsto> n) ++ map_of (rev ss), i + 4 + length (write_sizes ss))"
    using Cons.IH [of "i + 4" "pre @ u16_le a @ u16_le n" "sizes(a \<mapsto> n)"] Cons.prems by (simp add: data fun_upd_def)
  ultimately show ?case by (simp add: s write_sizes_def map_add_assoc)
qed (simp add: write_sizes_def)

lemma read_digests_written:
  "i = length pre \<Longrightarrow> (\<And>a d. (a, d) \<in> set ds \<Longrightarrow> length d < 2 ^ 16 \<and> sizes a = Some (of_nat (length d))) \<Longrightarrow>
     read_digests (pre @ write_digests ds @ rest) sizes (length ds) i =
     Inr (map digest_of ds, i + length (write_digests ds))"
proof (induction ds arbitrary: pre i)
  case (Cons p ds)
  obtain a d where p: "p = (a, d)" by (cases p)
  let ?data = "pre @ write_digests (p # ds) @ rest"
  have data: "?data = pre @ u16_le a @ d @ write_digests ds @ rest"
    by (simp add: p write_digests_def)
  have d: "sizes a = Some (of_nat (length d))" "unat (of_nat (length d) :: u16) = length d"
    using Cons.prems(2) [of a d] by (simp_all add: p unat_of_nat)
  have "le_u16 ?data i = Inr a" unfolding data using Cons.prems(1) by (rule le_reads)
  moreover have "slice ?data (i + 2) (i + 2 + length d) = Inr d"
    using slice_middle [of "i + 2" "pre @ u16_le a" "i + 2 + length d" d "write_digests ds @ rest"] Cons.prems(1)
    by (simp add: data)
  moreover have "read_digests ?data sizes (length ds) (i + 2 + length d) =
      Inr (map digest_of ds, i + 2 + length d + length (write_digests ds))"
  proof -
    have "read_digests ((pre @ u16_le a @ d) @ write_digests ds @ rest) sizes (length ds) (i + 2 + length d) =
        Inr (map digest_of ds, i + 2 + length d + length (write_digests ds))"
      using Cons.prems(1) by (intro Cons.IH Cons.prems(2)) simp_all
    then show ?thesis by (simp add: data)
  qed
  ultimately show ?case using d by (simp add: p digest_of_def write_digests_def)
qed (simp add: write_digests_def)

lemma no_action_name: "event_type_name ''UNKNOWN_TYPE: '' n = ''EV_NO_ACTION'' \<longleftrightarrow> n = 3"
  by (simp add: event_type_name_def EVENTLOG_TYPES_def)

lemma event_step_written:
  assumes "i = length pre" and ok: "event_ok sizes e"
  shows "eventlog_step (pre @ write_event e @ rest) i sizes = Inr (Entry (entry_of e) (i + length (write_event e)))"
proof -
  let ?data = "pre @ write_event e @ rest" and ?ds = "re_digests e"
  let ?n = "u32_le (of_nat (length ?ds))" and ?m = "u32_le (of_nat (length (re_desc e)))"
  note data = write_event_def append_assoc
  have n: "unat (of_nat (length ?ds) :: u32) = length ?ds" "unat (of_nat (length (re_desc e)) :: u32) = length (re_desc e)"
    using ok by (simp_all add: event_ok_def unat_of_nat)
  have r1: "le_u64 ?data i = Inr (u64_of_be (rev (u32_le (re_target e) @ u32_le (re_type e))))"
    unfolding data using assms(1) by (rule le_reads)
  have r2: "le_u32 ?data i = Inr (re_target e)"
    unfolding data using assms(1) by (rule le_reads)
  have r3: "le_u32 ?data (i + 4) = Inr (re_type e)"
    using le_reads(2) [of "i + 4" "pre @ u32_le (re_target e)"] assms(1) by (simp add: data)
  have r4: "le_u32 ?data (i + 8) = Inr (of_nat (length ?ds))"
    using le_reads(2) [of "i + 8" "pre @ u32_le (re_target e) @ u32_le (re_type e)"] assms(1) by (simp add: data)
  have r5: "read_digests ?data sizes (length ?ds) (i + 12) = Inr (map digest_of ?ds, i + 12 + length (write_digests ?ds))"
    using read_digests_written [of "i + 12" "pre @ u32_le (re_target e) @ u32_le (re_type e) @ ?n" ?ds sizes "?m @ re_desc e @ rest"]
      assms(1) ok by (auto simp: data event_ok_def)
  let ?j = "i + 12 + length (write_digests ?ds)"
  let ?pre = "pre @ u32_le (re_target e) @ u32_le (re_type e) @ ?n @ write_digests ?ds"
  have r6: "le_u32 ?data ?j = Inr (of_nat (length (re_desc e)))"
    using le_reads(2) [of ?j ?pre "of_nat (length (re_desc e))" "re_desc e @ rest"] assms(1) by (simp add: data)
  have r7: "slice ?data (?j + 4) (?j + 4 + length (re_desc e)) = Inr (re_desc e)"
    using slice_middle [of "?j + 4" "?pre @ ?m" "?j + 4 + length (re_desc e)" "re_desc e" rest] assms(1) by (simp add: data)
  have "\<not> is_stop (u64_of_be (rev (u32_le (re_target e) @ u32_le (re_type e))))" "re_type e \<noteq> 3"
    using ok by (simp_all add: event_ok_def)
  then show ?thesis
    unfolding eventlog_step_def Let_def r1 r2 r3 and_then_simps no_action_name
    using r4 r5 r6 r7 n by (simp add: entry_of_def write_event_def add.assoc)
qed

lemma header_step_written:
  assumes "i = length pre" and filler: "length filler = 48" and "length vendor < 256" and "length ss < 2 ^ 32"
  shows "eventlog_step (pre @ write_header pcr filler ss vendor @ rest) i sizes =
    Inr (Header (sizes ++ map_of (rev ss)) (i + length (write_header pcr filler ss vendor)))"
proof -
  let ?data = "pre @ write_header pcr filler ss vendor @ rest"
  let ?n = "u32_le (of_nat (length ss))" and ?v = "of_nat (length vendor) :: byte"
  note data = write_header_def append_assoc
  have n: "unat (of_nat (length ss) :: u32) = length ss" "unat ?v = length vendor"
    using assms by (simp_all add: unat_of_nat)
  have r1: "le_u64 ?data i = Inr (u64_of_be (rev (u32_le pcr @ u32_le 3)))"
    unfolding data using assms(1) by (rule le_reads)
  have r2: "le_u32 ?data i = Inr pcr"
    unfolding data using assms(1) by (rule le_reads)
  have r3: "le_u32 ?data (i + 4) = Inr 3"
    using le_reads(2) [of "i + 4" "pre @ u32_le pcr"] assms(1) by (simp add: data)
  let ?pre = "pre @ u32_le pcr @ u32_le 3 @ filler"
  have r4: "le_u32 ?data (i + 56) = Inr (of_nat (length ss))"
    using le_reads(2) [of "i + 56" ?pre] assms(1) filler by (simp add: data)
  have r5: "read_sizes ?data (length ss) (i + 60) sizes = Inr (sizes ++ map_of (rev ss), i + 60 + length (write_sizes ss))"
    using read_sizes_written [of "i + 60" "?pre @ ?n" ss "[?v] @ vendor @ rest" sizes] assms(1) filler by (simp add: data)
  have r6: "at ?data (i + 60 + length (write_sizes ss)) = Inr ?v"
    using assms(1) filler by (simp add: at_def data nth_append)
  show ?thesis
    unfolding eventlog_step_def Let_def r1 r2 r3 and_then_simps no_action_name
    using r4 r5 r6 n filler by (simp add: write_header_def add.assoc)
qed

definition end_mark :: "byte list \<Rightarrow> bool" where
  "end_mark tail \<longleftrightarrow> tail = [] \<or> (\<exists>junk. tail = u32_le 0xFFFFFFFF @ u32_le 0xFFFFFFFF @ junk)"

lemma be_nat_4: "be_nat 4 x = [of_nat (x div 16777216), of_nat (x div 65536), of_nat (x div 256), of_nat x]"
proof -
  have "(4 :: nat) = Suc (Suc (Suc (Suc 0)))" by simp
  then show ?thesis by (simp only: be_nat.simps) (simp flip: div_mult2_eq)
qed

lemma stop_mark: "u64_of_be (rev (u32_le 0xFFFFFFFF @ u32_le 0xFFFFFFFF)) = 0xFFFFFFFFFFFFFFFF"
  by (simp add: u32_le_def u32_be_def be_nat_4 u64_of_be_def nat_of_be_def)

lemma stop_step:
  "end_mark tail \<Longrightarrow> tail \<noteq> [] \<Longrightarrow> eventlog_step (pre @ tail) (length pre) sizes = Inr Stop"
proof -
  assume "end_mark tail" "tail \<noteq> []"
  then obtain junk where tail: "tail = u32_le 0xFFFFFFFF @ u32_le 0xFFFFFFFF @ junk" by (auto simp: end_mark_def)
  have r: "le_u64 (pre @ tail) (length pre) = Inr 0xFFFFFFFFFFFFFFFF" "le_u32 (pre @ tail) (length pre) = Inr 0xFFFFFFFF"
    "le_u32 (pre @ tail) (length pre + 4) = Inr 0xFFFFFFFF"
    using le_reads(3) [of "length pre" pre "0xFFFFFFFF" "0xFFFFFFFF" junk, OF refl]
      le_reads(2) [of "length pre" pre "0xFFFFFFFF" "u32_le 0xFFFFFFFF @ junk", OF refl]
      le_reads(2) [of "length pre + 4" "pre @ u32_le 0xFFFFFFFF" "0xFFFFFFFF" junk] stop_mark
    by (simp_all add: tail)
  show ?thesis
    unfolding eventlog_step_def Let_def r and_then_simps no_action_name by (simp add: is_stop_def)
qed

lemma write_event_nonempty: "0 < length (write_event e)"
  by (simp add: write_event_def)

lemma eventlog_loop_written:
  assumes "\<And>e. e \<in> set es \<Longrightarrow> event_ok sizes e" and mark: "end_mark tail"
  shows "eventlog_loop (pre @ concat (map write_event es) @ tail) (length pre) sizes = Inr (map entry_of es)"
  using assms(1)
proof (induction es arbitrary: pre)
  case Nil
  then show ?case
    using stop_step [OF mark, of pre sizes] by (cases "tail = []") (simp_all add: eventlog_loop.simps)
next
  case (Cons e es)
  have "eventlog_loop (pre @ write_event e @ concat (map write_event es) @ tail) (length pre + length (write_event e)) sizes
      = Inr (map entry_of es)"
    using Cons.IH [of "pre @ write_event e"] Cons.prems by simp
  moreover have "eventlog_step (pre @ write_event e @ concat (map write_event es) @ tail) (length pre) sizes
      = Inr (Entry (entry_of e) (length pre + length (write_event e)))"
    using Cons.prems by (intro event_step_written) simp_all
  ultimately show ?case
    using write_event_nonempty [of e] by (subst eventlog_loop.simps) simp
qed

lemma event_log_written:
  assumes "length filler = 48" "length vendor < 256" "length ss < 2 ^ 32"
    and "\<And>e. e \<in> set es \<Longrightarrow> event_ok (map_of (rev ss)) e" and "end_mark tail"
  shows "eventlog_try_from (write_header pcr filler ss vendor @ concat (map write_event es) @ tail) = Inr (map entry_of es)"
proof -
  have "eventlog_step ([] @ write_header pcr filler ss vendor @ concat (map write_event es) @ tail) 0 Map.empty
      = Inr (Header (Map.empty ++ map_of (rev ss)) (0 + length (write_header pcr filler ss vendor)))"
    using assms by (intro header_step_written) simp_all
  moreover have "eventlog_loop (write_header pcr filler ss vendor @ concat (map write_event es) @ tail)
      (length (write_header pcr filler ss vendor)) (map_of (rev ss)) = Inr (map entry_of es)"
    using assms by (intro eventlog_loop_written) simp_all
  moreover have "0 < length (write_header pcr filler ss vendor)" by (simp add: write_header_def)
  ultimately show ?thesis
    unfolding eventlog_try_from_def by (subst eventlog_loop.simps) simp
qed

text \<open>
  C40. An event log is read back as it was written: a header that names the size of each digest
  algorithm, then events, then the end of the data or eight bytes of ones. The entries come out in order,
  with their register, type, name of type, digests and description. The events have digests of the
  sizes of the header, counts and lengths that fit their fields, a type other than \<open>EV_NO_ACTION\<close>, and
  not both the register and the type all zeros or all ones. Those are not read back: the code takes an
  \<open>EV_NO_ACTION\<close> event for another header, and eight zeros or ones for the end of the log.
\<close>
theorem event_log_round_trip:
  assumes "length filler = 48" "length vendor < 256" "length ss < 2 ^ 32"
    and "\<And>e. e \<in> set es \<Longrightarrow> event_ok (map_of (rev ss)) e" and "end_mark tail"
  shows "eventlog_try_from (write_header pcr filler ss vendor @ concat (map write_event es) @ tail) = Inr (map entry_of es)"
  using assms by (rule event_log_written)

definition toy_event :: "u32 \<Rightarrow> raw_event" where
  "toy_event r = \<lparr>re_target = r, re_type = 4, re_digests = [(0xB, [7, 8])], re_desc = [1]\<rparr>"

lemma toy_event_ok: "r = 1 \<or> r = 2 \<or> r = 3 \<Longrightarrow> event_ok [0xB \<mapsto> 2] (toy_event r)"
  by (auto simp: event_ok_def toy_event_def is_stop_def u32_le_def u32_be_def be_nat_4 u64_of_be_def nat_of_be_def)

definition toy_log :: "byte list" where
  "toy_log = write_header 0 (replicate 48 0) [(0xB, 2)] [] @ concat (map write_event (map toy_event [1, 2, 3])) @ []"

theorem event_log_round_trip_witness:
  "eventlog_try_from toy_log = Inr (map entry_of (map toy_event [1, 2, 3]))"
  unfolding toy_log_def
  by (rule event_log_round_trip) (auto simp: toy_event_ok end_mark_def)

definition toy_sha :: externals where
  "toy_sha = \<lparr>parse_json = (\<lambda>b. None), print_json = (\<lambda>v. []), b64_encode = string_of, b64_decode = (\<lambda>s. None),
     b64url_encode = string_of, b64url_decode = (\<lambda>s. None), hex_encode = string_of, hex_decode = (\<lambda>s. None),
     sha256 = (\<lambda>b. take 32 (rev b) @ replicate (32 - length b) 0)\<rparr>"

definition toy_register :: "byte list" where
  "toy_register = 8 # 7 # replicate 30 0"

lemma toy_event_verified:
  "\<exists>detail. event_verify toy_sha (Some [''ab'']) toy_log [toy_register, toy_register, toy_register, []] = Inr detail"
proof -
  define es where "es = map entry_of (map toy_event [1, 2, 3])"
  have parsed: "eventlog_try_from toy_log = Inr es"
    unfolding toy_log_def es_def by (rule event_log_written) (auto simp: toy_event_ok end_mark_def)
  have targets: "ee_target ` set es = {1, 2, 3}" by (simp add: es_def entry_of_def toy_event_def)
  have chain: "registers toy_sha es r = toy_register" if "r = 1 \<or> r = 2 \<or> r = 3" for r
    using that by (auto simp: es_def registers_def extend_register_def toy_sha_def toy_event_def entry_of_def
        digest_of_def toy_register_def)
  have "replay_measurement_registry toy_sha es =
      Inr (\<lambda>r. if r \<in> ee_target ` set es then Some (registers toy_sha es r) else None)"
    by (rule replay_is_extension) (auto simp: es_def entry_of_def toy_event_def toy_sha_def)
  then have "replay_measurement_registry toy_sha es = Inr (\<lambda>r. if r \<in> {1, 2, 3} then Some (registers toy_sha es r) else None)"
    unfolding targets .
  moreover have "toy_log \<noteq> []" by (simp add: toy_log_def write_header_def)
  moreover have "validate_event_log_digests es = Inr ()"
    by (simp add: es_def entry_of_def toy_event_def digest_of_def)
  moreover have "length toy_register = 32" by (simp add: toy_register_def)
  ultimately show ?thesis
    by (simp add: event_verify_def parsed compare_rtmr_with_event_log_def CVM_REM_ARR_SIZE_def upt_rec chain
        file_reader_def numeral_2_eq_2)
qed

theorem event_log_accounts_for_registers_witness:
  "\<exists>es. eventlog_try_from toy_log = Inr es \<and> registers toy_sha es 1 = toy_register \<and> {1, 2, 3} \<subseteq> ee_target ` set es"
proof -
  obtain detail where "event_verify toy_sha (Some [''ab'']) toy_log [toy_register, toy_register, toy_register, []] = Inr detail"
    using toy_event_verified by blast
  moreover have "length (sha256 toy_sha b) = 32" for b by (simp add: toy_sha_def)
  moreover have "toy_log \<noteq> []" by (simp add: toy_log_def write_header_def)
  ultimately show ?thesis
    using event_log_accounts_for_registers
      [of toy_sha "Some [''ab'']" toy_log "[toy_register, toy_register, toy_register, []]" detail] by auto
qed

end
