(* ===== verification/CcaToken.thy ===== *)
theory CcaToken
  imports Natives
begin

text \<open>
  The two tokens of VirtCCA evidence, \<^verbatim>\<open>evidence-verify/src/virtcca/ccatoken.rs\<close>: a CBOR map is read entry
  by entry, each label by its setter; a later entry with the same label overwrites.

  \<^item> \<open>cbor\<close> is \<^verbatim>\<open>ciborium::Value\<close>; its reader is the record \<open>ciborium\<close>: \<open>read_value\<close> for a \<open>Value\<close>,
    \<open>read_byte_vec\<close> for a \<open>Vec<u8>\<close>.
  \<^item> An array of fixed size is a list; copying into it panics unless the length is the same.
\<close>

datatype cbor =
    CInteger int
  | CBytes "byte list"
  | CText string
  | CFloat string
  | CBool bool
  | CNull
  | CTag u64 cbor
  | CArray "cbor list"
  | CMap "(cbor \<times> cbor) list"

record ciborium =
  read_value :: "byte list \<Rightarrow> cbor option"
  read_byte_vec :: "byte list \<Rightarrow> byte list option"

section \<open>Labels and sizes\<close>

definition CVM_CHALLENGE :: int where "CVM_CHALLENGE = 10"
definition CVM_RPV :: int where "CVM_RPV = 44235"
definition CVM_HASH_ALG :: int where "CVM_HASH_ALG = 44236"
definition CVM_PUB_KEY :: int where "CVM_PUB_KEY = 44237"
definition CVM_RIM :: int where "CVM_RIM = 44238"
definition CVM_REM :: int where "CVM_REM = 44239"
definition CVM_PUB_KEY_HASH_ALG :: int where "CVM_PUB_KEY_HASH_ALG = 44240"

definition PLAT_PROFILE :: int where "PLAT_PROFILE = 265"
definition PLAT_CHALLENGE :: int where "PLAT_CHALLENGE = 10"
definition PLAT_IMPLEMENTATION :: int where "PLAT_IMPLEMENTATION = 2396"
definition PLAT_INSTANCE :: int where "PLAT_INSTANCE = 256"
definition PLAT_CONFIG :: int where "PLAT_CONFIG = 2401"
definition PLAT_LIFESTYLE :: int where "PLAT_LIFESTYLE = 2395"
definition PLAT_SW_COMPONENTS :: int where "PLAT_SW_COMPONENTS = 2399"
definition PLAT_VERIFICATION_SERVICE :: int where "PLAT_VERIFICATION_SERVICE = 2400"
definition PLAT_HASH_ALGO :: int where "PLAT_HASH_ALGO = 2402"

definition SW_TYPE :: int where "SW_TYPE = 1"
definition SW_MEASUREMENT_VALUE :: int where "SW_MEASUREMENT_VALUE = 2"
definition SW_VERSION :: int where "SW_VERSION = 4"
definition SW_SIGNER_ID :: int where "SW_SIGNER_ID = 5"
definition SW_ALGORITHM_ID :: int where "SW_ALGORITHM_ID = 6"

definition CHALLENGE_SIZE :: nat where "CHALLENGE_SIZE = 64"
definition RPV_SIZE :: nat where "RPV_SIZE = 64"
definition REM_ARR_SIZE :: nat where "REM_ARR_SIZE = 4"
definition PUB_KEY_ECC_SIZE :: nat where "PUB_KEY_ECC_SIZE = 133"
definition PUB_KEY_RSA_SIZE :: nat where "PUB_KEY_RSA_SIZE = 550"
definition SW_MEASUREMENT_SIZE :: nat where "SW_MEASUREMENT_SIZE = 32"
definition PLAT_CHALLENGE_SIZE :: nat where "PLAT_CHALLENGE_SIZE = 32"
definition IMPLEMENTATION_SIZE :: nat where "IMPLEMENTATION_SIZE = 32"
definition INSTANCE_SIZE :: nat where "INSTANCE_SIZE = 33"
definition SW_COUNTS :: nat where "SW_COUNTS = 6"

lemmas cvm_labels = CVM_CHALLENGE_def CVM_RPV_def CVM_HASH_ALG_def CVM_PUB_KEY_def CVM_RIM_def CVM_REM_def
  CVM_PUB_KEY_HASH_ALG_def
lemmas platform_labels = PLAT_PROFILE_def PLAT_CHALLENGE_def PLAT_IMPLEMENTATION_def PLAT_INSTANCE_def
  PLAT_CONFIG_def PLAT_LIFESTYLE_def PLAT_SW_COMPONENTS_def PLAT_VERIFICATION_SERVICE_def PLAT_HASH_ALGO_def
lemmas token_sizes = CHALLENGE_SIZE_def RPV_SIZE_def REM_ARR_SIZE_def PUB_KEY_ECC_SIZE_def PUB_KEY_RSA_SIZE_def
  SW_MEASUREMENT_SIZE_def PLAT_CHALLENGE_SIZE_def IMPLEMENTATION_SIZE_def INSTANCE_SIZE_def SW_COUNTS_def

section \<open>Typed values\<close>

definition get_vec :: "cbor \<Rightarrow> nat list \<Rightarrow> byte list res" where
  "get_vec v sizes =
     (case v of
        CBytes b \<Rightarrow>
          if sizes = [] then Inr b
          else and_then (bail_unless (length b \<in> set sizes) ''expecting other size'') (\<lambda>_. Inr b)
      | _ \<Rightarrow> Inl (Err ''is none''))"

definition get_string :: "cbor \<Rightarrow> string res" where
  "get_string v = (case v of CText s \<Rightarrow> Inr (trim_nulls s) | _ \<Rightarrow> Inl (Err ''must be str''))"

definition get_num :: "cbor \<Rightarrow> int res" where
  "get_num v = (case v of CInteger n \<Rightarrow> Inr n | _ \<Rightarrow> Inl (Err ''must be num''))"

definition get_cbor_array :: "cbor \<Rightarrow> nat \<Rightarrow> cbor list res" where
  "get_cbor_array v n =
     (case v of
        CArray xs \<Rightarrow> and_then (bail_unless (length xs = n) ''expecting other size'') (\<lambda>_. Inr xs)
      | _ \<Rightarrow> Inl (Err ''must be array''))"

text \<open>The loop over the entries of a map.\<close>

fun each_entry :: "string \<Rightarrow> ('t \<Rightarrow> int \<Rightarrow> cbor \<Rightarrow> 't res) \<Rightarrow> (cbor \<times> cbor) list \<Rightarrow> 't \<Rightarrow> 't res" where
  "each_entry msg set_label [] t = Inr t"
| "each_entry msg set_label ((k, v) # kvs) t =
     (case k of
        CInteger i \<Rightarrow> and_then (set_label t i v) (each_entry msg set_label kvs)
      | _ \<Rightarrow> Inl (Err msg))"

section \<open>The token of the confidential VM\<close>

record cvm_token =
  cvm_challenge :: "byte list"
  cvm_rpv :: "byte list"
  cvm_rim :: "byte list"
  cvm_rem :: "byte list list"
  cvm_hash_alg :: string
  cvm_pub_key :: "byte list"
  cvm_pub_key_hash_alg :: string

definition cvm_token_new :: cvm_token where
  "cvm_token_new = \<lparr>cvm_challenge = replicate CHALLENGE_SIZE 0, cvm_rpv = replicate RPV_SIZE 0, cvm_rim = [],
     cvm_rem = replicate REM_ARR_SIZE [], cvm_hash_alg = [], cvm_pub_key = [], cvm_pub_key_hash_alg = []\<rparr>"

definition cvm_set_challenge :: "cvm_token \<Rightarrow> cbor \<Rightarrow> cvm_token res" where
  "cvm_set_challenge t v =
     and_then (get_vec v [CHALLENGE_SIZE]) (\<lambda>b.
     and_then (copy_exact (length (cvm_challenge t)) b) (\<lambda>b. Inr (t\<lparr>cvm_challenge := b\<rparr>)))"

definition cvm_set_rpv :: "cvm_token \<Rightarrow> cbor \<Rightarrow> cvm_token res" where
  "cvm_set_rpv t v =
     and_then (get_vec v [RPV_SIZE]) (\<lambda>b.
     and_then (copy_exact (length (cvm_rpv t)) b) (\<lambda>b. Inr (t\<lparr>cvm_rpv := b\<rparr>)))"

definition cvm_set_rim :: "cvm_token \<Rightarrow> cbor \<Rightarrow> cvm_token res" where
  "cvm_set_rim t v = and_then (get_vec v [32, 48, 64]) (\<lambda>b. Inr (t\<lparr>cvm_rim := b\<rparr>))"

definition cvm_set_rem :: "cvm_token \<Rightarrow> cbor \<Rightarrow> cvm_token res" where
  "cvm_set_rem t v =
     and_then (get_cbor_array v REM_ARR_SIZE) (\<lambda>xs.
     and_then (traverse (\<lambda>x. get_vec x [32, 48, 64]) xs) (\<lambda>bs. Inr (t\<lparr>cvm_rem := bs\<rparr>)))"

definition cvm_set_hash_alg :: "cvm_token \<Rightarrow> cbor \<Rightarrow> cvm_token res" where
  "cvm_set_hash_alg t v = and_then (get_string v) (\<lambda>s. Inr (t\<lparr>cvm_hash_alg := s\<rparr>))"

definition cvm_set_pub_key :: "cvm_token \<Rightarrow> cbor \<Rightarrow> cvm_token res" where
  "cvm_set_pub_key t v =
     and_then (get_vec v [PUB_KEY_ECC_SIZE, PUB_KEY_RSA_SIZE]) (\<lambda>b. Inr (t\<lparr>cvm_pub_key := b\<rparr>))"

definition cvm_set_pub_key_hash_alg :: "cvm_token \<Rightarrow> cbor \<Rightarrow> cvm_token res" where
  "cvm_set_pub_key_hash_alg t v = and_then (get_string v) (\<lambda>s. Inr (t\<lparr>cvm_pub_key_hash_alg := s\<rparr>))"

definition cvm_set_label :: "cvm_token \<Rightarrow> int \<Rightarrow> cbor \<Rightarrow> cvm_token res" where
  "cvm_set_label t label v =
     (if label = CVM_CHALLENGE then cvm_set_challenge t v
      else if label = CVM_RPV then cvm_set_rpv t v
      else if label = CVM_RIM then cvm_set_rim t v
      else if label = CVM_REM then cvm_set_rem t v
      else if label = CVM_HASH_ALG then cvm_set_hash_alg t v
      else if label = CVM_PUB_KEY then cvm_set_pub_key t v
      else if label = CVM_PUB_KEY_HASH_ALG then cvm_set_pub_key_hash_alg t v
      else Inl (Err ''cvm payload unknown label''))"

definition cvm_decode :: "ciborium \<Rightarrow> byte list \<Rightarrow> cvm_token res" where
  "cvm_decode C raw_payload =
     and_then (ok_or ''cbor'' (read_byte_vec C raw_payload)) (\<lambda>payload.
     and_then (ok_or ''cbor'' (read_value C payload)) (\<lambda>v.
     case v of
       CMap contents \<Rightarrow> each_entry ''cvm payload expecting integer key'' cvm_set_label contents cvm_token_new
     | _ \<Rightarrow> Inl (Err ''expecting cvm payload map type'')))"

section \<open>The platform token\<close>

record sw_comp =
  sw_firware_name :: string
  sw_measurement :: "byte list"
  sw_firware_version :: string
  sw_signer :: "byte list"
  sw_hash_algorithm :: string

definition sw_comp_new :: sw_comp where
  "sw_comp_new = \<lparr>sw_firware_name = [], sw_measurement = replicate SW_MEASUREMENT_SIZE 0, sw_firware_version = [],
     sw_signer = [], sw_hash_algorithm = []\<rparr>"

definition sw_set_measurement :: "sw_comp \<Rightarrow> cbor \<Rightarrow> sw_comp res" where
  "sw_set_measurement t v =
     and_then (get_vec v [SW_MEASUREMENT_SIZE]) (\<lambda>b.
     and_then (copy_exact (length (sw_measurement t)) b) (\<lambda>b. Inr (t\<lparr>sw_measurement := b\<rparr>)))"

definition sw_set_signer :: "sw_comp \<Rightarrow> cbor \<Rightarrow> sw_comp res" where
  "sw_set_signer t v =
     and_then (get_vec v []) (\<lambda>b.
     and_then (copy_exact (length (sw_signer t)) b) (\<lambda>b. Inr (t\<lparr>sw_signer := b\<rparr>)))"

definition sw_set_type :: "sw_comp \<Rightarrow> cbor \<Rightarrow> sw_comp res" where
  "sw_set_type t v = and_then (get_string v) (\<lambda>s. Inr (t\<lparr>sw_firware_name := s\<rparr>))"

definition sw_set_version :: "sw_comp \<Rightarrow> cbor \<Rightarrow> sw_comp res" where
  "sw_set_version t v = and_then (get_string v) (\<lambda>s. Inr (t\<lparr>sw_firware_version := s\<rparr>))"

definition sw_set_algo :: "sw_comp \<Rightarrow> cbor \<Rightarrow> sw_comp res" where
  "sw_set_algo t v = and_then (get_string v) (\<lambda>s. Inr (t\<lparr>sw_hash_algorithm := s\<rparr>))"

definition sw_set_label :: "sw_comp \<Rightarrow> int \<Rightarrow> cbor \<Rightarrow> sw_comp res" where
  "sw_set_label t label v =
     (if label = SW_TYPE then sw_set_type t v
      else if label = SW_VERSION then sw_set_version t v
      else if label = SW_MEASUREMENT_VALUE then sw_set_measurement t v
      else if label = SW_SIGNER_ID then sw_set_signer t v
      else if label = SW_ALGORITHM_ID then sw_set_algo t v
      else Inl (Err ''sw_comp payload unknown label''))"

definition sw_decode :: "cbor \<Rightarrow> sw_comp res" where
  "sw_decode v =
     (case v of
        CMap contents \<Rightarrow> each_entry ''Un-supported label type'' sw_set_label contents sw_comp_new
      | _ \<Rightarrow> Inl (Err ''expecting sw_comp payload map type''))"

record platform_token =
  plat_profile :: string
  plat_challenge :: "byte list"
  plat_implementation :: "byte list"
  plat_instance :: "byte list"
  plat_config :: "byte list"
  plat_life :: int
  plat_components :: "sw_comp list"
  plat_comp_cnts :: int
  plat_verification_service :: string
  plat_hash_algo :: string

definition platform_token_new :: platform_token where
  "platform_token_new = \<lparr>plat_profile = [], plat_challenge = replicate PLAT_CHALLENGE_SIZE 0,
     plat_implementation = replicate IMPLEMENTATION_SIZE 0, plat_instance = replicate INSTANCE_SIZE 0,
     plat_config = [], plat_life = 0, plat_components = [], plat_comp_cnts = 0,
     plat_verification_service = [], plat_hash_algo = []\<rparr>"

definition plat_set_config :: "platform_token \<Rightarrow> cbor \<Rightarrow> platform_token res" where
  "plat_set_config t v =
     and_then (get_vec v []) (\<lambda>b.
     and_then (copy_exact (length (plat_config t)) b) (\<lambda>b. Inr (t\<lparr>plat_config := b\<rparr>)))"

definition plat_set_challenge :: "platform_token \<Rightarrow> cbor \<Rightarrow> platform_token res" where
  "plat_set_challenge t v =
     and_then (get_vec v [PLAT_CHALLENGE_SIZE]) (\<lambda>b.
     and_then (copy_exact (length (plat_challenge t)) b) (\<lambda>b. Inr (t\<lparr>plat_challenge := b\<rparr>)))"

definition plat_set_implementation :: "platform_token \<Rightarrow> cbor \<Rightarrow> platform_token res" where
  "plat_set_implementation t v =
     and_then (get_vec v [IMPLEMENTATION_SIZE]) (\<lambda>b.
     and_then (copy_exact (length (plat_implementation t)) b) (\<lambda>b. Inr (t\<lparr>plat_implementation := b\<rparr>)))"

definition plat_set_instance :: "platform_token \<Rightarrow> cbor \<Rightarrow> platform_token res" where
  "plat_set_instance t v =
     and_then (get_vec v [INSTANCE_SIZE]) (\<lambda>b.
     and_then (copy_exact (length (plat_instance t)) b) (\<lambda>b. Inr (t\<lparr>plat_instance := b\<rparr>)))"

definition plat_set_lifecycle :: "platform_token \<Rightarrow> cbor \<Rightarrow> platform_token res" where
  "plat_set_lifecycle t v = and_then (get_num v) (\<lambda>n. Inr (t\<lparr>plat_life := n\<rparr>))"

definition plat_set_verification_service :: "platform_token \<Rightarrow> cbor \<Rightarrow> platform_token res" where
  "plat_set_verification_service t v = and_then (get_string v) (\<lambda>s. Inr (t\<lparr>plat_verification_service := s\<rparr>))"

definition plat_set_hash_algo :: "platform_token \<Rightarrow> cbor \<Rightarrow> platform_token res" where
  "plat_set_hash_algo t v = and_then (get_string v) (\<lambda>s. Inr (t\<lparr>plat_hash_algo := s\<rparr>))"

definition plat_set_profile :: "platform_token \<Rightarrow> cbor \<Rightarrow> platform_token res" where
  "plat_set_profile t v = and_then (get_string v) (\<lambda>s. Inr (t\<lparr>plat_profile := s\<rparr>))"

definition plat_set_sw_components :: "platform_token \<Rightarrow> cbor \<Rightarrow> platform_token res" where
  "plat_set_sw_components t v =
     and_then (get_cbor_array v SW_COUNTS) (\<lambda>xs.
     and_then (traverse sw_decode xs) (\<lambda>comps. Inr (t\<lparr>plat_components := plat_components t @ comps\<rparr>)))"

definition plat_set_label :: "platform_token \<Rightarrow> int \<Rightarrow> cbor \<Rightarrow> platform_token res" where
  "plat_set_label t label v =
     (if label = PLAT_PROFILE then plat_set_profile t v
      else if label = PLAT_CHALLENGE then plat_set_challenge t v
      else if label = PLAT_IMPLEMENTATION then plat_set_implementation t v
      else if label = PLAT_INSTANCE then plat_set_instance t v
      else if label = PLAT_CONFIG then plat_set_config t v
      else if label = PLAT_LIFESTYLE then plat_set_lifecycle t v
      else if label = PLAT_SW_COMPONENTS then plat_set_sw_components t v
      else if label = PLAT_VERIFICATION_SERVICE then plat_set_verification_service t v
      else if label = PLAT_HASH_ALGO then plat_set_hash_algo t v
      else Inl (Err ''platform_token payload unknown label''))"

definition platform_decode :: "ciborium \<Rightarrow> byte list \<Rightarrow> platform_token res" where
  "platform_decode C raw_payload =
     and_then (ok_or ''cbor'' (read_value C raw_payload)) (\<lambda>v.
     case v of
       CMap contents \<Rightarrow>
         each_entry ''platform_token payload expecting integer key'' plat_set_label contents platform_token_new
     | _ \<Rightarrow> Inl (Err ''expecting platform_token payload map type''))"

section \<open>Serialization\<close>

definition sw_comp_json :: "externals \<Rightarrow> sw_comp \<Rightarrow> json" where
  "sw_comp_json X c = jobj [(''firware_name'', JStr (sw_firware_name c)),
     (''measurement'', JStr (hex_encode X (sw_measurement c))),
     (''firware_version'', JStr (sw_firware_version c))]"

section \<open>Lengths\<close>

text \<open>What every token under construction satisfies.\<close>

definition cvm_ok :: "cvm_token \<Rightarrow> bool" where
  "cvm_ok t \<longleftrightarrow> length (cvm_challenge t) = 64 \<and> length (cvm_rpv t) = 64 \<and> length (cvm_rem t) = 4"

definition platform_ok :: "platform_token \<Rightarrow> bool" where
  "platform_ok t \<longleftrightarrow> length (plat_challenge t) = 32 \<and> length (plat_implementation t) = 32 \<and>
     length (plat_instance t) = 33 \<and> plat_config t = [] \<and> (\<forall>c\<in>set (plat_components t). sw_signer c = [])"

lemma get_vec_Inr: "get_vec v sizes = Inr b \<longleftrightarrow> v = CBytes b \<and> (sizes = [] \<or> length b \<in> set sizes)"
  by (auto simp: get_vec_def and_then_Inr_iff split: cbor.splits)

lemma calm_get [calm_intros]: "calm (get_vec v sizes)" "calm (get_string v)" "calm (get_num v)" "calm (get_cbor_array v n)"
  by (auto simp: get_vec_def get_string_def get_num_def get_cbor_array_def split: cbor.split intro!: calm_intros)

lemma traverse_Inr_length: "traverse f xs = Inr ys \<Longrightarrow> length ys = length xs"
  by (induction xs arbitrary: ys) (auto simp: and_then_Inr_iff)

lemma calm_traverse [calm_intros]: "(\<And>x. x \<in> set xs \<Longrightarrow> calm (f x)) \<Longrightarrow> calm (traverse f xs)"
  by (induction xs) (auto intro!: calm_intros)

lemma each_entry_invariant:
  assumes "\<And>t i v t'. I t \<Longrightarrow> set_label t i v = Inr t' \<Longrightarrow> I t'"
  shows "I t \<Longrightarrow> each_entry msg set_label kvs t = Inr t' \<Longrightarrow> I t'"
proof (induction kvs arbitrary: t)
  case (Cons kv kvs)
  obtain k v where kv: "kv = (k, v)" by (cases kv)
  show ?case
  proof (cases k)
    case (CInteger i)
    then obtain t1 where "set_label t i v = Inr t1" "each_entry msg set_label kvs t1 = Inr t'"
      using Cons.prems by (auto simp: kv and_then_Inr_iff)
    then show ?thesis using Cons.IH Cons.prems assms by blast
  qed (use Cons.prems in \<open>simp_all add: kv\<close>)
qed simp

lemma each_entry_calm:
  assumes "\<And>t i v t'. I t \<Longrightarrow> set_label t i v = Inr t' \<Longrightarrow> I t'" and "\<And>t i v. I t \<Longrightarrow> calm (set_label t i v)"
  shows "I t \<Longrightarrow> calm (each_entry msg set_label kvs t)"
proof (induction kvs arbitrary: t)
  case (Cons kv kvs)
  obtain k v where kv: "kv = (k, v)" by (cases kv)
  show ?case
  proof (cases k)
    case (CInteger i)
    then show ?thesis using Cons assms by (auto simp: kv intro!: calm_and_then)
  qed (simp_all add: kv)
qed simp

lemma cvm_set_label_ok: "cvm_ok t \<Longrightarrow> cvm_set_label t i v = Inr t' \<Longrightarrow> cvm_ok t'"
  by (auto simp: cvm_ok_def cvm_set_label_def cvm_set_challenge_def cvm_set_rpv_def cvm_set_rim_def cvm_set_rem_def
      cvm_set_hash_alg_def cvm_set_pub_key_def cvm_set_pub_key_hash_alg_def and_then_Inr_iff get_cbor_array_def
      token_sizes split: if_splits cbor.splits dest: traverse_Inr_length)

lemma cvm_set_label_calm: "cvm_ok t \<Longrightarrow> calm (cvm_set_label t i v)"
  unfolding cvm_set_label_def cvm_set_challenge_def cvm_set_rpv_def cvm_set_rim_def cvm_set_rem_def
    cvm_set_hash_alg_def cvm_set_pub_key_def cvm_set_pub_key_hash_alg_def
  by (intro calm_intros calm_copy_exact) (auto simp: cvm_ok_def get_vec_Inr token_sizes)

lemma cvm_new_ok: "cvm_ok cvm_token_new"
  by (simp add: cvm_ok_def cvm_token_new_def token_sizes)

lemma cvm_decode_ok:
  assumes "cvm_decode C raw = Inr t"
  shows "cvm_ok t"
proof -
  obtain v where "(case v of CMap contents \<Rightarrow>
         each_entry ''cvm payload expecting integer key'' cvm_set_label contents cvm_token_new
       | _ \<Rightarrow> Inl (Err ''expecting cvm payload map type'')) = Inr t"
    using assms unfolding cvm_decode_def by (auto simp: and_then_Inr_iff)
  then obtain kvs where "each_entry ''cvm payload expecting integer key'' cvm_set_label kvs cvm_token_new = Inr t"
    by (cases v) auto
  then show ?thesis
    by (rule each_entry_invariant [rotated 2]) (auto intro: cvm_set_label_ok cvm_new_ok)
qed

lemma calm_cvm_decode [calm_intros]: "calm (cvm_decode C raw)"
  unfolding cvm_decode_def
  using each_entry_calm [of cvm_ok cvm_set_label, OF cvm_set_label_ok cvm_set_label_calm cvm_new_ok]
  by (auto split: cbor.split intro!: calm_intros)

lemma sw_set_label_signer: "sw_signer t = [] \<Longrightarrow> sw_set_label t i v = Inr t' \<Longrightarrow> sw_signer t' = []"
  by (auto simp: sw_set_label_def sw_set_type_def sw_set_version_def sw_set_measurement_def sw_set_signer_def
      sw_set_algo_def and_then_Inr_iff split: if_splits)

lemma sw_decode_signer:
  assumes "sw_decode v = Inr c"
  shows "sw_signer c = []"
proof -
  obtain kvs msg where "each_entry msg sw_set_label kvs sw_comp_new = Inr c"
    using assms by (auto simp: sw_decode_def split: cbor.splits)
  then show ?thesis
    by (rule each_entry_invariant [where I = "\<lambda>c. sw_signer c = []", rotated 2])
      (auto intro: sw_set_label_signer simp: sw_comp_new_def)
qed

lemma traverse_Inr_all: "traverse f xs = Inr ys \<Longrightarrow> y \<in> set ys \<Longrightarrow> \<exists>x\<in>set xs. f x = Inr y"
  by (induction xs arbitrary: ys) (auto simp: and_then_Inr_iff)

lemma traverse_signer: "traverse sw_decode xs = Inr comps \<Longrightarrow> c \<in> set comps \<Longrightarrow> sw_signer c = []"
  by (auto dest: traverse_Inr_all sw_decode_signer)

lemma plat_set_label_ok: "platform_ok t \<Longrightarrow> plat_set_label t i v = Inr t' \<Longrightarrow> platform_ok t'"
  by (auto simp: platform_ok_def plat_set_label_def plat_set_profile_def plat_set_challenge_def
      plat_set_implementation_def plat_set_instance_def plat_set_config_def plat_set_lifecycle_def
      plat_set_sw_components_def plat_set_verification_service_def plat_set_hash_algo_def and_then_Inr_iff
      traverse_signer split: if_splits)

lemma platform_new_ok: "platform_ok platform_token_new"
  by (simp add: platform_ok_def platform_token_new_def token_sizes)

lemma platform_decode_ok:
  assumes "platform_decode C raw = Inr t"
  shows "platform_ok t"
proof -
  obtain v where "(case v of CMap contents \<Rightarrow>
         each_entry ''platform_token payload expecting integer key'' plat_set_label contents platform_token_new
       | _ \<Rightarrow> Inl (Err ''expecting platform_token payload map type'')) = Inr t"
    using assms unfolding platform_decode_def by (auto simp: and_then_Inr_iff)
  then obtain kvs where
      "each_entry ''platform_token payload expecting integer key'' plat_set_label kvs platform_token_new = Inr t"
    by (cases v) auto
  then show ?thesis
    by (rule each_entry_invariant [rotated 2]) (auto intro: plat_set_label_ok platform_new_ok)
qed

end
