(* ===== verification/Ima.thy ===== *)
theory Ima
  imports EventLog
begin

text \<open>
  The IMA log verifiers, \<^verbatim>\<open>evidence-verify/src/ima/mod.rs\<close>, \<^verbatim>\<open>virtcca.rs\<close> and \<^verbatim>\<open>itrustee.rs\<close>.

  \<^item> The crate \<^verbatim>\<open>ima_measurements\<close> is the record \<open>ima_crate\<close>: all events of a log (\<open>None\<close> when its
    \<open>next\<close> fails) and, by index, the SHA-256 value of every PCR the log measured.
  \<^item> \<open>ref_files\<close> holds the file system the reference files are read from; the build flag \<open>no_as\<close>
    selects their directory.
  \<^item> \<open>ima_json\<close> is the JSON object under construction.
\<close>

datatype event_data = ImaNg "byte list" string | OtherData

record ima_event =
  pcr_index :: u32
  event_data :: event_data

record ima_crate =
  ima_events :: "byte list \<Rightarrow> ima_event list option"
  pcr_values :: "byte list \<Rightarrow> u32 \<Rightarrow> byte list option"

record ref_files =
  rf_exists :: "string \<Rightarrow> bool"
  rf_lines :: "string \<Rightarrow> string list option"

definition MIN_IMA_EVENTS :: nat where "MIN_IMA_EVENTS = 2"

definition DIGEST_LIST_FILE_NAME :: string where "DIGEST_LIST_FILE_NAME = ''digest_list_file''"

fun ima_details :: "externals \<Rightarrow> string list \<Rightarrow> ima_event list \<Rightarrow> (string \<times> json) list \<Rightarrow> (string \<times> json) list res" where
  "ima_details X refs [] detail = Inr detail"
| "ima_details X refs (e # es) detail =
     (case event_data e of
        ImaNg digest name \<Rightarrow>
          if name = ''boot_aggregate'' then ima_details X refs es detail
          else ima_details X refs es (obj_insert name (JBool (hex_encode X digest \<in> set refs)) detail)
      | OtherData \<Rightarrow> Inl (Err ''Invalid event''))"

definition verify_ima_events :: "externals \<Rightarrow> ima_event list \<Rightarrow> string list \<Rightarrow> json res" where
  "verify_ima_events X events refs =
     and_then (bail_unless (\<not> length events < 2) ''No IMA measurement records for files found.'') (\<lambda>_.
     and_then (ima_details X refs events []) (\<lambda>detail.
     Inr (JObj detail)))"

definition is_ascii_hexdigit :: "char \<Rightarrow> bool" where
  "is_ascii_hexdigit c \<longleftrightarrow>
     (CHR ''0'' \<le> c \<and> c \<le> CHR ''9'') \<or> (CHR ''a'' \<le> c \<and> c \<le> CHR ''f'') \<or> (CHR ''A'' \<le> c \<and> c \<le> CHR ''F'')"

text \<open>\<open>format!("{}/{}/{}", ..)\<close>.\<close>

definition app_file :: "string \<Rightarrow> string \<Rightarrow> string" where
  "app_file base app = base @ ''/'' @ app @ ''/'' @ DIGEST_LIST_FILE_NAME"

section \<open>VirtCCA\<close>

definition virtcca_ima_dir :: "bool \<Rightarrow> string" where
  "virtcca_ima_dir no_as =
     (if no_as then ''/etc/attestation/attestation-agent/local_verifier/virtcca/ima''
      else ''/etc/attestation/attestation-service/verifier/virtcca/ima'')"

definition virtcca_ima_file :: "bool \<Rightarrow> string" where
  "virtcca_ima_file no_as =
     (if no_as then ''/etc/attestation/attestation-agent/local_verifier/virtcca/ima/digest_list_file''
      else ''/etc/attestation/attestation-service/verifier/virtcca/ima/digest_list_file'')"

definition is_valid_rim_hex :: "string \<Rightarrow> bool" where
  "is_valid_rim_hex s \<longleftrightarrow> length s \<in> {64, 96, 128} \<and> list_all is_ascii_hexdigit s"

definition virtcca_reference_path :: "ref_files \<Rightarrow> bool \<Rightarrow> string option \<Rightarrow> string" where
  "virtcca_reference_path F no_as app_id =
     (case app_id of
        None \<Rightarrow> virtcca_ima_file no_as
      | Some app \<Rightarrow>
          if \<not> is_valid_rim_hex app then virtcca_ima_file no_as
          else if rf_exists F (app_file (virtcca_ima_dir no_as) app) then app_file (virtcca_ima_dir no_as) app
          else virtcca_ima_file no_as)"

text \<open>A first file event in a PCR the log does not measure ends in the \<open>expect\<close>.\<close>

definition virtcca_ima_verify ::
  "externals \<Rightarrow> ima_crate \<Rightarrow> ref_files \<Rightarrow> bool \<Rightarrow> byte list \<Rightarrow> byte list list \<Rightarrow> string option \<Rightarrow> json res" where
  "virtcca_ima_verify X I F no_as ima_log rems app_id =
     (if ima_log = [] then Inr (jobj [])
      else
        and_then (ok_or ''parser'' (ima_events I ima_log)) (\<lambda>events.
        and_then (bail_unless (\<not> length events < MIN_IMA_EVENTS) ''No IMA measurement records for files found.'') (\<lambda>_.
        and_then (at events 1) (\<lambda>e.
        and_then (bail_unless (\<not> (pcr_index e < 1 \<or> pcr_index e > of_nat CVM_REM_ARR_SIZE))
          ''Invalid pcr_index for IMA'') (\<lambda>_.
        and_then (case pcr_values I ima_log (pcr_index e) of
            None \<Rightarrow> Inl (Panic ''PCR not measured'') | Some v \<Rightarrow> Inr v) (\<lambda>pcr_value.
        and_then (at rems (unat (pcr_index e - 1))) (\<lambda>register.
        and_then (bail_unless (hex_encode X pcr_value = hex_encode X register) ''IMA log hash verification failed'') (\<lambda>_.
        and_then (ok_or ''Failed to read'' (rf_lines F (virtcca_reference_path F no_as app_id))) (\<lambda>lines.
        verify_ima_events X events (map trim_end lines))))))))))"

section \<open>iTrustee\<close>

definition itrustee_ima_dir :: "bool \<Rightarrow> string" where
  "itrustee_ima_dir no_as =
     (if no_as then ''/etc/attestation/attestation-agent/local_verifier/itrustee/ima''
      else ''/etc/attestation/attestation-service/verifier/itrustee/ima'')"

definition itrustee_ima_file :: "bool \<Rightarrow> string" where
  "itrustee_ima_file no_as =
     (if no_as then ''/etc/attestation/attestation-agent/local_verifier/itrustee/ima/digest_list_file''
      else ''/etc/attestation/attestation-service/verifier/itrustee/ima/digest_list_file'')"

definition is_valid_uuid :: "string \<Rightarrow> bool" where
  "is_valid_uuid s \<longleftrightarrow> length s = 36 \<and> length (filter (\<lambda>c. c = CHR ''-'') s) = 4 \<and>
     list_all (\<lambda>c. is_ascii_hexdigit c \<or> c = CHR ''-'') s"

definition itrustee_reference_path :: "ref_files \<Rightarrow> bool \<Rightarrow> string option \<Rightarrow> string" where
  "itrustee_reference_path F no_as uuid =
     (case uuid of
        None \<Rightarrow> itrustee_ima_file no_as
      | Some u \<Rightarrow>
          if \<not> is_valid_uuid u then itrustee_ima_file no_as
          else if rf_exists F (app_file (itrustee_ima_dir no_as) u) then app_file (itrustee_ima_dir no_as) u
          else itrustee_ima_file no_as)"

definition itrustee_ima_verify ::
  "externals \<Rightarrow> ima_crate \<Rightarrow> ref_files \<Rightarrow> bool \<Rightarrow> byte list \<Rightarrow> byte list list \<Rightarrow> string option \<Rightarrow> json res" where
  "itrustee_ima_verify X I F no_as ima_log hashes app_id =
     (if ima_log = [] then Inr (jobj [])
      else
        and_then (ok_or ''parser'' (ima_events I ima_log)) (\<lambda>events.
        and_then (bail_unless (\<not> length events < MIN_IMA_EVENTS) ''No IMA measurement records for files found.'') (\<lambda>_.
        and_then (bail_unless (hashes \<noteq> []) ''ima_log_hash array is empty'') (\<lambda>_.
        and_then (at hashes 0) (\<lambda>expected.
        and_then (bail_unless (sha256 X ima_log = expected) ''ima log hash verification failed'') (\<lambda>_.
        and_then (ok_or ''Failed to read'' (rf_lines F (itrustee_reference_path F no_as app_id))) (\<lambda>lines.
        verify_ima_events X events (map trim_end lines))))))))"

section \<open>Verdicts\<close>

text \<open>The digest of the last file event of a name.\<close>

fun named_digest :: "ima_event \<Rightarrow> (string \<times> byte list) option" where
  "named_digest e = (case event_data e of ImaNg digest name \<Rightarrow> Some (name, digest) | OtherData \<Rightarrow> None)"

definition last_digest :: "ima_event list \<Rightarrow> string \<Rightarrow> byte list option" where
  "last_digest events name = map_of (rev (List.map_filter named_digest events)) name"

definition file_verdict :: "externals \<Rightarrow> string list \<Rightarrow> ima_event list \<Rightarrow> string \<Rightarrow> json option" where
  "file_verdict X refs events name =
     (if name = ''boot_aggregate'' then None
      else map_option (\<lambda>d. JBool (hex_encode X d \<in> set refs)) (last_digest events name))"

lemma last_digest_Cons:
  "last_digest (e # es) name =
     (case last_digest es name of Some d \<Rightarrow> Some d
      | None \<Rightarrow> (case event_data e of ImaNg d n \<Rightarrow> if n = name then Some d else None | OtherData \<Rightarrow> None))"
  by (auto simp: last_digest_def List.map_filter_simps map_add_def split: event_data.split option.split)

lemma last_digest_Nil [simp]: "last_digest [] name = None"
  by (simp add: last_digest_def List.map_filter_simps)

lemma ima_details_verdict:
  "ima_details X refs events detail = Inr m \<Longrightarrow>
    map_of m name = (case file_verdict X refs events name of None \<Rightarrow> map_of detail name | v \<Rightarrow> v)"
proof (induction X refs events detail rule: ima_details.induct)
  case (2 X refs e es detail)
  then show ?case
    by (cases "event_data e")
      (auto simp: file_verdict_def last_digest_Cons split: if_splits option.split)
qed (simp add: file_verdict_def)

lemma verify_ima_events_verdict:
  "verify_ima_events X events refs = Inr v \<Longrightarrow> json_get name v = file_verdict X refs events name"
  by (auto simp: verify_ima_events_def and_then_Inr_iff ima_details_verdict split: option.split)

lemma ima_details_events:
  "ima_details X refs events detail = Inr m \<Longrightarrow> e \<in> set events \<Longrightarrow> event_data e \<noteq> OtherData"
  by (induction X refs events detail rule: ima_details.induct) (auto split: event_data.splits if_splits)

lemma pcr_register:
  fixes p :: u32
  assumes "\<not> (p < 1 \<or> p > of_nat CVM_REM_ARR_SIZE)"
  shows "unat (p - 1) < 4 \<and> p = of_nat (Suc (unat (p - 1)))"
proof -
  have "1 \<le> unat p" "unat p \<le> 4"
    using assms by (simp_all add: CVM_REM_ARR_SIZE_def word_less_nat_alt not_less)
  moreover have "unat (p - 1) = unat p - 1"
    using \<open>1 \<le> unat p\<close> by (simp add: unat_sub_if')
  ultimately have "unat (p - 1) < 4" "unat p = Suc (unat (p - 1))" by linarith+
  then show ?thesis by (simp flip: \<open>unat p = Suc (unat (p - 1))\<close> del: of_nat_Suc)
qed

lemma virtcca_ima_verify_ok:
  assumes "virtcca_ima_verify X I F no_as ima_log rems app_id = Inr v" and "ima_log \<noteq> []"
  shows "\<exists>events pcr_value lines i. ima_events I ima_log = Some events \<and> 2 \<le> length events \<and>
      pcr_index (events ! 1) = of_nat (Suc i) \<and> i < 4 \<and> i < length rems \<and>
      pcr_values I ima_log (of_nat (Suc i)) = Some pcr_value \<and> hex_encode X pcr_value = hex_encode X (rems ! i) \<and>
      rf_lines F (virtcca_reference_path F no_as app_id) = Some lines \<and>
      verify_ima_events X events (map trim_end lines) = Inr v"
proof -
  obtain events pcr_value lines where
    events: "ima_events I ima_log = Some events" "\<not> length events < MIN_IMA_EVENTS" and
    pcr: "\<not> (pcr_index (events ! 1) < 1 \<or> pcr_index (events ! 1) > of_nat CVM_REM_ARR_SIZE)" and
    rest: "pcr_values I ima_log (pcr_index (events ! 1)) = Some pcr_value"
      "unat (pcr_index (events ! 1) - 1) < length rems"
      "hex_encode X pcr_value = hex_encode X (rems ! unat (pcr_index (events ! 1) - 1))"
      "rf_lines F (virtcca_reference_path F no_as app_id) = Some lines"
      "verify_ima_events X events (map trim_end lines) = Inr v"
    using assms unfolding virtcca_ima_verify_def
    by (clarsimp simp: and_then_Inr_iff at_Inr_iff split: option.splits)
  show ?thesis
    using events rest pcr_register [OF pcr]
    by (intro exI [of _ events] exI [of _ pcr_value] exI [of _ lines]
        exI [of _ "unat (pcr_index (events ! 1) - 1)"]) (simp add: MIN_IMA_EVENTS_def)
qed

end
