(* ===== verification/Virtcca.thy ===== *)
theory Virtcca
  imports CcaToken Ima
begin

text \<open>
  The VirtCCA evidence verifier, \<^verbatim>\<open>evidence-verify/src/virtcca/mod.rs\<close>.

  \<^item> The crates \<^verbatim>\<open>cose\<close> and \<^verbatim>\<open>openssl\<close> are the record \<open>cose_ssl\<close>: opening an envelope gives its
    algorithm and payload, setting a key and decoding with it may fail. X.509 certificates and keys are
    type parameters; a call that returns an error gives \<open>None\<close>.
  \<^item> Only the build flags \<open>no_as\<close> and \<open>ima_verifier\<close> change what this part does.
  \<^item> A COSE envelope is its bytes with what opening them found.
\<close>

definition MAX_CHALLENGE_LEN :: nat where "MAX_CHALLENGE_LEN = 64"
definition CBOR_TAG :: u64 where "CBOR_TAG = 399"
definition CVM_LABEL :: int where "CVM_LABEL = 44241"
definition PLATFORM_LABEL :: int where "PLATFORM_LABEL = 44234"

record features =
  no_as :: bool
  ima_verifier :: bool

definition cert_dir :: "bool \<Rightarrow> string" where
  "cert_dir as_agent =
     (if as_agent then ''/etc/attestation/attestation-agent/local_verifier/virtcca/''
      else ''/etc/attestation/attestation-service/verifier/virtcca/'')"

definition RSA_ROOT_CERT :: "bool \<Rightarrow> string" where
  "RSA_ROOT_CERT as_agent = cert_dir as_agent @ ''Huawei Equipment Root CA.pem''"
definition RSA_SUB_CERT :: "bool \<Rightarrow> string" where
  "RSA_SUB_CERT as_agent = cert_dir as_agent @ ''Huawei IT Product CA.pem''"
definition ECCP_ROOT_CERT :: "bool \<Rightarrow> string" where
  "ECCP_ROOT_CERT as_agent = cert_dir as_agent @ ''eccp521_root_cert.pem''"
definition ECCP_SUB_CERT :: "bool \<Rightarrow> string" where
  "ECCP_SUB_CERT as_agent = cert_dir as_agent @ ''eccp521_sub_cert.pem''"

definition VIRTCCA_REF_VALUE_FILE :: string where
  "VIRTCCA_REF_VALUE_FILE = ''/etc/attestation/attestation-agent/local_verifier/virtcca/ref_value.json''"

definition EVENT_REFERENCE_FILE :: "bool \<Rightarrow> string" where
  "EVENT_REFERENCE_FILE as_agent =
     (if as_agent then ''/etc/attestation/attestation-agent/local_verifier/virtcca/event/digest_list_file''
      else ''/etc/attestation/attestation-service/verifier/virtcca/event/digest_list_file'')"

section \<open>Libraries\<close>

datatype key_kind = KeyRSA | KeyEC | KeyOther
datatype curve = P_521 | OtherCurve
datatype key_type = RSA | EC2
datatype key_op = KEY_OPS_VERIFY
datatype digest_name = SHA_256 | SHA_384 | SHA_512

record cose_key =
  ck_kty :: "key_type option"
  ck_n :: "byte list option"
  ck_e :: "byte list option"
  ck_crv :: "curve option"
  ck_x :: "byte list option"
  ck_y :: "byte list option"
  ck_ops :: "key_op list"
  ck_alg :: "int option"

definition cose_key_new :: cose_key where
  "cose_key_new = \<lparr>ck_kty = None, ck_n = None, ck_e = None, ck_crv = None, ck_x = None, ck_y = None,
     ck_ops = [], ck_alg = None\<rparr>"

record ('x, 'k) cose_ssl =
  cose_open :: "byte list \<Rightarrow> (int option \<times> byte list) option"
  cose_set_key :: "byte list \<Rightarrow> cose_key \<Rightarrow> bool"
  cose_verify :: "byte list \<Rightarrow> cose_key \<Rightarrow> bool"
  x509_pem :: "byte list \<Rightarrow> 'x option"
  x509_der :: "byte list \<Rightarrow> 'x option"
  x509_key :: "'x \<Rightarrow> 'k option"
  x509_verify :: "'x \<Rightarrow> 'k \<Rightarrow> bool option"
  key_kind :: "'k \<Rightarrow> key_kind"
  key_rsa :: "'k \<Rightarrow> (byte list \<times> byte list) option"
  key_curve :: "'k \<Rightarrow> curve option option"
  key_point :: "'k \<Rightarrow> byte list option"
  key_of_der :: "byte list \<Rightarrow> 'k option"
  key_of_p521 :: "byte list \<Rightarrow> 'k option"
  ssl_hash :: "digest_name \<Rightarrow> byte list \<Rightarrow> byte list option"

section \<open>Evidence\<close>

record cose_message =
  cm_bytes :: "byte list"
  cm_alg :: "int option"
  cm_payload :: "byte list"

definition cose_message_new :: cose_message where
  "cose_message_new = \<lparr>cm_bytes = [], cm_alg = None, cm_payload = []\<rparr>"

record cvm_evidence =
  cvm_envelop :: cose_message
  cvm_token :: cvm_token
  platform_envelop :: cose_message
  platform_token :: platform_token
  is_platform :: bool

definition cvm_evidence_new :: cvm_evidence where
  "cvm_evidence_new = \<lparr>cvm_envelop = cose_message_new, cvm_token = cvm_token_new,
     platform_envelop = cose_message_new, platform_token = platform_token_new, is_platform = False\<rparr>"

definition set_cvm_token :: "cvm_evidence \<Rightarrow> cbor \<Rightarrow> cvm_evidence res" where
  "set_cvm_token e v =
     and_then (get_vec v []) (\<lambda>b. Inr (e\<lparr>cvm_envelop := (cvm_envelop e)\<lparr>cm_bytes := b\<rparr>\<rparr>))"

definition set_platform_token :: "cvm_evidence \<Rightarrow> cbor \<Rightarrow> cvm_evidence res" where
  "set_platform_token e v =
     and_then (get_vec v []) (\<lambda>b. Inr (e\<lparr>platform_envelop := (platform_envelop e)\<lparr>cm_bytes := b\<rparr>\<rparr>))"

definition evidence_set_label :: "cvm_evidence \<Rightarrow> int \<Rightarrow> cbor \<Rightarrow> cvm_evidence res" where
  "evidence_set_label e label v =
     (if label = CVM_LABEL then set_cvm_token e v
      else if label = PLATFORM_LABEL then set_platform_token (e\<lparr>is_platform := True\<rparr>) v
      else Inl (Err ''unknown label''))"

definition cose_decode :: "('x, 'k) cose_ssl \<Rightarrow> cose_message \<Rightarrow> cose_message res" where
  "cose_decode S m =
     and_then (ok_or ''decode COSE failed'' (cose_open S (cm_bytes m))) (\<lambda>(alg, payload).
     Inr (m\<lparr>cm_alg := alg, cm_payload := payload\<rparr>))"

definition decode_platform :: "ciborium \<Rightarrow> ('x, 'k) cose_ssl \<Rightarrow> cvm_evidence \<Rightarrow> cvm_evidence res" where
  "decode_platform C S e =
     (if is_platform e then
        and_then (cose_decode S (platform_envelop e)) (\<lambda>envelop.
        and_then (platform_decode C (cm_payload envelop)) (\<lambda>token.
        Inr (e\<lparr>platform_envelop := envelop, platform_token := token\<rparr>)))
      else Inr e)"

definition evidence_decode :: "ciborium \<Rightarrow> ('x, 'k) cose_ssl \<Rightarrow> byte list \<Rightarrow> cvm_evidence res" where
  "evidence_decode C S raw =
     and_then (ok_or ''cbor'' (read_value C raw)) (\<lambda>val.
     and_then (case val of
         CTag t m \<Rightarrow>
           and_then (bail_unless (t = CBOR_TAG) ''input evidence error'') (\<lambda>_.
           case m of
             CMap contents \<Rightarrow> each_entry ''expecting integer key'' evidence_set_label contents cvm_evidence_new
           | _ \<Rightarrow> Inl (Err ''expecting map type''))
       | _ \<Rightarrow> Inl (Err ''expecting tag type'')) (\<lambda>e.
     and_then (cose_decode S (cvm_envelop e)) (\<lambda>envelop.
     and_then (cvm_decode C (cm_payload envelop)) (\<lambda>token.
     decode_platform C S (e\<lparr>cvm_envelop := envelop, cvm_token := token\<rparr>)))))"

section \<open>Signatures\<close>

definition pkey_to_cosekey :: "('x, 'k) cose_ssl \<Rightarrow> 'k \<Rightarrow> cose_key res" where
  "pkey_to_cosekey S pkey =
     (case key_kind S pkey of
        KeyRSA \<Rightarrow>
          and_then (ok_or ''rsa'' (key_rsa S pkey)) (\<lambda>(n, e).
          Inr (cose_key_new\<lparr>ck_kty := Some RSA, ck_n := Some n, ck_e := Some e\<rparr>))
      | KeyEC \<Rightarrow>
          and_then (ok_or ''ec_key'' (key_curve S pkey)) (\<lambda>crv.
          and_then (bail_unless (crv = Some P_521) ''Unsupported EC curve'') (\<lambda>_.
          and_then (ok_or ''to_bytes'' (key_point S pkey)) (\<lambda>pt.
          and_then (bail_unless (pt \<noteq> [] \<and> hd pt = 4) ''Unsupported EC point format'') (\<lambda>_.
          (let coordinate_len = (length pt - 1) div 2 in
           and_then (slice pt 1 (1 + coordinate_len)) (\<lambda>x.
           and_then (slice pt (1 + coordinate_len) (length pt)) (\<lambda>y.
           Inr (cose_key_new\<lparr>ck_kty := Some EC2, ck_crv := Some P_521, ck_x := Some x, ck_y := Some y\<rparr>))))))))
      | KeyOther \<Rightarrow> Inl (Err ''Unsupported key type''))"

definition verify_cose_sign1 :: "('x, 'k) cose_ssl \<Rightarrow> cose_message \<Rightarrow> 'k \<Rightarrow> unit res" where
  "verify_cose_sign1 S envelop pkey =
     and_then (pkey_to_cosekey S pkey) (\<lambda>key.
     and_then (ok_or ''cose sign verify alg is none'' (cm_alg envelop)) (\<lambda>alg.
     (let key = key\<lparr>ck_ops := [KEY_OPS_VERIFY], ck_alg := Some alg\<rparr> in
      and_then (bail_unless (cose_set_key S (cm_bytes envelop) key)
        ''set cose_key to COSE_Sign1 envelop failed'') (\<lambda>_.
      bail_unless (cose_verify S (cm_bytes envelop) key) ''verify COSE_Sign1 signature failed''))))"

definition detect_cert_path :: "('x, 'k) cose_ssl \<Rightarrow> bool \<Rightarrow> 'x \<Rightarrow> (string \<times> string) res" where
  "detect_cert_path S as_agent dev_cert =
     and_then (ok_or ''public_key'' (x509_key S dev_cert)) (\<lambda>pubkey.
     case key_kind S pubkey of
       KeyRSA \<Rightarrow> Inr (RSA_ROOT_CERT as_agent, RSA_SUB_CERT as_agent)
     | KeyEC \<Rightarrow> Inr (ECCP_ROOT_CERT as_agent, ECCP_SUB_CERT as_agent)
     | KeyOther \<Rightarrow> Inl (Err ''unsupported cert type''))"

text \<open>\<open>cert.verify(&issuer.public_key()?)?\<close> and its test.\<close>

definition verify_cert_by :: "('x, 'k) cose_ssl \<Rightarrow> string \<Rightarrow> 'x \<Rightarrow> 'x \<Rightarrow> unit res" where
  "verify_cert_by S msg cert issuer =
     and_then (ok_or ''public_key'' (x509_key S issuer)) (\<lambda>key.
     and_then (ok_or ''verify'' (x509_verify S cert key)) (\<lambda>ret.
     bail_unless ret msg))"

definition read_cert :: "('x, 'k) cose_ssl \<Rightarrow> (string \<Rightarrow> byte list option) \<Rightarrow> string \<Rightarrow> 'x res" where
  "read_cert S read path =
     and_then (ok_or ''failed to read VirtCCA cert'' (read path)) (\<lambda>pem.
     ok_or ''failed to parse VirtCCA cert'' (x509_pem S pem))"

definition verify_dev_cert_chain ::
  "('x, 'k) cose_ssl \<Rightarrow> (string \<Rightarrow> byte list option) \<Rightarrow> bool \<Rightarrow> 'x \<Rightarrow> unit res" where
  "verify_dev_cert_chain S read as_agent dev_cert =
     and_then (detect_cert_path S as_agent dev_cert) (\<lambda>(root_cert_path, sub_cert_path).
     and_then (read_cert S read sub_cert_path) (\<lambda>sub_cert.
     and_then (read_cert S read root_cert_path) (\<lambda>root_cert.
     and_then (verify_cert_by S ''verify dev cert by sub cert failed'' dev_cert sub_cert) (\<lambda>_.
     and_then (verify_cert_by S ''verify sub cert by root cert failed'' sub_cert root_cert) (\<lambda>_.
     verify_cert_by S ''verify self signed root cert failed'' root_cert root_cert)))))"

definition verify_platform_token ::
  "('x, 'k) cose_ssl \<Rightarrow> (string \<Rightarrow> byte list option) \<Rightarrow> bool \<Rightarrow> cvm_evidence \<Rightarrow> 'x \<Rightarrow> unit res" where
  "verify_platform_token S read as_agent e dev_cert =
     and_then (verify_dev_cert_chain S read as_agent dev_cert) (\<lambda>_.
     if is_platform e then
       and_then (ok_or ''public_key'' (x509_key S dev_cert)) (\<lambda>pkey.
       verify_cose_sign1 S (platform_envelop e) pkey)
     else Inr ())"

section \<open>The token of the confidential VM\<close>

definition verfiy_cvm_challenge :: "('x, 'k) cose_ssl \<Rightarrow> cvm_evidence \<Rightarrow> byte list \<Rightarrow> byte list \<Rightarrow> unit res" where
  "verfiy_cvm_challenge S e challenge raw_pub_key =
     (let name = cvm_pub_key_hash_alg (cvm_token e) in
      and_then (if name = ''sha-256'' then Inr SHA_256 else if name = ''sha-384'' then Inr SHA_384
        else if name = ''sha-512'' then Inr SHA_512
        else Inl (Err ''unsupported algorithm for pubkey verification'')) (\<lambda>digest.
      and_then (ok_or ''hash'' (ssl_hash S digest raw_pub_key)) (\<lambda>calculated_challenge.
      bail_unless (calculated_challenge = challenge) ''verify cvm pubkey by platform challenge failed'')))"

definition raw_ec_public_key_to_pkey :: "('x, 'k) cose_ssl \<Rightarrow> cvm_evidence \<Rightarrow> 'k res" where
  "raw_ec_public_key_to_pkey S e =
     (let raw_key = cvm_pub_key (cvm_token e) in
      and_then (bail_unless (raw_key \<noteq> [] \<and> hd raw_key = 4) ''Invalid uncompressed EC public key format'') (\<lambda>_.
      ok_or ''from_bytes'' (key_of_p521 S raw_key)))"

text \<open>The \<open>rim\<close> member is the only one looked at.\<close>

fun compare_rim :: "externals \<Rightarrow> cvm_evidence \<Rightarrow> (string \<times> json) list \<Rightarrow> unit res" where
  "compare_rim X e [] = Inr ()"
| "compare_rim X e ((k, v) # obj) =
     (if k = ''rim'' then
        (case v of
           JStr rim_ref \<Rightarrow>
             and_then (bail_unless (rim_ref = hex_encode X (cvm_rim (cvm_token e))) ''expecting rim'') (\<lambda>_.
             compare_rim X e obj)
         | _ \<Rightarrow> Inl (Err ''tim ref expecting String''))
      else compare_rim X e obj)"

definition compare_with_ref :: "externals \<Rightarrow> (string \<Rightarrow> byte list option) \<Rightarrow> cvm_evidence \<Rightarrow> unit res" where
  "compare_with_ref X read e =
     and_then (ok_or ''failed to read VirtCCA reference value'' (read VIRTCCA_REF_VALUE_FILE)) (\<lambda>ref_file.
     and_then (ok_or ''failed to parse VirtCCA reference value'' (from_slice X ref_file)) (\<lambda>js_ref.
     case js_ref of
       JObj obj \<Rightarrow> compare_rim X e obj
     | _ \<Rightarrow> Inl (Err ''invalid json ref value'')))"

text \<open>Only as many bytes of the token's challenge as the request has are compared.\<close>

definition verify_cvm_token ::
  "externals \<Rightarrow> ('x, 'k) cose_ssl \<Rightarrow> (string \<Rightarrow> byte list option) \<Rightarrow> bool \<Rightarrow> cvm_evidence \<Rightarrow> byte list \<Rightarrow> unit res" where
  "verify_cvm_token X S read as_agent e challenge =
     and_then (slice (cvm_challenge (cvm_token e)) 0 (length challenge)) (\<lambda>token_challenge.
     and_then (bail_unless (challenge = token_challenge) ''verify cvm token challenge error'') (\<lambda>_.
     and_then (if is_platform e
         then verfiy_cvm_challenge S e (plat_challenge (platform_token e)) (cvm_pub_key (cvm_token e))
         else Inr ()) (\<lambda>_.
     and_then (case key_of_der S (cvm_pub_key (cvm_token e)) of
         Some k \<Rightarrow> Inr k | None \<Rightarrow> raw_ec_public_key_to_pkey S e) (\<lambda>pkey.
     and_then (verify_cose_sign1 S (cvm_envelop e) pkey) (\<lambda>_.
     if as_agent then compare_with_ref X read e else Inr ())))))"

section \<open>Claims and verification\<close>

definition parse_claim_from_evidence :: "externals \<Rightarrow> cvm_evidence \<Rightarrow> json \<Rightarrow> json \<Rightarrow> json res" where
  "parse_claim_from_evidence X e ima event_log =
     (let t = cvm_token e in
      and_then (at (cvm_rem t) 0) (\<lambda>rem0.
      and_then (at (cvm_rem t) 1) (\<lambda>rem1.
      and_then (at (cvm_rem t) 2) (\<lambda>rem2.
      and_then (at (cvm_rem t) 3) (\<lambda>rem3.
      Inr (jobj [
        (''tee'', JStr ''virtcca''),
        (''payload'', jobj [
          (''vcca.cvm.challenge'', JStr (hex_encode X (cvm_challenge t))),
          (''vcca.cvm.rpv'', JStr (hex_encode X (cvm_rpv t))),
          (''vcca.cvm.rim'', JStr (hex_encode X (cvm_rim t))),
          (''vcca.cvm.rem.0'', JStr (hex_encode X rem0)),
          (''vcca.cvm.rem.1'', JStr (hex_encode X rem1)),
          (''vcca.cvm.rem.2'', JStr (hex_encode X rem2)),
          (''vcca.cvm.rem.3'', JStr (hex_encode X rem3)),
          (''vcca.is_platform'', JBool (is_platform e)),
          (''vcca.platform.measure_value'', JArr (map (sw_comp_json X) (plat_components (platform_token e))))]),
        (''ima'', ima),
        (''event_log'', event_log)]))))))"

record virtcca_evidence =
  ve_evidence :: "byte list"
  ve_dev_cert :: "byte list"
  ve_ima_log :: "byte list option"
  ve_event_log :: "byte list option"

definition virtcca_evidence_json :: "json \<Rightarrow> virtcca_evidence option" where
  "virtcca_evidence_json v =
     Option.bind (struct_exact [''evidence'', ''dev_cert'', ''ima_log'', ''event_log''] v) (\<lambda>f.
     Option.bind (required as_bytes (f ''evidence'')) (\<lambda>evidence.
     Option.bind (required as_bytes (f ''dev_cert'')) (\<lambda>dev_cert.
     Option.bind (optional as_bytes (f ''ima_log'')) (\<lambda>ima.
     Option.bind (optional as_bytes (f ''event_log'')) (\<lambda>event_log.
     Some \<lparr>ve_evidence = evidence, ve_dev_cert = dev_cert, ve_ima_log = ima, ve_event_log = event_log\<rparr>)))))"

text \<open>What the verifier runs on: the libraries, the build and the file system.\<close>

record ('x, 'k) virtcca_env =
  vx_ext :: externals
  vx_cbor :: ciborium
  vx_ssl :: "('x, 'k) cose_ssl"
  vx_ima :: ima_crate
  vx_build :: features
  vx_refs :: ref_files
  vx_read :: "string \<Rightarrow> byte list option"

definition verify_ima_log :: "('x, 'k) virtcca_env \<Rightarrow> cvm_evidence \<Rightarrow> byte list option \<Rightarrow> json res" where
  "verify_ima_log V e ima_log =
     (case ima_log of
        None \<Rightarrow> Inr (jobj [])
      | Some log \<Rightarrow>
          if ima_verifier (vx_build V) then
            virtcca_ima_verify (vx_ext V) (vx_ima V) (vx_refs V) (no_as (vx_build V)) log (cvm_rem (cvm_token e))
              (Some (hex_encode (vx_ext V) (cvm_rim (cvm_token e))))
          else Inl (Err ''VirtCCA evidence contains ima_log, but ima-verifier feature is disabled''))"

definition verify_event_log :: "('x, 'k) virtcca_env \<Rightarrow> cvm_evidence \<Rightarrow> byte list option \<Rightarrow> json res" where
  "verify_event_log V e event_log =
     (case event_log of
        None \<Rightarrow> Inr (jobj [])
      | Some log \<Rightarrow> event_verify (vx_ext V) (rf_lines (vx_refs V) (EVENT_REFERENCE_FILE (no_as (vx_build V)))) log
          (cvm_rem (cvm_token e)))"

definition verify_virtcca :: "('x, 'k) virtcca_env \<Rightarrow> byte list \<Rightarrow> byte list \<Rightarrow> json res" where
  "verify_virtcca V user_data evidence =
     (let X = vx_ext V; S = vx_ssl V; as_agent = no_as (vx_build V) in
      and_then (ok_or ''VirtccaEvidence'' (Option.bind (parse_json X evidence) virtcca_evidence_json)) (\<lambda>ev.
      and_then (evidence_decode (vx_cbor V) S (ve_evidence ev)) (\<lambda>e.
      and_then (ok_or ''dev_cert''
        (if is_platform e then x509_pem S (ve_dev_cert ev) else x509_der S (ve_dev_cert ev))) (\<lambda>dev_cert.
      and_then (verify_platform_token S (vx_read V) as_agent e dev_cert) (\<lambda>_.
      and_then (verify_cvm_token X S (vx_read V) as_agent e user_data) (\<lambda>_.
      and_then (verify_ima_log V e (ve_ima_log ev)) (\<lambda>ima.
      and_then (verify_event_log V e (ve_event_log ev)) (\<lambda>event_log.
      parse_claim_from_evidence X e ima event_log))))))))"

definition evaluate_virtcca :: "('x, 'k) virtcca_env \<Rightarrow> byte list \<Rightarrow> byte list \<Rightarrow> json res" where
  "evaluate_virtcca V user_data evidence =
     and_then (ok_or ''decode base64url challenge failed'' (b64url_decode (vx_ext V) (string_of user_data))) (\<lambda>challenge.
     and_then (bail_unless (\<not> (length challenge = 0 \<or> length challenge > MAX_CHALLENGE_LEN)) ''challenge len is error'') (\<lambda>_.
     verify_virtcca V challenge evidence))"

text \<open>\<open>parse_evidence\<close> checks nothing.\<close>

definition parse_evidence :: "('x, 'k) virtcca_env \<Rightarrow> byte list \<Rightarrow> json res" where
  "parse_evidence V evidence =
     and_then (ok_or ''VirtccaEvidence'' (Option.bind (parse_json (vx_ext V) evidence) virtcca_evidence_json)) (\<lambda>ev.
     and_then (evidence_decode (vx_cbor V) (vx_ssl V) (ve_evidence ev)) (\<lambda>e.
     and_then (parse_claim_from_evidence (vx_ext V) e (JStr '''') (JStr '''')) (\<lambda>claim.
     Inr (json_index ''payload'' claim))))"

end
