(* ===== verification/Itrustee.thy ===== *)
theory Itrustee
  imports Virtcca
begin

text \<open>
  The iTrustee evidence verifier, \<^verbatim>\<open>evidence-verify/src/itrustee/mod.rs\<close>.

  \<^item> The foreign function \<^verbatim>\<open>tee_verify_report\<close> is \<open>ix_verify_report\<close>: what it returns for a report, a nonce,
    a policy and a file name. Each buffer comes with the size that is passed, its length as a \<open>u32\<close>.
  \<^item> The file name ends in the NUL that is appended to it.
\<close>

definition ITRUSTEE_REF_VALUE_DIR :: string where
  "ITRUSTEE_REF_VALUE_DIR = ''/etc/attestation/attestation-service/verifier/itrustee''"

definition ITRUSTEE_MAX_CHALLENGE_LEN :: nat where "ITRUSTEE_MAX_CHALLENGE_LEN = 64"

record itrustee_evidence =
  ie_report :: string
  ie_ima_log :: "byte list option"

definition itrustee_evidence_of :: "json \<Rightarrow> itrustee_evidence option" where
  "itrustee_evidence_of v =
     Option.bind (struct_exact [''report'', ''ima_log''] v) (\<lambda>f.
     Option.bind (required as_str (f ''report'')) (\<lambda>report.
     Option.bind (optional as_bytes (f ''ima_log'')) (\<lambda>ima.
     Some \<lparr>ie_report = report, ie_ima_log = ima\<rparr>)))"

record buffer_data =
  buf_size :: u32
  buf :: "byte list"

definition buffer_of :: "byte list \<Rightarrow> buffer_data" where
  "buffer_of b = \<lparr>buf_size = of_nat (length b), buf = b\<rparr>"

record itrustee_env =
  ix_ext :: externals
  ix_ima :: ima_crate
  ix_build :: features
  ix_refs :: ref_files
  ix_verify_report :: "buffer_data \<Rightarrow> buffer_data \<Rightarrow> int \<Rightarrow> byte list \<Rightarrow> int"

text \<open>With an IMA log the report's nonce is the challenge and the hash of the log, 32 bytes each.\<close>

definition itrustee_with_ima :: "itrustee_env \<Rightarrow> byte list \<Rightarrow> json \<Rightarrow> byte list \<Rightarrow> (json \<times> byte list) res" where
  "itrustee_with_ima I challenge js ima_log =
     (if \<not> ima_verifier (ix_build I) then
        Inl (Err ''iTrustee evidence contains ima_log, but ima-verifier feature is disabled'')
      else
        and_then (ok_or ''IMA verification: nonce not found in evidence''
          (as_str (json_index ''nonce'' (json_index ''payload'' js)))) (\<lambda>report_nonce.
        and_then (ok_or ''IMA verification: uuid not found in evidence''
          (as_str (json_index ''uuid'' (json_index ''payload'' js)))) (\<lambda>uuid.
        and_then (ok_or ''decode base64url report nonce failed'' (b64url_decode (ix_ext I) report_nonce)) (\<lambda>nonce_all.
        and_then (bail_unless (length nonce_all = ITRUSTEE_MAX_CHALLENGE_LEN)
          ''IMA verification: nonce length is not 64 bytes'') (\<lambda>_.
        and_then (slice nonce_all 0 32) (\<lambda>nonce_expected.
        and_then (slice nonce_all 32 (length nonce_all)) (\<lambda>ima_log_hash.
        and_then (bail_unless (nonce_expected = challenge) ''IMA verification: nonce and challenge mismatch'') (\<lambda>_.
        and_then (itrustee_ima_verify (ix_ext I) (ix_ima I) (ix_refs I) (no_as (ix_build I)) ima_log
          [ima_log_hash] (Some uuid)) (\<lambda>ima.
        Inr (ima, nonce_all))))))))))"

definition itrustee_claim :: "json \<Rightarrow> json \<Rightarrow> json" where
  "itrustee_claim js ima =
     (let payload = json_index ''payload'' js in
      jobj [(''tee'', JStr ''itrustee''),
        (''payload'', jobj [
          (''itrustee.nonce'', json_index ''nonce'' payload),
          (''itrustee.hash_alg'', json_index ''hash_alg'' payload),
          (''itrustee.key'', json_index ''key'' payload),
          (''itrustee.ta_img'', json_index ''ta_img'' payload),
          (''itrustee.ta_mem'', json_index ''ta_mem'' payload),
          (''itrustee.uuid'', json_index ''uuid'' payload),
          (''itrustee.version'', json_index ''version'' payload)]),
        (''ima'', ima)])"

definition evaluate_wrapper :: "itrustee_env \<Rightarrow> byte list \<Rightarrow> byte list \<Rightarrow> json res" where
  "evaluate_wrapper I user_data evidence =
     and_then (ok_or ''decode base64url challenge failed'' (b64url_decode (ix_ext I) (string_of user_data))) (\<lambda>challenge.
     and_then (ok_or ''ItrusteeEvidence'' (Option.bind (parse_json (ix_ext I) evidence) itrustee_evidence_of)) (\<lambda>ev.
     and_then (ok_or ''report'' (from_slice (ix_ext I) (bytes_of (ie_report ev)))) (\<lambda>js.
     and_then (bail_unless (\<not> (length challenge = 0 \<or> length challenge > ITRUSTEE_MAX_CHALLENGE_LEN))
       ''challenge len is error'') (\<lambda>_.
     and_then (case ie_ima_log ev of
         None \<Rightarrow> Inr (JNull, challenge)
       | Some ima_log \<Rightarrow> itrustee_with_ima I challenge js ima_log) (\<lambda>(ima, in_data).
     let data_buf = buffer_of (bytes_of (ie_report ev)); nonce = buffer_of in_data; policy = 1 in
     and_then (ok_or ''Parse TA uuid from evidence failed.'' (Option.bind (json_get ''payload'' js) (get_str ''uuid''))) (\<lambda>uuid.
     let ref_file = ITRUSTEE_REF_VALUE_DIR @ ''/itrustee_'' @ uuid in
     and_then (bail_unless (rf_exists (ix_refs I) ref_file) ''itrustee verify report not exists'') (\<lambda>_.
     and_then (bail_unless (ix_verify_report I data_buf nonce policy (bytes_of ref_file @ [0]) = 0)
       ''itrustee verify report failed'') (\<lambda>_.
     Inr (itrustee_claim js ima)))))))))"

definition evaluate_itrustee :: "itrustee_env \<Rightarrow> byte list \<Rightarrow> byte list \<Rightarrow> json res" where
  "evaluate_itrustee I user_data evidence = evaluate_wrapper I user_data evidence"

section \<open>Acceptance\<close>

text \<open>
  The nonce the foreign check is given: the challenge, and with a non-empty IMA log the hash of the log.
\<close>

definition itrustee_nonce :: "itrustee_env \<Rightarrow> byte list \<Rightarrow> itrustee_evidence \<Rightarrow> byte list \<Rightarrow> bool" where
  "itrustee_nonce I challenge ev nonce \<longleftrightarrow>
     (case ie_ima_log ev of
        None \<Rightarrow> nonce = challenge
      | Some log \<Rightarrow> length challenge = 32 \<and> length nonce = 64 \<and> take 32 nonce = challenge \<and>
          (log \<noteq> [] \<longrightarrow> drop 32 nonce = sha256 (ix_ext I) log))"

lemma itrustee_ima_hash:
  "itrustee_ima_verify X M F b log [h] app = Inr v \<Longrightarrow> log \<noteq> [] \<Longrightarrow> h = sha256 X log"
  by (auto simp: itrustee_ima_verify_def and_then_Inr_iff at_Inr_iff)

lemma itrustee_with_ima_ok:
  "itrustee_with_ima I challenge js log = Inr (ima, nonce) \<Longrightarrow>
    length challenge = 32 \<and> length nonce = 64 \<and> take 32 nonce = challenge \<and>
    (log \<noteq> [] \<longrightarrow> drop 32 nonce = sha256 (ix_ext I) log)"
  by (auto simp: itrustee_with_ima_def and_then_Inr_iff slice_Inr_iff ITRUSTEE_MAX_CHALLENGE_LEN_def
      dest: itrustee_ima_hash split: if_splits)

lemma evaluate_itrustee_ok:
  assumes "evaluate_itrustee I user_data evidence = Inr claim"
  obtains challenge ev js nonce ima uuid where
    "b64url_decode (ix_ext I) (string_of user_data) = Some challenge" "length challenge \<in> {1..64}"
    "Option.bind (parse_json (ix_ext I) evidence) itrustee_evidence_of = Some ev"
    "from_slice (ix_ext I) (bytes_of (ie_report ev)) = Some js"
    "itrustee_nonce I challenge ev nonce"
    "Option.bind (json_get ''payload'' js) (get_str ''uuid'') = Some uuid"
    "ix_verify_report I (buffer_of (bytes_of (ie_report ev))) (buffer_of nonce) 1
       (bytes_of (ITRUSTEE_REF_VALUE_DIR @ ''/itrustee_'' @ uuid) @ [0]) = 0"
    "claim = itrustee_claim js ima"
proof -
  obtain challenge ev js ima nonce uuid where r:
    "b64url_decode (ix_ext I) (string_of user_data) = Some challenge" "length challenge \<in> {1..64}"
    "Option.bind (parse_json (ix_ext I) evidence) itrustee_evidence_of = Some ev"
    "from_slice (ix_ext I) (bytes_of (ie_report ev)) = Some js"
    "(case ie_ima_log ev of None \<Rightarrow> Inr (JNull, challenge) | Some log \<Rightarrow> itrustee_with_ima I challenge js log) = Inr (ima, nonce)"
    "Option.bind (json_get ''payload'' js) (get_str ''uuid'') = Some uuid"
    "ix_verify_report I (buffer_of (bytes_of (ie_report ev))) (buffer_of nonce) 1
       (bytes_of (ITRUSTEE_REF_VALUE_DIR @ ''/itrustee_'' @ uuid) @ [0]) = 0"
    "claim = itrustee_claim js ima"
    using assms unfolding evaluate_itrustee_def evaluate_wrapper_def Let_def
    by (clarsimp simp: and_then_Inr_iff ITRUSTEE_MAX_CHALLENGE_LEN_def) (metis One_nat_def Suc_leI atLeastAtMost_iff length_greater_0_conv not_less)
  have "itrustee_nonce I challenge ev nonce"
    using r(5) by (auto simp: itrustee_nonce_def split: option.splits dest: itrustee_with_ima_ok)
  then show ?thesis using r(1-4,6-8) by (intro that)
qed

end
