(* ===== verification/CsvReport.thy ===== *)
theory CsvReport
  imports Json
begin

text \<open>
  The Hygon CSV attestation report, \<^verbatim>\<open>evidence-verify/src/csv/report.rs\<close>, and the SM2 signature check,
  \<^verbatim>\<open>sm2.rs\<close>.

  \<^item> A \<open>usize\<close> constant is a \<open>nat\<close>; a slice out of range panics, as in the code.
  \<^item> Elliptic curves and SM3 are OpenSSL's: the record \<open>openssl\<close>. \<open>ec_mul g s q t\<close> is the point
    \<open>s G + t Q\<close>; \<open>ec_point\<close> and \<open>ec_affine\<close> fail off the curve and at infinity.
\<close>

unbundle bit_operations_syntax

section \<open>Layout\<close>

definition HASH_LEN :: nat where "HASH_LEN = 32"
definition VM_ID_SIZE :: nat where "VM_ID_SIZE = 16"
definition VM_VERSION_SIZE :: nat where "VM_VERSION_SIZE = 16"
definition USER_DATA_SIZE :: nat where "USER_DATA_SIZE = 64"
definition NONCE_SIZE :: nat where "NONCE_SIZE = 16"
definition SN_LEN :: nat where "SN_LEN = 64"
definition RESERVED2_SIZE :: nat where "RESERVED2_SIZE = 32"
definition ECC_LEN :: nat where "ECC_LEN = 32"
definition ECC_POINT_SIZE :: nat where "ECC_POINT_SIZE = 72"
definition HYGON_USER_ID_SIZE :: nat where "HYGON_USER_ID_SIZE = 256"
definition ECC_PUBKEY_SIZE :: nat where
  "ECC_PUBKEY_SIZE = 4 + ECC_POINT_SIZE + ECC_POINT_SIZE + HYGON_USER_ID_SIZE"
definition ECC_SIGNATURE_SIZE :: nat where "ECC_SIGNATURE_SIZE = ECC_POINT_SIZE + ECC_POINT_SIZE"
definition ROOT_CERT_SIZE :: nat where "ROOT_CERT_SIZE = 832"
definition ROOT_CERT_SIGNED_SIZE :: nat where "ROOT_CERT_SIGNED_SIZE = 576"
definition ROOT_CERT_PUBKEY_OFFSET :: nat where "ROOT_CERT_PUBKEY_OFFSET = 64"
definition ROOT_CERT_SIGNATURE_OFFSET :: nat where "ROOT_CERT_SIGNATURE_OFFSET = 576"
definition CSV_CERT_SIZE :: nat where "CSV_CERT_SIZE = 2084"
definition CSV_CERT_SIGNED_SIZE :: nat where "CSV_CERT_SIGNED_SIZE = 1044"
definition REPORT_SIGNED_SIZE :: nat where "REPORT_SIGNED_SIZE = 180"
definition REPORT_SIZE :: nat where "REPORT_SIZE = 2548"
definition USER_DATA_OFFSET :: nat where "USER_DATA_OFFSET = HASH_LEN + VM_ID_SIZE + VM_VERSION_SIZE"
definition MNONCE_OFFSET :: nat where "MNONCE_OFFSET = USER_DATA_OFFSET + USER_DATA_SIZE"
definition MEASURE_OFFSET :: nat where "MEASURE_OFFSET = MNONCE_OFFSET + NONCE_SIZE"
definition POLICY_OFFSET :: nat where "POLICY_OFFSET = MEASURE_OFFSET + HASH_LEN"
definition SIG_USAGE_OFFSET :: nat where "SIG_USAGE_OFFSET = POLICY_OFFSET + 4"
definition SIG_ALGO_OFFSET :: nat where "SIG_ALGO_OFFSET = SIG_USAGE_OFFSET + 4"
definition ANONCE_OFFSET :: nat where "ANONCE_OFFSET = SIG_ALGO_OFFSET + 4"
definition REPORT_SIG_OFFSET :: nat where "REPORT_SIG_OFFSET = ANONCE_OFFSET + 4"
definition PEK_CERT_OFFSET :: nat where "PEK_CERT_OFFSET = REPORT_SIG_OFFSET + ECC_SIGNATURE_SIZE"
definition SN_OFFSET :: nat where "SN_OFFSET = PEK_CERT_OFFSET + CSV_CERT_SIZE"
definition RESERVED2_OFFSET :: nat where "RESERVED2_OFFSET = SN_OFFSET + SN_LEN"
definition MAC_OFFSET :: nat where "MAC_OFFSET = RESERVED2_OFFSET + RESERVED2_SIZE"
definition ROOT_CERT_KEY_USAGE_OFFSET :: nat where "ROOT_CERT_KEY_USAGE_OFFSET = 36"
definition CSV_CERT_PUBKEY_USAGE_OFFSET :: nat where "CSV_CERT_PUBKEY_USAGE_OFFSET = 8"
definition CSV_CERT_PUBKEY_OFFSET :: nat where "CSV_CERT_PUBKEY_OFFSET = 16"
definition CSV_CERT_SIG1_USAGE_OFFSET :: nat where "CSV_CERT_SIG1_USAGE_OFFSET = 1044"
definition CSV_CERT_SIG1_OFFSET :: nat where "CSV_CERT_SIG1_OFFSET = 1052"
definition CSV_CERT_SIG2_USAGE_OFFSET :: nat where "CSV_CERT_SIG2_USAGE_OFFSET = 1564"
definition CSV_CERT_SIG2_OFFSET :: nat where "CSV_CERT_SIG2_OFFSET = 1572"

lemmas layout = HASH_LEN_def VM_ID_SIZE_def VM_VERSION_SIZE_def USER_DATA_SIZE_def NONCE_SIZE_def SN_LEN_def
  RESERVED2_SIZE_def ECC_LEN_def ECC_POINT_SIZE_def HYGON_USER_ID_SIZE_def ECC_PUBKEY_SIZE_def
  ECC_SIGNATURE_SIZE_def ROOT_CERT_SIZE_def ROOT_CERT_SIGNED_SIZE_def ROOT_CERT_PUBKEY_OFFSET_def
  ROOT_CERT_SIGNATURE_OFFSET_def CSV_CERT_SIZE_def CSV_CERT_SIGNED_SIZE_def REPORT_SIGNED_SIZE_def
  REPORT_SIZE_def USER_DATA_OFFSET_def MNONCE_OFFSET_def MEASURE_OFFSET_def POLICY_OFFSET_def
  SIG_USAGE_OFFSET_def SIG_ALGO_OFFSET_def ANONCE_OFFSET_def REPORT_SIG_OFFSET_def PEK_CERT_OFFSET_def
  SN_OFFSET_def RESERVED2_OFFSET_def MAC_OFFSET_def ROOT_CERT_KEY_USAGE_OFFSET_def
  CSV_CERT_PUBKEY_USAGE_OFFSET_def CSV_CERT_PUBKEY_OFFSET_def CSV_CERT_SIG1_USAGE_OFFSET_def
  CSV_CERT_SIG1_OFFSET_def CSV_CERT_SIG2_USAGE_OFFSET_def CSV_CERT_SIG2_OFFSET_def

section \<open>Parsing\<close>

record csv_report =
  cr_raw :: "byte list"
  cr_user_data :: "byte list"
  cr_mnonce :: "byte list"
  cr_measure :: "byte list"
  cr_policy :: u32
  cr_sig_usage :: u32
  cr_sig_algo :: u32
  cr_anonce :: u32
  cr_pek_cert :: "byte list"
  cr_chip_id :: "byte list"
  cr_reserved2 :: "byte list"
  cr_mac :: "byte list"

definition u32_at_le :: "byte list \<Rightarrow> nat \<Rightarrow> u32 res" where
  "u32_at_le input offset =
     and_then (at input offset) (\<lambda>b0.
     and_then (at input (offset + 1)) (\<lambda>b1.
     and_then (at input (offset + 2)) (\<lambda>b2.
     and_then (at input (offset + 3)) (\<lambda>b3.
     Inr (u32_of_le [b0, b1, b2, b3])))))"

text \<open>The chunks of four that both slices have; what is left of the output keeps its value.\<close>

fun xor_u32_chunks :: "byte list \<Rightarrow> u32 \<Rightarrow> byte list \<Rightarrow> byte list" where
  "xor_u32_chunks (a # b # c # d # src) key (w # x # y # z # dst) =
     u32_le (u32_of_le [a, b, c, d] XOR key) @ xor_u32_chunks src key dst"
| "xor_u32_chunks src key dst = dst"

definition unmask :: "byte list \<Rightarrow> u32 \<Rightarrow> nat \<Rightarrow> nat \<Rightarrow> byte list res" where
  "unmask raw anonce offset n =
     and_then (slice raw offset (offset + n)) (\<lambda>src.
     Inr (xor_u32_chunks src anonce (replicate n 0)))"

definition parse :: "byte list \<Rightarrow> csv_report res" where
  "parse input =
     and_then (bail_unless (REPORT_SIZE \<le> length input) ''Hygon CSV report length is wrong'') (\<lambda>_.
     and_then (slice input 0 REPORT_SIZE) (\<lambda>raw.
     and_then (u32_at_le raw ANONCE_OFFSET) (\<lambda>anonce.
     and_then (u32_at_le raw POLICY_OFFSET) (\<lambda>policy.
     and_then (u32_at_le raw SIG_USAGE_OFFSET) (\<lambda>sig_usage.
     and_then (u32_at_le raw SIG_ALGO_OFFSET) (\<lambda>sig_algo.
     and_then (unmask raw anonce USER_DATA_OFFSET USER_DATA_SIZE) (\<lambda>user_data.
     and_then (unmask raw anonce MNONCE_OFFSET NONCE_SIZE) (\<lambda>mnonce.
     and_then (unmask raw anonce MEASURE_OFFSET HASH_LEN) (\<lambda>measure.
     and_then (unmask raw anonce PEK_CERT_OFFSET CSV_CERT_SIZE) (\<lambda>pek_cert.
     and_then (unmask raw anonce SN_OFFSET SN_LEN) (\<lambda>chip_id.
     and_then (and_then (slice raw RESERVED2_OFFSET (RESERVED2_OFFSET + RESERVED2_SIZE)) (copy_exact RESERVED2_SIZE))
       (\<lambda>reserved2.
     and_then (and_then (slice raw MAC_OFFSET (MAC_OFFSET + HASH_LEN)) (copy_exact HASH_LEN)) (\<lambda>mac.
     Inr \<lparr>cr_raw = raw, cr_user_data = user_data, cr_mnonce = mnonce, cr_measure = measure,
          cr_policy = policy XOR anonce, cr_sig_usage = sig_usage XOR anonce, cr_sig_algo = sig_algo XOR anonce,
          cr_anonce = anonce, cr_pek_cert = pek_cert, cr_chip_id = chip_id, cr_reserved2 = reserved2,
          cr_mac = mac\<rparr>)))))))))))))"

definition signed_bytes :: "csv_report \<Rightarrow> byte list res" where
  "signed_bytes r = slice (cr_raw r) 0 REPORT_SIGNED_SIZE"

definition report_signature :: "csv_report \<Rightarrow> byte list res" where
  "report_signature r = slice (cr_raw r) REPORT_SIG_OFFSET (REPORT_SIG_OFFSET + ECC_SIGNATURE_SIZE)"

definition mac_input :: "csv_report \<Rightarrow> byte list res" where
  "mac_input r = slice (cr_raw r) PEK_CERT_OFFSET MAC_OFFSET"

definition pek_pubkey :: "csv_report \<Rightarrow> byte list res" where
  "pek_pubkey r = slice (cr_pek_cert r) CSV_CERT_PUBKEY_OFFSET (CSV_CERT_PUBKEY_OFFSET + ECC_PUBKEY_SIZE)"

section \<open>Keys and signatures\<close>

text \<open>\<open>EccPubKey\<close> and \<open>EccSignature\<close> are views of their bytes.\<close>

definition first_ecc_len_reversed :: "byte list \<Rightarrow> byte list res" where
  "first_ecc_len_reversed input =
     and_then (slice input 0 ECC_LEN) (\<lambda>b. and_then (copy_exact ECC_LEN b) (\<lambda>b. Inr (rev b)))"

definition pubkey_qx :: "byte list \<Rightarrow> byte list res" where
  "pubkey_qx key = and_then (slice key 4 (4 + ECC_POINT_SIZE)) first_ecc_len_reversed"

definition pubkey_qy :: "byte list \<Rightarrow> byte list res" where
  "pubkey_qy key = and_then (slice key (4 + ECC_POINT_SIZE) (4 + ECC_POINT_SIZE * 2)) first_ecc_len_reversed"

definition pubkey_user_id :: "byte list \<Rightarrow> byte list res" where
  "pubkey_user_id key =
     and_then (slice key (4 + ECC_POINT_SIZE * 2) (4 + ECC_POINT_SIZE * 2 + HYGON_USER_ID_SIZE)) (\<lambda>raw.
     and_then (at raw 0) (\<lambda>b0.
     and_then (at raw 1) (\<lambda>b1.
     slice raw 2 (2 + min (unat (u16_of_le [b0, b1])) (HYGON_USER_ID_SIZE - 2)))))"

definition signature_r :: "byte list \<Rightarrow> byte list res" where
  "signature_r sig = and_then (slice sig 0 ECC_POINT_SIZE) first_ecc_len_reversed"

definition signature_s :: "byte list \<Rightarrow> byte list res" where
  "signature_s sig = and_then (slice sig ECC_POINT_SIZE (ECC_POINT_SIZE * 2)) first_ecc_len_reversed"

section \<open>SM2\<close>

record ('g, 'p) openssl =
  ec_group :: "nat \<Rightarrow> nat \<Rightarrow> nat \<Rightarrow> nat \<Rightarrow> nat \<Rightarrow> nat \<Rightarrow> 'g option"
  ec_point :: "'g \<Rightarrow> nat \<Rightarrow> nat \<Rightarrow> 'p option"
  ec_mul :: "'g \<Rightarrow> nat \<Rightarrow> 'p \<Rightarrow> nat \<Rightarrow> 'p"
  ec_affine :: "'g \<Rightarrow> 'p \<Rightarrow> (nat \<times> nat) option"
  sm3 :: "byte list \<Rightarrow> byte list"
  hmac_sm3 :: "byte list \<Rightarrow> byte list \<Rightarrow> byte list"

definition SM2_P :: "byte list" where
  "SM2_P = [
    0xff, 0xff, 0xff, 0xfe, 0xff, 0xff, 0xff, 0xff, 0xff, 0xff, 0xff, 0xff, 0xff, 0xff, 0xff, 0xff,
    0xff, 0xff, 0xff, 0xff, 0x00, 0x00, 0x00, 0x00, 0xff, 0xff, 0xff, 0xff, 0xff, 0xff, 0xff, 0xff]"

definition SM2_A :: "byte list" where
  "SM2_A = [
    0xff, 0xff, 0xff, 0xfe, 0xff, 0xff, 0xff, 0xff, 0xff, 0xff, 0xff, 0xff, 0xff, 0xff, 0xff, 0xff,
    0xff, 0xff, 0xff, 0xff, 0x00, 0x00, 0x00, 0x00, 0xff, 0xff, 0xff, 0xff, 0xff, 0xff, 0xff, 0xfc]"

definition SM2_B :: "byte list" where
  "SM2_B = [
    0x28, 0xe9, 0xfa, 0x9e, 0x9d, 0x9f, 0x5e, 0x34, 0x4d, 0x5a, 0x9e, 0x4b, 0xcf, 0x65, 0x09, 0xa7,
    0xf3, 0x97, 0x89, 0xf5, 0x15, 0xab, 0x8f, 0x92, 0xdd, 0xbc, 0xbd, 0x41, 0x4d, 0x94, 0x0e, 0x93]"

definition SM2_GX :: "byte list" where
  "SM2_GX = [
    0x32, 0xc4, 0xae, 0x2c, 0x1f, 0x19, 0x81, 0x19, 0x5f, 0x99, 0x04, 0x46, 0x6a, 0x39, 0xc9, 0x94,
    0x8f, 0xe3, 0x0b, 0xbf, 0xf2, 0x66, 0x0b, 0xe1, 0x71, 0x5a, 0x45, 0x89, 0x33, 0x4c, 0x74, 0xc7]"

definition SM2_GY :: "byte list" where
  "SM2_GY = [
    0xbc, 0x37, 0x36, 0xa2, 0xf4, 0xf6, 0x77, 0x9c, 0x59, 0xbd, 0xce, 0xe3, 0x6b, 0x69, 0x21, 0x53,
    0xd0, 0xa9, 0x87, 0x7c, 0xc6, 0x2a, 0x47, 0x40, 0x02, 0xdf, 0x32, 0xe5, 0x21, 0x39, 0xf0, 0xa0]"

definition SM2_N :: "byte list" where
  "SM2_N = [
    0xff, 0xff, 0xff, 0xfe, 0xff, 0xff, 0xff, 0xff, 0xff, 0xff, 0xff, 0xff, 0xff, 0xff, 0xff, 0xff,
    0x72, 0x03, 0xdf, 0x6b, 0x21, 0xc6, 0x05, 0x2b, 0x53, 0xbb, 0xf4, 0x09, 0x39, 0xd5, 0x41, 0x23]"

definition sm2_group :: "('g, 'p) openssl \<Rightarrow> 'g res" where
  "sm2_group O' = ok_or ''openssl'' (ec_group O' (nat_of_be SM2_P) (nat_of_be SM2_A) (nat_of_be SM2_B)
     (nat_of_be SM2_GX) (nat_of_be SM2_GY) (nat_of_be SM2_N))"

definition verify_sm2_digest :: "('g, 'p) openssl \<Rightarrow> 'g \<Rightarrow> 'p \<Rightarrow> byte list \<Rightarrow> byte list \<Rightarrow> bool res" where
  "verify_sm2_digest O' grp pubkey digest sig =
     and_then (signature_r sig) (\<lambda>rb.
     and_then (signature_s sig) (\<lambda>sb.
     (let order = nat_of_be SM2_N; r = nat_of_be rb; s = nat_of_be sb in
      if \<not> (0 < r \<and> r < order) then Inr False
      else if \<not> (0 < s \<and> s < order) then Inr False
      else let t = (r + s) mod order in
        if t = 0 then Inr False
        else
          and_then (ok_or ''openssl'' (ec_affine O' grp (ec_mul O' grp s pubkey t))) (\<lambda>(x, y).
          Inr ((nat_of_be digest + x) mod order = r)))))"

definition sm2_message_digest :: "('g, 'p) openssl \<Rightarrow> byte list \<Rightarrow> byte list \<Rightarrow> byte list res" where
  "sm2_message_digest O' msg pubkey =
     and_then (pubkey_user_id pubkey) (\<lambda>user_id.
     and_then (bail_unless (length user_id \<le> 65535 div 8) ''SM2 user id is too long'') (\<lambda>_.
     and_then (pubkey_qx pubkey) (\<lambda>qx.
     and_then (pubkey_qy pubkey) (\<lambda>qy.
     (let entl = be_nat 2 (length user_id * 8);
          za = sm3 O' (entl @ user_id @ SM2_A @ SM2_B @ SM2_GX @ SM2_GY @ qx @ qy) in
      copy_exact ECC_LEN (sm3 O' (za @ msg)))))))"

definition verify_signature :: "('g, 'p) openssl \<Rightarrow> byte list \<Rightarrow> byte list \<Rightarrow> byte list \<Rightarrow> unit res" where
  "verify_signature O' msg sig pubkey =
     and_then (sm2_group O') (\<lambda>grp.
     and_then (pubkey_qx pubkey) (\<lambda>qx.
     and_then (pubkey_qy pubkey) (\<lambda>qy.
     and_then (ok_or ''openssl'' (ec_point O' grp (nat_of_be qx) (nat_of_be qy))) (\<lambda>point.
     and_then (sm2_message_digest O' msg pubkey) (\<lambda>digest.
     and_then (verify_sm2_digest O' grp point digest sig) (\<lambda>ok.
     bail_unless ok ''Hygon CSV report SM2 signature verification failed''))))))"

definition verify_report_signature :: "('g, 'p) openssl \<Rightarrow> csv_report \<Rightarrow> unit res" where
  "verify_report_signature O' report =
     and_then (signed_bytes report) (\<lambda>msg.
     and_then (report_signature report) (\<lambda>sig.
     and_then (pek_pubkey report) (\<lambda>key.
     verify_signature O' msg sig key)))"

section \<open>Fields and bounds\<close>

lemma u32_at_le_ok: "offset + 4 \<le> length xs \<Longrightarrow> u32_at_le xs offset = Inr (u32_of_le (take 4 (drop offset xs)))"
  by (simp add: u32_at_le_def take_Suc_conv_app_nth numeral_eq_Suc)

lemma length_xor_u32_chunks [simp]: "length (xor_u32_chunks src key dst) = length dst"
  by (induction src key dst rule: xor_u32_chunks.induct) auto

text \<open>Masking and unmasking are the same operation, when whole chunks are given.\<close>

lemma xor_u32_chunks_twice:
  "length src = 4 * n \<Longrightarrow> xor_u32_chunks (xor_u32_chunks src key (replicate (4 * n) 0)) key (replicate (4 * n) 0) = src"
proof (induction n arbitrary: src)
  case (Suc n)
  then obtain a b c d rest where src: "src = a # b # c # d # rest" and rest: "length rest = 4 * n"
  proof -
    have "length src = Suc (Suc (Suc (Suc (4 * n))))" using Suc.prems by simp
    then show ?thesis using that by (auto simp: length_Suc_conv simp del: mult_Suc_right)
  qed
  have zeros: "replicate (4 * Suc n) (0 :: byte) = 0 # 0 # 0 # 0 # replicate (4 * n) 0"
    by (simp add: numeral_eq_Suc)
  obtain w x y z where chunk: "u32_le (u32_of_le [a, b, c, d] XOR key) = [w, x, y, z]"
    using u32_le_Cons by blast
  then have "u32_of_le [w, x, y, z] = u32_of_le [a, b, c, d] XOR key"
    using u32_of_le_le [of "u32_of_le [a, b, c, d] XOR key"] by simp
  then have "u32_le (u32_of_le [w, x, y, z] XOR key) = [a, b, c, d]"
    using u32_le_of_le [of "[a, b, c, d]"] by (simp add: xor.assoc)
  then show ?case unfolding src zeros by (simp add: chunk Suc.IH [OF rest])
qed simp

lemma xor_u32_chunks_zero: "length src = 4 * n \<Longrightarrow> xor_u32_chunks src 0 (replicate (4 * n) 0) = src"
proof (induction n arbitrary: src)
  case (Suc n)
  have "length src = Suc (Suc (Suc (Suc (4 * n))))" using Suc.prems by simp
  then obtain a b c d rest where src: "src = a # b # c # d # rest" and rest: "length rest = 4 * n"
    by (auto simp: length_Suc_conv simp del: mult_Suc_right)
  have zeros: "replicate (4 * Suc n) (0 :: byte) = 0 # 0 # 0 # 0 # replicate (4 * n) 0"
    by (simp add: numeral_eq_Suc)
  show ?case unfolding src zeros
    using u32_le_of_le [of "[a, b, c, d]"] by (simp add: Suc.IH [OF rest])
qed simp

lemma unmask_ok:
  "offset + n \<le> length raw \<Longrightarrow>
     unmask raw anonce offset n = Inr (xor_u32_chunks (take n (drop offset raw)) anonce (replicate n 0))"
  by (simp add: unmask_def)

definition field :: "byte list \<Rightarrow> nat \<Rightarrow> nat \<Rightarrow> byte list" where
  "field raw offset n = take n (drop offset raw)"

lemma length_field: "offset + n \<le> length raw \<Longrightarrow> length (field raw offset n) = n"
  by (simp add: field_def)

definition clear :: "byte list \<Rightarrow> nat \<Rightarrow> nat \<Rightarrow> byte list" where
  "clear raw offset n = xor_u32_chunks (field raw offset n) (u32_of_le (field raw 188 4)) (replicate n 0)"

lemma length_clear [simp]: "length (clear raw offset n) = n"
  by (simp add: clear_def)

text \<open>What \<open>parse\<close> gives: for every input that is long enough, each field unmasked.\<close>

definition report_of_raw :: "byte list \<Rightarrow> csv_report" where
  "report_of_raw raw =
     (let key = u32_of_le (field raw 188 4) in
      \<lparr>cr_raw = raw, cr_user_data = clear raw 64 64, cr_mnonce = clear raw 128 16, cr_measure = clear raw 144 32,
       cr_policy = u32_of_le (field raw 176 4) XOR key, cr_sig_usage = u32_of_le (field raw 180 4) XOR key,
       cr_sig_algo = u32_of_le (field raw 184 4) XOR key, cr_anonce = key, cr_pek_cert = clear raw 336 2084,
       cr_chip_id = clear raw 2420 64, cr_reserved2 = field raw 2484 32, cr_mac = field raw 2516 32\<rparr>)"

lemma parse_eq:
  "parse input = (if 2548 \<le> length input then Inr (report_of_raw (take 2548 input))
     else Inl (Err ''Hygon CSV report length is wrong''))"
proof (cases "2548 \<le> length input")
  case True
  define raw where "raw = take 2548 input"
  have n: "length raw = 2548" using True by (simp add: raw_def)
  have "slice input 0 2548 = Inr raw" using True by (simp add: raw_def)
  moreover have "unmask raw k off m = Inr (xor_u32_chunks (field raw off m) k (replicate m 0))"
    if "off + m \<le> 2548" for k off m
    using that n by (simp add: unmask_ok field_def)
  moreover have "u32_at_le raw off = Inr (u32_of_le (field raw off 4))" if "off + 4 \<le> 2548" for off
    using that n by (simp add: u32_at_le_ok field_def)
  moreover have "slice raw a b = Inr (field raw a (b - a))" if "a \<le> b" "b \<le> 2548" for a b
    using that n by (simp add: field_def)
  moreover have "length (field raw off 32) = 32" if "off + 32 \<le> 2548" for off
    using that n by (simp add: length_field)
  ultimately show ?thesis
    using True by (simp add: parse_def layout report_of_raw_def clear_def Let_def flip: raw_def)
qed (simp add: parse_def layout)

text \<open>The mask is in the unsigned part of a report, but a cleared field of four bytes or more fixes it.\<close>

lemma mask_determined:
  assumes "xor_u32_chunks src k (replicate n 0) = xor_u32_chunks src k' (replicate n 0)"
    and "4 \<le> length src" and "4 \<le> n"
  shows "k = k'"
proof -
  obtain a b c d rest where src: "src = a # b # c # d # rest"
    using assms(2) by (auto simp: numeral_eq_Suc Suc_le_length_iff)
  have zeros: "replicate n (0 :: byte) = 0 # 0 # 0 # 0 # replicate (n - 4) 0"
    using assms(3) by (auto simp: numeral_eq_Suc dest!: le_Suc_ex)
  have "u32_le (u32_of_le [a, b, c, d] XOR k) = u32_le (u32_of_le [a, b, c, d] XOR k')"
    using assms(1) by (simp add: src zeros)
  then have "u32_of_le [a, b, c, d] XOR k = u32_of_le [a, b, c, d] XOR k'"
    by (metis u32_of_le_le)
  then have "u32_of_le [a, b, c, d] XOR (u32_of_le [a, b, c, d] XOR k) =
      u32_of_le [a, b, c, d] XOR (u32_of_le [a, b, c, d] XOR k')" by simp
  then show ?thesis by (simp add: xor.assoc [symmetric])
qed

lemma calm_first_ecc [calm_intros]: "32 \<le> length xs \<Longrightarrow> calm (first_ecc_len_reversed xs)"
  by (simp add: first_ecc_len_reversed_def layout)

lemma calm_pubkey:
  assumes "length key = 404"
  shows "calm (pubkey_qx key)" "calm (pubkey_qy key)" "calm (pubkey_user_id key)"
  using assms by (simp_all add: pubkey_qx_def pubkey_qy_def pubkey_user_id_def layout calm_first_ecc)

lemma calm_signature:
  assumes "length sig = 144"
  shows "calm (signature_r sig)" "calm (signature_s sig)"
  using assms by (simp_all add: signature_r_def signature_s_def layout calm_first_ecc)

lemma calm_verify_signature:
  assumes "length key = 404" and "length sig = 144" and "\<And>x. length (sm3 O' x) = 32"
  shows "calm (verify_signature O' msg sig key)"
  unfolding verify_signature_def sm2_group_def verify_sm2_digest_def sm2_message_digest_def Let_def
  by (intro calm_intros calm_pubkey calm_signature calm_copy_exact assms)
     (simp_all add: assms layout)

lemma verify_report_signature_eq:
  "2548 \<le> length input \<Longrightarrow> verify_report_signature O' (report_of_raw (take 2548 input)) =
     verify_signature O' (field input 0 180) (field input 192 144) (field (clear (take 2548 input) 336 2084) 16 404)"
  by (simp add: verify_report_signature_def signed_bytes_def report_signature_def pek_pubkey_def layout
      report_of_raw_def Let_def field_def drop_take)

end
