(* ===== verification/HygonCsv.thy ===== *)
theory HygonCsv
  imports CsvReport Natives
begin

text \<open>
  The Hygon CSV evidence verifier, \<^verbatim>\<open>evidence-verify/src/csv/mod.rs\<close>.

  \<^item> The environment of the process is the record \<open>csv_env\<close>: two variables, the files (\<open>None\<close> does not
    exist, \<open>Some None\<close> cannot be read) and what \<^verbatim>\<open>curl\<close> prints when it succeeds.
  \<^item> JSON, SHA-256, base64 and hex are those of \<open>externals\<close>.
\<close>

definition CSV_NONCE_LEN :: nat where "CSV_NONCE_LEN = 16"
definition KEY_USAGE_TYPE_HSK :: u32 where "KEY_USAGE_TYPE_HSK = 0x13"
definition KEY_USAGE_TYPE_INVALID :: u32 where "KEY_USAGE_TYPE_INVALID = 0x1000"
definition KEY_USAGE_TYPE_PEK :: u32 where "KEY_USAGE_TYPE_PEK = 0x1002"
definition KEY_USAGE_TYPE_CEK :: u32 where "KEY_USAGE_TYPE_CEK = 0x1004"
definition SIG_ALGO_INVALID :: u32 where "SIG_ALGO_INVALID = 0x0"
definition SIG_ALGO_RSA_SHA256 :: u32 where "SIG_ALGO_RSA_SHA256 = 0x1"
definition SIG_ALGO_ECDSA_SHA256 :: u32 where "SIG_ALGO_ECDSA_SHA256 = 0x2"
definition SIG_ALGO_ECDH_SHA256 :: u32 where "SIG_ALGO_ECDH_SHA256 = 0x3"
definition SIG_ALGO_SM2_SA :: u32 where "SIG_ALGO_SM2_SA = 0x4"
definition SIG_ALGO_SM2_DH :: u32 where "SIG_ALGO_SM2_DH = 0x5"
definition SIG_ALGO_RSA_SHA384 :: u32 where "SIG_ALGO_RSA_SHA384 = 0x101"
definition SIG_ALGO_ECDSA_SHA384 :: u32 where "SIG_ALGO_ECDSA_SHA384 = 0x102"
definition SIG_ALGO_ECDH_SHA384 :: u32 where "SIG_ALGO_ECDH_SHA384 = 0x103"
definition HSK_CEK_CERT_FILE :: string where "HSK_CEK_CERT_FILE = ''hsk_cek.cert''"
definition HSK_CEK_DEFAULT_DIR :: string where "HSK_CEK_DEFAULT_DIR = ''/opt/hygon/demo/csv/hsk_cek''"
definition HYGON_KDS_SERVER_SITE :: string where
  "HYGON_KDS_SERVER_SITE = ''https://cert.hygon.cn/hsk_cek?snumber=''"

record csv_env =
  env_hsk_cek_cert :: "string option"
  env_download_certs :: "string option"
  env_file :: "string \<Rightarrow> byte list option option"
  env_curl :: "string \<Rightarrow> byte list option"

section \<open>Meanings\<close>

definition csv_policy_meaning :: "u32 \<Rightarrow> string" where
  "csv_policy_meaning policy = ''CSV report policy bitfield ('' @ lower_hex (unat policy) @ '')''"

definition csv_usage_meaning :: "u32 \<Rightarrow> string" where
  "csv_usage_meaning usage =
     (if usage = 0x0 then ''HRK: Hygon root key''
      else if usage = KEY_USAGE_TYPE_HSK then ''HSK: Hygon signing key''
      else if usage = KEY_USAGE_TYPE_INVALID then ''INVALID: no key usage''
      else if usage = 0x1001 then ''OCA: owner certificate authority key''
      else if usage = KEY_USAGE_TYPE_PEK then ''PEK: platform endorsement key''
      else if usage = 0x1003 then ''PDH: platform Diffie-Hellman key''
      else if usage = KEY_USAGE_TYPE_CEK then ''CEK: chip endorsement key''
      else ''unknown key usage ('' @ lower_hex (unat usage) @ '')'')"

definition csv_sig_algo_meaning :: "u32 \<Rightarrow> string" where
  "csv_sig_algo_meaning algo =
     (if algo = SIG_ALGO_INVALID then ''INVALID: no signature algorithm''
      else if algo = SIG_ALGO_RSA_SHA256 then ''RSA with SHA-256''
      else if algo = SIG_ALGO_ECDSA_SHA256 then ''ECDSA with SHA-256''
      else if algo = SIG_ALGO_ECDH_SHA256 then ''ECDH with SHA-256''
      else if algo = SIG_ALGO_SM2_SA then ''SM2 signature algorithm with SM3 digest''
      else if algo = SIG_ALGO_SM2_DH then ''SM2 key exchange algorithm''
      else if algo = SIG_ALGO_RSA_SHA384 then ''RSA with SHA-384''
      else if algo = SIG_ALGO_ECDSA_SHA384 then ''ECDSA with SHA-384''
      else if algo = SIG_ALGO_ECDH_SHA384 then ''ECDH with SHA-384''
      else ''unknown signature algorithm ('' @ lower_hex (unat algo) @ '')'')"

section \<open>Nonce and session MAC\<close>

definition challenge_to_nonce :: "externals \<Rightarrow> byte list \<Rightarrow> byte list res" where
  "challenge_to_nonce X challenge =
     and_then (ok_or ''decode base64url challenge failed'' (b64url_decode X (string_of challenge))) (\<lambda>c.
     and_then (bail_unless (c \<noteq> []) ''challenge cannot be empty'') (\<lambda>_.
     and_then (slice (sha256 X c) 0 CSV_NONCE_LEN) (copy_exact CSV_NONCE_LEN)))"

definition verify_session_mac_if_available :: "('g, 'p) openssl \<Rightarrow> csv_report \<Rightarrow> bool res" where
  "verify_session_mac_if_available O' report =
     (if \<forall>byte\<in>set (cr_reserved2 report). byte = 0 then Inr False
      else
        and_then (mac_input report) (\<lambda>input.
        and_then (bail_unless (hmac_sm3 O' (cr_mnonce report) input = cr_mac report)
          ''Hygon CSV report session MAC verification failed'') (\<lambda>_.
        Inr True)))"

section \<open>Certificates\<close>

definition hrk_pubkey :: "byte list" where
  "hrk_pubkey =
     u32_le 3
     @ [0x2d, 0xf6, 0xc2, 0x92, 0x1d, 0xf2, 0xf5, 0x2a, 0x50, 0x1f, 0xcd, 0x85, 0xe7, 0x35, 0x09,
        0xc8, 0x75, 0x3a, 0x56, 0x09, 0xdb, 0x02, 0xd7, 0xf3, 0x4c, 0xf1, 0xa4, 0x62, 0x4d, 0xe1,
        0x62, 0xbe, 0x00] @ replicate 39 0
     @ [0x46, 0xb9, 0x1e, 0xb4, 0x68, 0x4d, 0x74, 0x38, 0x47, 0x88, 0xbe, 0xb9, 0x10, 0x0c, 0x64,
        0x4a, 0x38, 0x95, 0x4e, 0x16, 0x97, 0x8b, 0x4f, 0x58, 0x15, 0x70, 0xbb, 0x57, 0x3a, 0x12,
        0xab, 0x3b, 0x00] @ replicate 39 0
     @ [13, 0] @ bytes_of ''HYGON-SSD-HRK'' @ replicate 241 0"

definition verify_hsk_cert :: "('g, 'p) openssl \<Rightarrow> byte list \<Rightarrow> unit res" where
  "verify_hsk_cert O' cert =
     and_then (u32_at_le cert ROOT_CERT_KEY_USAGE_OFFSET) (\<lambda>usage.
     and_then (bail_unless (usage = KEY_USAGE_TYPE_HSK) ''hsk key_usage is not HSK'') (\<lambda>_.
     and_then (slice cert ROOT_CERT_SIGNATURE_OFFSET (ROOT_CERT_SIGNATURE_OFFSET + ECC_SIGNATURE_SIZE)) (\<lambda>signature.
     and_then (slice cert 0 ROOT_CERT_SIGNED_SIZE) (\<lambda>body.
     verify_signature O' body signature hrk_pubkey))))"

definition verify_csv_cert_with_root_issuer :: "('g, 'p) openssl \<Rightarrow> byte list \<Rightarrow> byte list \<Rightarrow> unit res" where
  "verify_csv_cert_with_root_issuer O' cert issuer =
     and_then (u32_at_le cert CSV_CERT_PUBKEY_USAGE_OFFSET) (\<lambda>pubkey_usage.
     and_then (bail_unless (pubkey_usage = KEY_USAGE_TYPE_CEK) ''cek pubkey_usage is not CEK'') (\<lambda>_.
     and_then (u32_at_le cert CSV_CERT_SIG1_USAGE_OFFSET) (\<lambda>sig1_usage.
     and_then (bail_unless (sig1_usage = KEY_USAGE_TYPE_HSK) ''cek sig1_usage is not HSK'') (\<lambda>_.
     and_then (u32_at_le cert CSV_CERT_SIG2_USAGE_OFFSET) (\<lambda>sig2_usage.
     and_then (bail_unless (sig2_usage = KEY_USAGE_TYPE_INVALID) ''cek sig2_usage is not INVALID'') (\<lambda>_.
     and_then (slice issuer ROOT_CERT_PUBKEY_OFFSET (ROOT_CERT_PUBKEY_OFFSET + ECC_PUBKEY_SIZE)) (\<lambda>issuer_pubkey.
     and_then (u32_at_le cert CSV_CERT_SIG1_USAGE_OFFSET) (\<lambda>usage.
     (let sig_offset = (if usage = KEY_USAGE_TYPE_INVALID then CSV_CERT_SIG2_OFFSET else CSV_CERT_SIG1_OFFSET) in
     and_then (slice cert sig_offset (sig_offset + ECC_SIGNATURE_SIZE)) (\<lambda>signature.
     and_then (slice cert 0 CSV_CERT_SIGNED_SIZE) (\<lambda>body.
     verify_signature O' body signature issuer_pubkey)))))))))))"

definition verify_csv_cert_with_csv_issuer :: "('g, 'p) openssl \<Rightarrow> byte list \<Rightarrow> byte list \<Rightarrow> unit res" where
  "verify_csv_cert_with_csv_issuer O' cert issuer =
     and_then (u32_at_le cert CSV_CERT_PUBKEY_USAGE_OFFSET) (\<lambda>pubkey_usage.
     and_then (bail_unless (pubkey_usage = KEY_USAGE_TYPE_PEK) ''pek pubkey_usage is not PEK'') (\<lambda>_.
     and_then (u32_at_le cert CSV_CERT_SIG1_USAGE_OFFSET) (\<lambda>sig1_usage.
     and_then (bail_unless (sig1_usage = KEY_USAGE_TYPE_CEK) ''pek sig1_usage is not CEK'') (\<lambda>_.
     and_then (slice issuer CSV_CERT_PUBKEY_OFFSET (CSV_CERT_PUBKEY_OFFSET + ECC_PUBKEY_SIZE)) (\<lambda>issuer_pubkey.
     and_then (u32_at_le issuer CSV_CERT_PUBKEY_USAGE_OFFSET) (\<lambda>issuer_usage.
     and_then (bail_unless (issuer_usage = KEY_USAGE_TYPE_CEK) ''unsupported CSV cert issuer usage'') (\<lambda>_.
     and_then (slice cert CSV_CERT_SIG1_OFFSET (CSV_CERT_SIG1_OFFSET + ECC_SIGNATURE_SIZE)) (\<lambda>signature.
     and_then (slice cert 0 CSV_CERT_SIGNED_SIZE) (\<lambda>body.
     verify_signature O' body signature issuer_pubkey)))))))))"

definition normalize_hsk_cek_cert :: "byte list \<Rightarrow> byte list res" where
  "normalize_hsk_cek_cert hsk_cek =
     and_then (bail_unless (ROOT_CERT_SIZE + CSV_CERT_SIZE \<le> length hsk_cek) ''Hygon HSK/CEK cert is too short'') (\<lambda>_.
     Inr (take (ROOT_CERT_SIZE + CSV_CERT_SIZE) hsk_cek))"

definition hsk_cek_candidate_paths :: "csv_env \<Rightarrow> string \<Rightarrow> string list" where
  "hsk_cek_candidate_paths env chip =
     (case env_hsk_cek_cert env of Some p \<Rightarrow> [p] | None \<Rightarrow> [])
     @ [HSK_CEK_CERT_FILE, path_join (path_join HSK_CEK_DEFAULT_DIR chip) HSK_CEK_CERT_FILE]"

definition download_hsk_cek_cert :: "csv_env \<Rightarrow> string \<Rightarrow> byte list option res" where
  "download_hsk_cek_cert env chip =
     (if env_download_certs env = Some ''0'' then Inr None
      else case env_curl env (HYGON_KDS_SERVER_SITE @ chip) of
        None \<Rightarrow> Inr None
      | Some out \<Rightarrow> and_then (normalize_hsk_cek_cert out) (\<lambda>c. Inr (Some c)))"

text \<open>The first candidate that exists decides, readable or not.\<close>

fun first_existing :: "csv_env \<Rightarrow> string list \<Rightarrow> byte list option option" where
  "first_existing env [] = None"
| "first_existing env (p # ps) =
     (case env_file env p of None \<Rightarrow> first_existing env ps | Some content \<Rightarrow> Some content)"

definition load_hsk_cek_cert :: "csv_env \<Rightarrow> string \<Rightarrow> byte list option res" where
  "load_hsk_cek_cert env chip =
     (case first_existing env (hsk_cek_candidate_paths env chip) of
        Some content \<Rightarrow>
          and_then (ok_or ''read Hygon HSK/CEK cert failed'' content) (\<lambda>b.
          and_then (normalize_hsk_cek_cert b) (\<lambda>c. Inr (Some c)))
      | None \<Rightarrow> download_hsk_cek_cert env chip)"

definition chip_id_to_string :: "byte list \<Rightarrow> string res" where
  "chip_id_to_string chip =
     (let text = takeWhile (\<lambda>b. b \<noteq> 0) chip in
      and_then (bail_unless (valid_utf8 text) ''Hygon CSV chip_id is not UTF-8'') (\<lambda>_.
      and_then (bail_unless (text \<noteq> []) ''Hygon CSV chip_id is empty'') (\<lambda>_.
      Inr (string_of text))))"

definition verify_cert_chain_if_available :: "('g, 'p) openssl \<Rightarrow> csv_env \<Rightarrow> csv_report \<Rightarrow> bool res" where
  "verify_cert_chain_if_available O' env report =
     and_then (chip_id_to_string (cr_chip_id report)) (\<lambda>chip.
     and_then (load_hsk_cek_cert env chip) (\<lambda>loaded.
     case loaded of
       None \<Rightarrow> Inr False
     | Some hsk_cek \<Rightarrow>
         and_then (slice hsk_cek 0 ROOT_CERT_SIZE) (\<lambda>hsk.
         and_then (slice hsk_cek ROOT_CERT_SIZE (ROOT_CERT_SIZE + CSV_CERT_SIZE)) (\<lambda>cek.
         and_then (with_context ''verify HSK cert signature failed'' (verify_hsk_cert O' hsk)) (\<lambda>_.
         and_then (with_context ''verify CEK cert signature failed'' (verify_csv_cert_with_root_issuer O' cek hsk)) (\<lambda>_.
         and_then (with_context ''verify PEK cert signature failed''
           (verify_csv_cert_with_csv_issuer O' (cr_pek_cert report) cek)) (\<lambda>_.
         Inr True)))))))"

section \<open>Evaluation\<close>

record hygon_csv_evidence =
  hc_mode :: string
  hc_report :: string
  hc_nonce :: string
  hc_ima_log :: "byte list option"

definition hygon_csv_evidence_of :: "json \<Rightarrow> hygon_csv_evidence option" where
  "hygon_csv_evidence_of v =
     Option.bind (struct_exact [''mode'', ''report'', ''nonce'', ''ima_log''] v) (\<lambda>f.
     Option.bind (required as_str (f ''mode'')) (\<lambda>mode.
     Option.bind (required as_str (f ''report'')) (\<lambda>report.
     Option.bind (required as_str (f ''nonce'')) (\<lambda>nonce.
     Option.bind (optional as_bytes (f ''ima_log'')) (\<lambda>ima.
     Some \<lparr>hc_mode = mode, hc_report = report, hc_nonce = nonce, hc_ima_log = ima\<rparr>)))))"

definition csv_claim :: "externals \<Rightarrow> string \<Rightarrow> csv_report \<Rightarrow> bool \<Rightarrow> bool \<Rightarrow> json" where
  "csv_claim X mode parsed mac_ok chain_ok =
     jobj [(''tee'', JStr (if mode = ''user'' then ''hygon_csv_user''
         else if mode = ''kernel'' then ''hygon_csv_kernel'' else ''hygon_csv'')),
       (''payload'', jobj [
         (''csv.mode'', JStr mode),
         (''csv.nonce'', JStr (hex_encode X (cr_mnonce parsed))),
         (''csv.user_data'', JStr (hex_encode X (cr_user_data parsed))),
         (''csv.measure'', JStr (hex_encode X (cr_measure parsed))),
         (''csv.policy'', JNum (uint (cr_policy parsed))),
         (''csv.policy.meaning'', JStr (csv_policy_meaning (cr_policy parsed))),
         (''csv.sig_usage'', JNum (uint (cr_sig_usage parsed))),
         (''csv.sig_usage.meaning'', JStr (csv_usage_meaning (cr_sig_usage parsed))),
         (''csv.sig_algo'', JNum (uint (cr_sig_algo parsed))),
         (''csv.sig_algo.meaning'', JStr (csv_sig_algo_meaning (cr_sig_algo parsed))),
         (''csv.anonce'', JNum (uint (cr_anonce parsed))),
         (''csv.sn'', JStr (hex_encode X (cr_chip_id parsed))),
         (''csv.session_mac'', JBool mac_ok),
         (''csv.cert_chain'', JBool chain_ok)]),
       (''ima'', jobj [])]"

definition evaluate_csv ::
  "externals \<Rightarrow> ('g, 'p) openssl \<Rightarrow> csv_env \<Rightarrow> string \<Rightarrow> byte list \<Rightarrow> byte list \<Rightarrow> json res" where
  "evaluate_csv X O' env expected_mode user_data evidence =
     and_then (ok_or ''parse Hygon CSV evidence failed''
       (Option.bind (parse_json X evidence) hygon_csv_evidence_of)) (\<lambda>ev.
     and_then (bail_unless (hc_mode ev = expected_mode) ''Hygon CSV evidence mode mismatch'') (\<lambda>_.
     and_then (bail_unless (hc_ima_log ev = None)
       ''Hygon CSV evidence contains ima_log, but CSV IMA verification is not implemented'') (\<lambda>_.
     and_then (challenge_to_nonce X user_data) (\<lambda>expected_nonce.
     and_then (ok_or ''decode Hygon CSV evidence nonce failed'' (b64url_decode X (hc_nonce ev))) (\<lambda>evidence_nonce.
     and_then (bail_unless (evidence_nonce = expected_nonce)
       ''Hygon CSV evidence nonce does not match request.challenge'') (\<lambda>_.
     and_then (ok_or ''decode Hygon CSV report failed'' (b64_decode X (hc_report ev))) (\<lambda>report_bytes.
     and_then (parse report_bytes) (\<lambda>parsed.
     and_then (bail_unless (cr_mnonce parsed = expected_nonce)
       ''Hygon CSV report mnonce does not match request.challenge'') (\<lambda>_.
     and_then (verify_session_mac_if_available O' parsed) (\<lambda>mac_ok.
     and_then (verify_report_signature O' parsed) (\<lambda>_.
     and_then (verify_cert_chain_if_available O' env parsed) (\<lambda>chain_ok.
     Inr (csv_claim X (hc_mode ev) parsed mac_ok chain_ok)))))))))))))"

definition evaluate_user where
  "evaluate_user X O' env user_data evidence = evaluate_csv X O' env ''user'' user_data evidence"

definition evaluate_kernel where
  "evaluate_kernel X O' env user_data evidence = evaluate_csv X O' env ''kernel'' user_data evidence"

end
