(* ===== verification/OfflineVerify.thy ===== *)
theory OfflineVerify
  imports Itrustee HygonCsv
begin

text \<open>
  The entry points of the offline verifier, \<^verbatim>\<open>evidence-verify/src/lib.rs\<close> and \<^verbatim>\<open>main.rs\<close>: reading an evidence
  file and handing it to the verifier of its TEE.

  \<^item> The cargo features that select verifiers are the record \<open>verifier_build\<close>.
  \<^item> \<open>offline_env\<close> gathers the environments of the three verifiers; they share the third-party functions
    of \<open>of_ext\<close>.
\<close>

datatype tee_kind = Itrustee | Virtcca | HygonCsvUser | HygonCsvKernel | InvalidTee

record offline_request =
  rq_uuid :: "string option"
  rq_challenge :: "byte list"
  rq_ima :: "bool option"

record tee_evidence_file =
  tf_tee :: tee_kind
  tf_request :: offline_request
  tf_evidence :: json

record verifier_build =
  csv_user_verifier :: bool
  csv_kernel_verifier :: bool
  itrustee_verifier :: bool
  virtcca_verifier :: bool

record ('g, 'p, 'x, 'k) offline_env =
  of_build :: verifier_build
  of_ext :: externals
  of_openssl :: "('g, 'p) openssl"
  of_csv :: csv_env
  of_itrustee :: itrustee_env
  of_virtcca :: "('x, 'k) virtcca_env"

section \<open>Reading the file\<close>

text \<open>\<open>visit_str\<close> and \<open>visit_u64\<close>: an unknown name is an error, an unknown number is \<open>Invalid\<close>.\<close>

definition visit_str :: "string \<Rightarrow> tee_kind option" where
  "visit_str value =
     (let v = to_ascii_lowercase value in
      if v = ''itrustee'' then Some Itrustee
      else if v \<in> {''virtcca'', ''vcca''} then Some Virtcca
      else if v \<in> {''hygoncsvuser'', ''hygon_csv_user'', ''hygon-csv-user''} then Some HygonCsvUser
      else if v \<in> {''hygoncsvkernel'', ''hygon_csv_kernel'', ''hygon-csv-kernel''} then Some HygonCsvKernel
      else if v = ''invalid'' then Some InvalidTee
      else None)"

definition visit_u64 :: "u64 \<Rightarrow> tee_kind option" where
  "visit_u64 value =
     (if value = 1 then Some Itrustee
      else if value = 2 then Some Virtcca
      else if value = 3 then Some HygonCsvUser
      else if value = 4 then Some HygonCsvKernel
      else Some InvalidTee)"

definition tee_kind_of :: "json \<Rightarrow> tee_kind option" where
  "tee_kind_of v =
     (case v of
        JStr s \<Rightarrow> visit_str s
      | JNum n \<Rightarrow> Option.bind (as_u64 v) visit_u64
      | _ \<Rightarrow> None)"

definition tee_kind_name :: "tee_kind \<Rightarrow> string" where
  "tee_kind_name t =
     (case t of
        Itrustee \<Rightarrow> ''Itrustee''
      | Virtcca \<Rightarrow> ''Virtcca''
      | HygonCsvUser \<Rightarrow> ''HygonCsvUser''
      | HygonCsvKernel \<Rightarrow> ''HygonCsvKernel''
      | InvalidTee \<Rightarrow> ''Invalid'')"

definition offline_request_of :: "json \<Rightarrow> offline_request option" where
  "offline_request_of v =
     Option.bind (struct_exact [''uuid'', ''challenge'', ''ima''] v) (\<lambda>f.
     Option.bind (optional as_str (f ''uuid'')) (\<lambda>uuid.
     Option.bind (required as_bytes (f ''challenge'')) (\<lambda>challenge.
     Option.bind (optional as_bool (f ''ima'')) (\<lambda>ima.
     Some \<lparr>rq_uuid = uuid, rq_challenge = challenge, rq_ima = ima\<rparr>))))"

definition tee_evidence_file_of :: "json \<Rightarrow> tee_evidence_file option" where
  "tee_evidence_file_of v =
     Option.bind (struct_exact [''tee'', ''request'', ''evidence''] v) (\<lambda>f.
     Option.bind (required tee_kind_of (f ''tee'')) (\<lambda>tee.
     Option.bind (required offline_request_of (f ''request'')) (\<lambda>request.
     Option.bind (required (\<lambda>v. Some (to_value v)) (f ''evidence'')) (\<lambda>evidence.
     Some \<lparr>tf_tee = tee, tf_request = request, tf_evidence = evidence\<rparr>))))"

section \<open>Verifying\<close>

definition evidence_to_bytes :: "externals \<Rightarrow> json \<Rightarrow> byte list" where
  "evidence_to_bytes X evidence = (case evidence of JStr s \<Rightarrow> bytes_of s | v \<Rightarrow> print_json X v)"

definition verify_evidence :: "('g, 'p, 'x, 'k) offline_env \<Rightarrow> tee_evidence_file \<Rightarrow> json res" where
  "verify_evidence E evidence_file =
     (let X = of_ext E; B = of_build E;
          evidence = evidence_to_bytes X (tf_evidence evidence_file);
          challenge = rq_challenge (tf_request evidence_file);
          unsupported = Inl (Err ''unsupported or disabled tee type'') in
      case tf_tee evidence_file of
        HygonCsvUser \<Rightarrow>
          if csv_user_verifier B then evaluate_user X (of_openssl E) (of_csv E) challenge evidence else unsupported
      | HygonCsvKernel \<Rightarrow>
          if csv_kernel_verifier B then evaluate_kernel X (of_openssl E) (of_csv E) challenge evidence else unsupported
      | Itrustee \<Rightarrow>
          if itrustee_verifier B then evaluate_itrustee (of_itrustee E\<lparr>ix_ext := X\<rparr>) challenge evidence else unsupported
      | Virtcca \<Rightarrow>
          if virtcca_verifier B then evaluate_virtcca (of_virtcca E\<lparr>vx_ext := X\<rparr>) challenge evidence else unsupported
      | InvalidTee \<Rightarrow> unsupported)"

definition verify_evidence_json :: "('g, 'p, 'x, 'k) offline_env \<Rightarrow> byte list \<Rightarrow> json res" where
  "verify_evidence_json E input =
     and_then (ok_or ''failed to parse evidence.json''
       (Option.bind (parse_json (of_ext E) input) tee_evidence_file_of)) (verify_evidence E)"

text \<open>The program prints whether the file could be read and verified; a panic ends it without an answer.\<close>

definition verify_main :: "('g, 'p, 'x, 'k) offline_env \<Rightarrow> byte list option \<Rightarrow> bool res" where
  "verify_main E input =
     (case input of
        None \<Rightarrow> Inr False
      | Some evidence_json \<Rightarrow>
          (case verify_evidence_json E evidence_json of
             Inr _ \<Rightarrow> Inr True
           | Inl (Err e) \<Rightarrow> Inr False
           | Inl (Panic p) \<Rightarrow> Inl (Panic p)))"

section \<open>Names\<close>

lemma visit_name [simp]: "visit_str (tee_kind_name t) = Some t"
  by (cases t; hypsubst; code_simp)

lemma tee_kind_of_name [simp]: "tee_kind_of (JStr (tee_kind_name t)) = Some t"
  by (simp add: tee_kind_of_def)

lemma verify_main_True: "verify_main E input = Inr True \<longleftrightarrow> (\<exists>b claim. input = Some b \<and> verify_evidence_json E b = Inr claim)"
  by (auto simp: verify_main_def split: option.splits sum.splits failure.splits)

end
