(* ===== verification/TeeEvidence.thy ===== *)
theory TeeEvidence
  imports OfflineVerify
begin

text \<open>
  Collecting evidence on a TEE machine, \<^verbatim>\<open>tee-evidence/src\<close>: the choice of the backend, the four
  backends, and the program that writes \<^verbatim>\<open>evidence.json\<close>.

  \<^item> The cargo features are \<open>attester_build\<close>; \<open>linux_x86\<close> is the target the CSV backends ask for.
  \<^item> The machine is \<open>device\<close>: files, and what the foreign functions return and leave in the buffer they are
    given. A buffer keeps its length. \<open>set_len\<close> beyond the buffer is undefined behaviour in Rust, here a
    panic.
  \<^item> The files and environments of the offline verifier are separate; the JSON functions are shared.
\<close>

record attester_build =
  csv_user_attester :: bool
  csv_kernel_attester :: bool
  itrustee_attester :: bool
  virtcca_attester :: bool
  linux_x86 :: bool

record device =
  dv_modules :: "string list option"
  dv_exists :: "string \<Rightarrow> bool"
  dv_read :: "string \<Rightarrow> byte list option"
  dv_remote_attest :: "buffer_data \<Rightarrow> buffer_data \<Rightarrow> u32 \<times> buffer_data"
  dv_tsi_ctx :: bool
  dv_token :: "byte list \<Rightarrow> byte list \<Rightarrow> int \<times> byte list \<times> nat"
  dv_dev_cert :: "byte list \<Rightarrow> int \<times> byte list \<times> nat"
  dv_csv_user_size :: u32
  dv_csv_user_report :: "byte list \<Rightarrow> byte list \<Rightarrow> int \<times> byte list"
  dv_csv_kernel_size :: u32
  dv_csv_kernel_report :: "byte list \<Rightarrow> byte list \<Rightarrow> int \<times> byte list"

definition set_len :: "nat \<Rightarrow> byte list \<Rightarrow> byte list res" where
  "set_len n b = (if n \<le> length b then Inr (take n b) else Inl (Panic ''set_len beyond the buffer''))"

section \<open>Common parts\<close>

definition DEFAULT_UUID :: string where "DEFAULT_UUID = ''f68fd704-6eb1-4d14-b218-722850eb3ef0''"

definition DEFAULT_CHALLENGE_LEN :: nat where "DEFAULT_CHALLENGE_LEN = 64"

definition CSV_CHALLENGE_LEN :: nat where "CSV_CHALLENGE_LEN = 16"

definition ensure_challenge_len :: "byte list \<Rightarrow> nat \<Rightarrow> unit res" where
  "ensure_challenge_len challenge max_len =
     bail_unless (\<not> (challenge = [] \<or> length challenge > max_len)) ''challenge length is wrong''"

definition read_ima_log_if_requested :: "bool \<Rightarrow> byte list option res" where
  "read_ima_log_if_requested with_ima = Inr None"

definition random_base64url_challenge_with_len :: "externals \<Rightarrow> (nat \<Rightarrow> byte list) \<Rightarrow> nat \<Rightarrow> string" where
  "random_base64url_challenge_with_len X rng len = b64url_encode X (rng len)"

definition random_base64url_challenge :: "externals \<Rightarrow> (nat \<Rightarrow> byte list) \<Rightarrow> string" where
  "random_base64url_challenge X rng = random_base64url_challenge_with_len X rng DEFAULT_CHALLENGE_LEN"

definition itrustee_evidence_request :: "externals \<Rightarrow> (nat \<Rightarrow> byte list) \<Rightarrow> offline_request" where
  "itrustee_evidence_request X rng =
     \<lparr>rq_uuid = Some DEFAULT_UUID,
      rq_challenge = bytes_of (random_base64url_challenge_with_len X rng DEFAULT_CHALLENGE_LEN), rq_ima = None\<rparr>"

definition virtcca_evidence_request :: "externals \<Rightarrow> (nat \<Rightarrow> byte list) \<Rightarrow> offline_request" where
  "virtcca_evidence_request X rng =
     \<lparr>rq_uuid = None,
      rq_challenge = bytes_of (random_base64url_challenge_with_len X rng DEFAULT_CHALLENGE_LEN), rq_ima = None\<rparr>"

definition csv_evidence_request :: "externals \<Rightarrow> (nat \<Rightarrow> byte list) \<Rightarrow> offline_request" where
  "csv_evidence_request X rng =
     \<lparr>rq_uuid = None,
      rq_challenge = bytes_of (random_base64url_challenge_with_len X rng CSV_CHALLENGE_LEN), rq_ima = None\<rparr>"

definition default_evidence_request :: "attester_build \<Rightarrow> externals \<Rightarrow> (nat \<Rightarrow> byte list) \<Rightarrow> offline_request" where
  "default_evidence_request B X rng =
     (if csv_user_attester B \<or> csv_kernel_attester B then
        \<lparr>rq_uuid = None,
         rq_challenge = bytes_of (random_base64url_challenge_with_len X rng CSV_CHALLENGE_LEN), rq_ima = None\<rparr>
      else if itrustee_attester B then
        \<lparr>rq_uuid = Some DEFAULT_UUID,
         rq_challenge = bytes_of (random_base64url_challenge_with_len X rng DEFAULT_CHALLENGE_LEN), rq_ima = None\<rparr>
      else
        \<lparr>rq_uuid = None,
         rq_challenge = bytes_of (random_base64url_challenge_with_len X rng DEFAULT_CHALLENGE_LEN), rq_ima = None\<rparr>)"

section \<open>Printing\<close>

text \<open>A derived \<open>Serialize\<close> prints the fields in the order of the struct.\<close>

definition bytes_json :: "byte list \<Rightarrow> json" where
  "bytes_json b = JArr (map (\<lambda>x. JNum (int (unat x))) b)"

definition option_json :: "('a \<Rightarrow> json) \<Rightarrow> 'a option \<Rightarrow> json" where
  "option_json f x = (case x of None \<Rightarrow> JNull | Some y \<Rightarrow> f y)"

definition request_json :: "offline_request \<Rightarrow> json" where
  "request_json r =
     JObj [(''uuid'', option_json JStr (rq_uuid r)), (''challenge'', bytes_json (rq_challenge r)),
       (''ima'', option_json JBool (rq_ima r))]"

definition evidence_json :: "tee_kind \<Rightarrow> offline_request \<Rightarrow> string \<Rightarrow> json" where
  "evidence_json tee request evidence =
     JObj [(''tee'', JStr (tee_kind_name tee)), (''request'', request_json request), (''evidence'', JStr evidence)]"

definition itrustee_evidence_doc :: "itrustee_evidence \<Rightarrow> json" where
  "itrustee_evidence_doc e =
     JObj [(''report'', JStr (ie_report e)), (''ima_log'', option_json bytes_json (ie_ima_log e))]"

definition virtcca_evidence_doc :: "virtcca_evidence \<Rightarrow> json" where
  "virtcca_evidence_doc e =
     JObj [(''evidence'', bytes_json (ve_evidence e)), (''dev_cert'', bytes_json (ve_dev_cert e)),
       (''ima_log'', option_json bytes_json (ve_ima_log e)), (''event_log'', option_json bytes_json (ve_event_log e))]"

definition hygon_csv_evidence_doc :: "hygon_csv_evidence \<Rightarrow> json" where
  "hygon_csv_evidence_doc e =
     JObj [(''mode'', JStr (hc_mode e)), (''report'', JStr (hc_report e)), (''nonce'', JStr (hc_nonce e)),
       (''ima_log'', option_json bytes_json (hc_ima_log e))]"

section \<open>Hygon CSV\<close>

text \<open>\<^verbatim>\<open>csv_user/mod.rs\<close> and \<^verbatim>\<open>csv_kernel/mod.rs\<close>, which differ in the foreign functions and the texts.\<close>

definition explain_csv_user_error :: "int \<Rightarrow> string" where
  "explain_csv_user_error ret =
     (if ret = -2 then ''invalid report buffer or CSV nonce length''
      else if ret = -3 then ''mmap request page failed''
      else if ret = -4 then ''SM3 digest failed; check OpenSSL/GmSSL EVP_sm3 support''
      else if ret = -5 then ''failed to translate virtual address through /proc/self/pagemap; run as root/CAP_SYS_ADMIN or use csv-kernel-attester''
      else if ret = -6 then ''vmmcall KVM_HC_VM_ATTESTATION failed; check that this is a Hygon CSV guest and user-mode attestation is supported''
      else if ret = -7 then ''report session MAC verification failed''
      else ''unknown C attestation failure'')"

definition explain_csv_kernel_error :: "int \<Rightarrow> string" where
  "explain_csv_kernel_error ret =
     (if ret = -2 then ''invalid report buffer or CSV nonce length''
      else if ret = -3 then ''malloc request page failed''
      else if ret = -4 then ''SM3 digest failed; check OpenSSL/GmSSL EVP_sm3 support''
      else if ret = -5 then ''failed to open /dev/csv-guest; load and mount the csv-guest driver or use csv-user-attester''
      else if ret = -6 then ''ioctl GET_ATTESTATION_REPORT failed; check csv-guest driver and Hygon CSV guest support''
      else if ret = -7 then ''report session MAC verification failed''
      else ''unknown C attestation failure'')"

definition guest_challenge_to_nonce :: "externals \<Rightarrow> byte list \<Rightarrow> byte list res" where
  "guest_challenge_to_nonce X challenge =
     and_then (ok_or ''decode base64url challenge failed'' (b64url_decode X (string_of challenge))) (\<lambda>c.
     and_then (bail_unless (c \<noteq> []) ''challenge cannot be empty'') (\<lambda>_.
     and_then (slice (sha256 X c) 0 CSV_NONCE_LEN) (copy_exact CSV_NONCE_LEN)))"

definition csv_user_get_evidence :: "attester_build \<Rightarrow> externals \<Rightarrow> device \<Rightarrow> offline_request \<Rightarrow> string res" where
  "csv_user_get_evidence B X D request =
     (if \<not> linux_x86 B then Inl (Err ''hygon csv user-mode attestation is only supported on Linux x86_64'')
      else
        and_then (guest_challenge_to_nonce X (rq_challenge request)) (\<lambda>nonce.
        let (ret, report) = dv_csv_user_report D (replicate (unat (dv_csv_user_size D)) 0) nonce in
        and_then (bail_unless (ret = 0) (''hygon csv user-mode attestation failed: '' @ explain_csv_user_error ret)) (\<lambda>_.
        and_then (read_ima_log_if_requested (rq_ima request = Some True)) (\<lambda>ima_log.
        Inr (to_string X (hygon_csv_evidence_doc
          \<lparr>hc_mode = ''user'', hc_report = b64_encode X report, hc_nonce = b64url_encode X nonce, hc_ima_log = ima_log\<rparr>))))))"

definition csv_kernel_get_evidence :: "attester_build \<Rightarrow> externals \<Rightarrow> device \<Rightarrow> offline_request \<Rightarrow> string res" where
  "csv_kernel_get_evidence B X D request =
     (if \<not> linux_x86 B then Inl (Err ''hygon csv kernel-mode attestation is only supported on Linux x86_64'')
      else
        and_then (guest_challenge_to_nonce X (rq_challenge request)) (\<lambda>nonce.
        let (ret, report) = dv_csv_kernel_report D (replicate (unat (dv_csv_kernel_size D)) 0) nonce in
        and_then (bail_unless (ret = 0) (''hygon csv kernel-mode attestation failed: '' @ explain_csv_kernel_error ret)) (\<lambda>_.
        and_then (read_ima_log_if_requested (rq_ima request = Some True)) (\<lambda>ima_log.
        Inr (to_string X (hygon_csv_evidence_doc
          \<lparr>hc_mode = ''kernel'', hc_report = b64_encode X report, hc_nonce = b64url_encode X nonce, hc_ima_log = ima_log\<rparr>))))))"

section \<open>iTrustee\<close>

definition MAX_CHALLENGE_LEN_IMA :: nat where "MAX_CHALLENGE_LEN_IMA = 32"

definition itrustee_detect_platform :: "device \<Rightarrow> bool" where
  "itrustee_detect_platform D =
     (case dv_modules D of None \<Rightarrow> False | Some lines \<Rightarrow> \<exists>line\<in>set lines. take 8 line = ''tzdriver'')"

text \<open>The document \<open>itrustee_provision\<close> parses is printed as a \<open>Value\<close>.\<close>

definition itrustee_provision :: "externals \<Rightarrow> device \<Rightarrow> unit res" where
  "itrustee_provision X D =
     (let provision_input = print_json X (jobj [(''handler'', JStr ''provisioning-input''),
            (''payload'', jobj [(''version'', JStr ''TEE.RA.1.0''), (''scenario'', JStr ''sce_no_as''),
               (''hash_alg'', JStr ''HS256'')])]);
          (ret, output) = dv_remote_attest D (buffer_of provision_input) (buffer_of (replicate 0x3000 0)) in
      bail_unless (ret = 0) ''itrustee provision failed'')"

definition report_input :: "string \<Rightarrow> string \<Rightarrow> json" where
  "report_input nonce uuid =
     JObj [(''handler'', JStr ''report-input''),
       (''payload'', JObj [(''version'', JStr ''TEE.RA.1.0''), (''nonce'', JStr nonce), (''uuid'', JStr uuid),
         (''hash_alg'', JStr ''HS256''), (''with_tcb'', JBool False), (''request_key'', JBool True)])]"

definition itrustee_get_evidence :: "externals \<Rightarrow> device \<Rightarrow> offline_request \<Rightarrow> string res" where
  "itrustee_get_evidence X D user_data =
     and_then (ok_or ''decode base64url challenge failed'' (b64url_decode X (string_of (rq_challenge user_data)))) (\<lambda>challenge.
     let with_ima = (rq_ima user_data = Some True);
         max_challenge_len = (if with_ima then MAX_CHALLENGE_LEN_IMA else ITRUSTEE_MAX_CHALLENGE_LEN) in
     and_then (ensure_challenge_len challenge max_challenge_len) (\<lambda>_.
     and_then (read_ima_log_if_requested with_ima) (\<lambda>ima_log.
     and_then (if with_ima then
         and_then (ok_or ''ima log is empty'' ima_log) (\<lambda>log. Inr (b64url_encode X (challenge @ sha256 X log)))
       else ok_or ''challenge is not valid UTF-8'' (from_utf8 (rq_challenge user_data))) (\<lambda>nonce.
     and_then (ok_or ''itrustee evidence request requires uuid'' (rq_uuid user_data)) (\<lambda>uuid.
     let (ret, output) = dv_remote_attest D (buffer_of (print_json X (report_input nonce uuid)))
           (buffer_of (replicate 0x3000 0)) in
     and_then (bail_unless (ret = 0) ''itrustee get report failed'') (\<lambda>_.
     and_then (set_len (unat (buf_size output)) (buf output)) (\<lambda>report.
     let trimmed = rev (dropWhile (\<lambda>b. b = 0) (rev report)) in
     and_then (ok_or ''itrustee report is not valid UTF-8'' (from_utf8 trimmed)) (\<lambda>report.
     Inr (to_string X (itrustee_evidence_doc \<lparr>ie_report = report, ie_ima_log = ima_log\<rparr>))))))))))"

definition itrustee_tee_get_evidence :: "externals \<Rightarrow> device \<Rightarrow> offline_request \<Rightarrow> string res" where
  "itrustee_tee_get_evidence X D user_data =
     and_then (with_context ''itrustee attester provision failed'' (itrustee_provision X D)) (\<lambda>_.
     itrustee_get_evidence X D user_data)"

section \<open>VirtCCA\<close>

definition CCEL_DATA_PATH :: string where "CCEL_DATA_PATH = ''/sys/firmware/acpi/tables/data/CCEL''"

definition virtcca_detect_platform :: "device \<Rightarrow> bool" where
  "virtcca_detect_platform D = dv_exists D ''/dev/tsi''"

definition virtcca_get_token :: "externals \<Rightarrow> device \<Rightarrow> offline_request \<Rightarrow> virtcca_evidence res" where
  "virtcca_get_token X D user_data =
     and_then (ok_or ''decode'' (b64url_decode X (string_of (rq_challenge user_data)))) (\<lambda>challenge.
     and_then (ensure_challenge_len challenge MAX_CHALLENGE_LEN) (\<lambda>_.
     and_then (bail_unless (dv_tsi_ctx D) ''virtcca tsi_new_ctx returned null'') (\<lambda>_.
     let (ret, token, token_len) = dv_token D challenge (replicate 4096 0) in
     and_then (bail_unless (ret = 0) ''virtcca get attestation token failed'') (\<lambda>_.
     and_then (set_len token_len token) (\<lambda>token.
     let (ret, dev_cert, dev_cert_len) = dv_dev_cert D (replicate 4096 0) in
     and_then (bail_unless (ret = 0) ''get dev cert failed'') (\<lambda>_.
     and_then (set_len dev_cert_len dev_cert) (\<lambda>dev_cert.
     and_then (read_ima_log_if_requested (rq_ima user_data = Some True)) (\<lambda>ima_log.
     Inr \<lparr>ve_evidence = token, ve_dev_cert = dev_cert, ve_ima_log = ima_log,
          ve_event_log = dv_read D CCEL_DATA_PATH\<rparr>))))))))"

definition virtcca_tee_get_evidence :: "externals \<Rightarrow> device \<Rightarrow> offline_request \<Rightarrow> string res" where
  "virtcca_tee_get_evidence X D user_data =
     and_then (virtcca_get_token X D user_data) (\<lambda>evidence. Inr (to_string X (virtcca_evidence_doc evidence)))"

section \<open>The program\<close>

text \<open>One backend of \<open>tee_get_evidence\<close>: its evidence, or its error noted and the rest tried.\<close>

definition try_backend ::
  "externals \<Rightarrow> bool \<Rightarrow> tee_kind \<Rightarrow> offline_request \<Rightarrow> string res \<Rightarrow> (string list \<Rightarrow> byte list res) \<Rightarrow> string list \<Rightarrow> byte list res" where
  "try_backend X tried tee request run rest errors =
     (if \<not> tried then rest errors
      else
        (case run of
           Inr evidence \<Rightarrow> Inr (print_json X (evidence_json tee request evidence))
         | Inl (Err e) \<Rightarrow> rest (errors @ [e])
         | Inl (Panic p) \<Rightarrow> Inl (Panic p)))"

definition tee_get_evidence :: "attester_build \<Rightarrow> externals \<Rightarrow> device \<Rightarrow> offline_request \<Rightarrow> byte list res" where
  "tee_get_evidence B X D request =
     try_backend X (csv_kernel_attester B) HygonCsvKernel request (csv_kernel_get_evidence B X D request)
     (try_backend X (csv_user_attester B) HygonCsvUser request (csv_user_get_evidence B X D request)
     (try_backend X (itrustee_attester B \<and> itrustee_detect_platform D) Itrustee request (itrustee_tee_get_evidence X D request)
     (try_backend X (virtcca_attester B \<and> virtcca_detect_platform D) Virtcca request (virtcca_tee_get_evidence X D request)
     (\<lambda>errors.
        if errors \<noteq> [] then Inl (Err ''TEE platform was detected but evidence generation failed'')
        else if \<not> (itrustee_attester B \<or> virtcca_attester B \<or> csv_user_attester B \<or> csv_kernel_attester B)
        then Inl (Err ''no attester backend was enabled'')
        else Inl (Err ''unknown tee platform: no enabled attester backend detected this machine''))))) []"

text \<open>\<open>main\<close>: the evidence field, a string, is replaced by the document it holds. The result is what is written; a write that fails is left out.\<close>

definition inline_evidence :: "externals \<Rightarrow> json \<Rightarrow> json" where
  "inline_evidence X v =
     (case v of
        JObj m \<Rightarrow>
          (case Option.bind (map_of m ''evidence'') as_str of
             Some s \<Rightarrow>
               (case from_slice X (bytes_of s) of
                  Some inner \<Rightarrow> JObj (obj_insert ''evidence'' inner m)
                | None \<Rightarrow> v)
           | None \<Rightarrow> v)
      | _ \<Rightarrow> v)"

definition tee_main :: "attester_build \<Rightarrow> externals \<Rightarrow> device \<Rightarrow> (nat \<Rightarrow> byte list) \<Rightarrow> byte list res" where
  "tee_main B X D rng =
     and_then (with_context ''get TEE evidence failed''
       (tee_get_evidence B X D (default_evidence_request B X rng))) (\<lambda>evidence.
     and_then (ok_or ''evidence is not valid JSON'' (from_slice X evidence)) (\<lambda>evidence_json.
     Inr (print_json X (inline_evidence X evidence_json))))"

end
