(* ===== verification/VirtccaFacts.thy ===== *)
theory VirtccaFacts
  imports Virtcca
begin

text \<open>
  What the VirtCCA verifier's claims rest on: the device certificate, the two signatures, the
  challenge, and what an IMA log adds.
\<close>

section \<open>Inversion\<close>

fun digest_length :: "digest_name \<Rightarrow> nat" where
  "digest_length SHA_256 = 32"
| "digest_length SHA_384 = 48"
| "digest_length SHA_512 = 64"

definition hashes_sized :: "('x, 'k) cose_ssl \<Rightarrow> bool" where
  "hashes_sized S \<longleftrightarrow> (\<forall>d b h. ssl_hash S d b = Some h \<longrightarrow> length h = digest_length d)"

lemma verify_virtcca_ok:
  assumes "verify_virtcca V challenge evidence = Inr claim"
  obtains ev e cert ima elog where
    "Option.bind (parse_json (vx_ext V) evidence) virtcca_evidence_json = Some ev"
    "evidence_decode (vx_cbor V) (vx_ssl V) (ve_evidence ev) = Inr e"
    "(if is_platform e then x509_pem (vx_ssl V) (ve_dev_cert ev) else x509_der (vx_ssl V) (ve_dev_cert ev)) = Some cert"
    "verify_platform_token (vx_ssl V) (vx_read V) (no_as (vx_build V)) e cert = Inr ()"
    "verify_cvm_token (vx_ext V) (vx_ssl V) (vx_read V) (no_as (vx_build V)) e challenge = Inr ()"
    "verify_ima_log V e (ve_ima_log ev) = Inr ima"
    "verify_event_log V e (ve_event_log ev) = Inr elog"
    "parse_claim_from_evidence (vx_ext V) e ima elog = Inr claim"
  using assms unfolding verify_virtcca_def Let_def
  by (clarsimp simp: and_then_Inr_iff)

lemma decoded_token_ok:
  assumes "evidence_decode C S raw = Inr e"
  shows "cvm_ok (cvm_token e)" "is_platform e \<Longrightarrow> platform_ok (platform_token e)"
proof -
  obtain e0 envelop token where token: "cvm_decode C (cm_payload envelop) = Inr token"
    and platform: "decode_platform C S (e0\<lparr>cvm_envelop := envelop, cvm_token := token\<rparr>) = Inr e"
    using assms unfolding evidence_decode_def by (clarsimp simp: and_then_Inr_iff)
  from platform cvm_decode_ok [OF token] show "cvm_ok (cvm_token e)" "is_platform e \<Longrightarrow> platform_ok (platform_token e)"
    by (auto simp: decode_platform_def and_then_Inr_iff platform_decode_ok split: if_splits)
qed

lemma verify_cvm_token_ok:
  assumes "verify_cvm_token X S read as_agent e challenge = Inr ()"
  obtains k where
    "take (length challenge) (cvm_challenge (cvm_token e)) = challenge"
    "is_platform e \<longrightarrow> verfiy_cvm_challenge S e (plat_challenge (platform_token e)) (cvm_pub_key (cvm_token e)) = Inr ()"
    "key_of_der S (cvm_pub_key (cvm_token e)) = Some k \<or> key_of_p521 S (cvm_pub_key (cvm_token e)) = Some k"
    "verify_cose_sign1 S (cvm_envelop e) k = Inr ()"
    "as_agent \<longrightarrow> compare_with_ref X read e = Inr ()"
  using assms unfolding verify_cvm_token_def
  by (auto simp: and_then_Inr_iff slice_Inr_iff raw_ec_public_key_to_pkey_def Let_def
      split: option.splits if_splits)

lemma platform_digest:
  assumes "verfiy_cvm_challenge S e challenge key = Inr ()" and "hashes_sized S" and "length challenge = 32"
  shows "cvm_pub_key_hash_alg (cvm_token e) = ''sha-256''" "ssl_hash S SHA_256 key = Some challenge"
  using assms unfolding verfiy_cvm_challenge_def Let_def hashes_sized_def
  by (fastforce simp: and_then_Inr_iff split: if_splits)+

lemma claim_members:
  assumes "parse_claim_from_evidence X e ima elog = Inr claim"
  shows "Option.bind (json_get ''payload'' claim) (get_str ''vcca.cvm.rim'') = Some (hex_encode X (cvm_rim (cvm_token e)))"
    "Option.bind (json_get ''payload'' claim) (get_bool ''vcca.is_platform'') = Some (is_platform e)"
    "json_get ''ima'' claim = Some ima" "json_get ''event_log'' claim = Some elog"
  using assms unfolding parse_claim_from_evidence_def Let_def
  by (auto simp: and_then_Inr_iff get_str_def get_bool_def)

lemma verify_virtcca_other_device:
  assumes "verify_virtcca V challenge evidence = Inr claim"
    and "Option.bind (parse_json (vx_ext V) evidence) virtcca_evidence_json = Some ev"
    and "evidence_decode (vx_cbor V) (vx_ssl V) (ve_evidence ev) = Inr e" and "\<not> is_platform e"
    and "Option.bind (parse_json (vx_ext V) evidence') virtcca_evidence_json = Some (ev\<lparr>ve_dev_cert := der\<rparr>)"
    and "x509_der (vx_ssl V) der = Some cert"
    and "verify_dev_cert_chain (vx_ssl V) (vx_read V) (no_as (vx_build V)) cert = Inr ()"
  shows "verify_virtcca V challenge evidence' = Inr claim"
  using assms unfolding verify_virtcca_def Let_def verify_platform_token_def
  by (clarsimp simp: and_then_Inr_iff)

section \<open>Authenticity\<close>

text \<open>With a platform token, the device certificate vouches for the key of the token.\<close>

definition platform_bound :: "('x, 'k) cose_ssl \<Rightarrow> virtcca_evidence \<Rightarrow> cvm_evidence \<Rightarrow> 'x \<Rightarrow> bool" where
  "platform_bound S ev e cert \<longleftrightarrow>
     (\<exists>dev_key. x509_pem S (ve_dev_cert ev) = Some cert \<and> x509_key S cert = Some dev_key \<and>
        verify_cose_sign1 S (platform_envelop e) dev_key = Inr () \<and>
        cvm_pub_key_hash_alg (cvm_token e) = ''sha-256'' \<and>
        ssl_hash S SHA_256 (cvm_pub_key (cvm_token e)) = Some (plat_challenge (platform_token e)))"

text \<open>Any device certificate of the CA gives this claim with this evidence.\<close>

definition any_device :: "('x, 'k) virtcca_env \<Rightarrow> byte list \<Rightarrow> virtcca_evidence \<Rightarrow> json \<Rightarrow> bool" where
  "any_device V user_data ev claim \<longleftrightarrow>
     (\<forall>evidence der cert. Option.bind (parse_json (vx_ext V) evidence) virtcca_evidence_json =
          Some (ev\<lparr>ve_dev_cert := der\<rparr>) \<longrightarrow>
        x509_der (vx_ssl V) der = Some cert \<longrightarrow>
        verify_dev_cert_chain (vx_ssl V) (vx_read V) (no_as (vx_build V)) cert = Inr () \<longrightarrow>
        evaluate_virtcca V user_data evidence = Inr claim)"

lemma platform_boundI:
  assumes "is_platform e" "hashes_sized S" "platform_ok (platform_token e)"
    and "x509_pem S (ve_dev_cert ev) = Some cert" "verify_platform_token S read as_agent e cert = Inr ()"
    and "verfiy_cvm_challenge S e (plat_challenge (platform_token e)) (cvm_pub_key (cvm_token e)) = Inr ()"
  shows "platform_bound S ev e cert"
proof -
  have "length (plat_challenge (platform_token e)) = 32" using assms(3) by (simp add: platform_ok_def)
  from platform_digest [OF assms(6,2) this] show ?thesis
    using assms by (auto simp: platform_bound_def verify_platform_token_def and_then_Inr_iff)
qed

lemma any_deviceI:
  assumes "b64url_decode (vx_ext V) (string_of user_data) = Some challenge" "length challenge \<in> {1..64}"
    and "verify_virtcca V challenge evidence = Inr claim"
    and "Option.bind (parse_json (vx_ext V) evidence) virtcca_evidence_json = Some ev"
    and "evidence_decode (vx_cbor V) (vx_ssl V) (ve_evidence ev) = Inr e" "\<not> is_platform e"
  shows "any_device V user_data ev claim"
proof -
  have "challenge \<noteq> []" "length challenge \<le> 64" using assms(2) by auto
  then show ?thesis
    using verify_virtcca_other_device [OF assms(3-6)] assms(1)
    unfolding any_device_def evaluate_virtcca_def MAX_CHALLENGE_LEN_def by simp
qed

text \<open>
  C38. A claim of the VirtCCA verifier is about a token that answers the challenge and is signed:
  the challenge, of 1 to 64 bytes, is the start of the token's; the device certificate of the evidence,
  PEM with a platform token and DER without, was accepted by the chain of CA certificates on disk; the token's envelope is signed by the key the token itself
  carries; the claim shows that token's realm measurement. With a platform token, its envelope is
  signed by the device certificate, and its challenge is the SHA-256 of the token's key: no other hash
  fits its 32 bytes. Without one nothing ties the token to the device: any other device certificate
  of the same CA gives the same claim.
\<close>
theorem virtcca_claim_is_signed:
  assumes "evaluate_virtcca V user_data evidence = Inr claim" and "hashes_sized (vx_ssl V)"
  shows "\<exists>challenge ev e cert k. b64url_decode (vx_ext V) (string_of user_data) = Some challenge \<and>
     length challenge \<in> {1..64} \<and>
     Option.bind (parse_json (vx_ext V) evidence) virtcca_evidence_json = Some ev \<and>
     evidence_decode (vx_cbor V) (vx_ssl V) (ve_evidence ev) = Inr e \<and>
     take (length challenge) (cvm_challenge (cvm_token e)) = challenge \<and>
     (if is_platform e then x509_pem (vx_ssl V) (ve_dev_cert ev) else x509_der (vx_ssl V) (ve_dev_cert ev)) = Some cert \<and>
     verify_dev_cert_chain (vx_ssl V) (vx_read V) (no_as (vx_build V)) cert = Inr () \<and>
     (key_of_der (vx_ssl V) (cvm_pub_key (cvm_token e)) = Some k \<or>
      key_of_p521 (vx_ssl V) (cvm_pub_key (cvm_token e)) = Some k) \<and>
     verify_cose_sign1 (vx_ssl V) (cvm_envelop e) k = Inr () \<and>
     Option.bind (json_get ''payload'' claim) (get_str ''vcca.cvm.rim'') =
       Some (hex_encode (vx_ext V) (cvm_rim (cvm_token e))) \<and>
     (if is_platform e then platform_bound (vx_ssl V) ev e cert else any_device V user_data ev claim)"
proof -
  obtain challenge where c: "b64url_decode (vx_ext V) (string_of user_data) = Some challenge"
      "length challenge \<in> {1..64}" and run: "verify_virtcca V challenge evidence = Inr claim"
    using assms(1) by (auto simp: evaluate_virtcca_def and_then_Inr_iff MAX_CHALLENGE_LEN_def Suc_le_eq not_less)
  obtain ev e cert ima elog where r:
    "Option.bind (parse_json (vx_ext V) evidence) virtcca_evidence_json = Some ev"
    "evidence_decode (vx_cbor V) (vx_ssl V) (ve_evidence ev) = Inr e"
    "(if is_platform e then x509_pem (vx_ssl V) (ve_dev_cert ev) else x509_der (vx_ssl V) (ve_dev_cert ev)) = Some cert"
    "verify_platform_token (vx_ssl V) (vx_read V) (no_as (vx_build V)) e cert = Inr ()"
    "verify_cvm_token (vx_ext V) (vx_ssl V) (vx_read V) (no_as (vx_build V)) e challenge = Inr ()"
    "parse_claim_from_evidence (vx_ext V) e ima elog = Inr claim"
    using run by (rule verify_virtcca_ok)
  obtain k where k:
    "take (length challenge) (cvm_challenge (cvm_token e)) = challenge"
    "is_platform e \<longrightarrow> verfiy_cvm_challenge (vx_ssl V) e (plat_challenge (platform_token e)) (cvm_pub_key (cvm_token e)) = Inr ()"
    "key_of_der (vx_ssl V) (cvm_pub_key (cvm_token e)) = Some k \<or> key_of_p521 (vx_ssl V) (cvm_pub_key (cvm_token e)) = Some k"
    "verify_cose_sign1 (vx_ssl V) (cvm_envelop e) k = Inr ()"
    using r(5) by (rule verify_cvm_token_ok)
  have "verify_dev_cert_chain (vx_ssl V) (vx_read V) (no_as (vx_build V)) cert = Inr ()"
    using r(4) by (auto simp: verify_platform_token_def and_then_Inr_iff)
  moreover have "if is_platform e then platform_bound (vx_ssl V) ev e cert else any_device V user_data ev claim"
    using platform_boundI [OF _ assms(2) decoded_token_ok(2) [OF r(2)] _ r(4)] any_deviceI [OF c run r(1,2)] r(3) k(2)
    by (cases "is_platform e") simp_all
  ultimately show ?thesis
    using c r(1-3) k(1,3,4) claim_members(1) [OF r(6)] by blast
qed

text \<open>A token with a platform token, every signature of which holds.\<close>

definition toy_ssl :: "(unit, unit) cose_ssl" where
  "toy_ssl = \<lparr>cose_open = (\<lambda>b. Some (Some 0, b)), cose_set_key = (\<lambda>b k. True), cose_verify = (\<lambda>b k. True),
     x509_pem = Some \<circ> (\<lambda>b. ()), x509_der = Some \<circ> (\<lambda>b. ()), x509_key = Some, x509_verify = (\<lambda>x k. Some True),
     key_kind = (\<lambda>k. KeyRSA), key_rsa = (\<lambda>k. Some ([], [])), key_curve = (\<lambda>k. None), key_point = (\<lambda>k. None),
     key_of_der = (\<lambda>b. Some ()), key_of_p521 = (\<lambda>b. None),
     ssl_hash = (\<lambda>d b. Some (replicate (digest_length d) 0))\<rparr>"

definition toy_cbor :: ciborium where
  "toy_cbor = \<lparr>read_value = (\<lambda>b.
       if b = [] then Some (CTag 399 (CMap [(CInteger 44241, CBytes [1]), (CInteger 44234, CBytes [2])]))
       else if b = [1] then Some (CMap [(CInteger 44240, CText ''sha-256'')])
       else Some (CMap [])),
     read_byte_vec = Some\<rparr>"

definition toy_virtcca_json :: externals where
  "toy_virtcca_json = \<lparr>parse_json = (\<lambda>b. Some (JObj [(''evidence'', JArr []), (''dev_cert'', JArr [])])),
     print_json = (\<lambda>v. []), b64_encode = string_of, b64_decode = (\<lambda>s. Some (bytes_of s)), b64url_encode = string_of,
     b64url_decode = (\<lambda>s. Some [0]), hex_encode = string_of, hex_decode = (\<lambda>s. Some (bytes_of s)), sha256 = resize 32\<rparr>"

definition toy_virtcca :: "(unit, unit) virtcca_env" where
  "toy_virtcca = \<lparr>vx_ext = toy_virtcca_json, vx_cbor = toy_cbor, vx_ssl = toy_ssl,
     vx_ima = \<lparr>ima_events = (\<lambda>b. None), pcr_values = (\<lambda>b p. None)\<rparr>,
     vx_build = \<lparr>no_as = False, ima_verifier = True\<rparr>,
     vx_refs = \<lparr>rf_exists = (\<lambda>p. False), rf_lines = (\<lambda>p. None)\<rparr>, vx_read = (\<lambda>p. Some [])\<rparr>"

definition toy_token :: cvm_evidence where
  "toy_token = cvm_evidence_new\<lparr>cvm_envelop := \<lparr>cm_bytes = [1], cm_alg = Some 0, cm_payload = [1]\<rparr>,
     cvm_token := cvm_token_new\<lparr>cvm_pub_key_hash_alg := ''sha-256''\<rparr>,
     platform_envelop := \<lparr>cm_bytes = [2], cm_alg = Some 0, cm_payload = [2]\<rparr>, is_platform := True\<rparr>"

lemma trim_sha256: "trim_nulls ''sha-256'' = ''sha-256''"
  by code_simp

lemma toy_token_decoded: "evidence_decode toy_cbor toy_ssl [] = Inr toy_token"
  by (simp add: evidence_decode_def toy_cbor_def toy_ssl_def CBOR_TAG_def evidence_set_label_def CVM_LABEL_def
      PLATFORM_LABEL_def set_cvm_token_def set_platform_token_def get_vec_def cvm_evidence_new_def cose_message_new_def
      cose_decode_def cvm_decode_def cvm_set_label_def cvm_labels cvm_set_pub_key_hash_alg_def get_string_def
      trim_sha256 decode_platform_def platform_decode_def toy_token_def)

lemma toy_signed: "verify_cose_sign1 toy_ssl \<lparr>cm_bytes = b, cm_alg = Some a, cm_payload = p\<rparr> () = Inr ()"
  by (simp add: verify_cose_sign1_def pkey_to_cosekey_def toy_ssl_def cose_key_new_def)

lemma toy_token_sel [simp]:
  "is_platform toy_token = True" "cvm_envelop toy_token = \<lparr>cm_bytes = [1], cm_alg = Some 0, cm_payload = [1]\<rparr>"
  "platform_envelop toy_token = \<lparr>cm_bytes = [2], cm_alg = Some 0, cm_payload = [2]\<rparr>"
  "cvm_challenge (cvm_token toy_token) = replicate 64 0" "cvm_pub_key (cvm_token toy_token) = []"
  "cvm_pub_key_hash_alg (cvm_token toy_token) = ''sha-256''" "cvm_rem (cvm_token toy_token) = replicate 4 []"
  "plat_challenge (platform_token toy_token) = replicate 32 0"
  by (simp_all add: toy_token_def cvm_evidence_new_def cvm_token_new_def platform_token_new_def token_sizes)

lemma toy_ssl_sel:
  "key_of_der toy_ssl b = Some ()" "ssl_hash toy_ssl d b = Some (replicate (digest_length d) 0)"
  "x509_pem toy_ssl b = Some ()" "x509_key toy_ssl x = Some ()" "x509_verify toy_ssl x k = Some True"
  "key_kind toy_ssl k = KeyRSA"
  by (simp_all add: toy_ssl_def)

lemma toy_platform: "verify_platform_token toy_ssl (\<lambda>p. Some []) False toy_token () = Inr ()"
  by (simp add: verify_platform_token_def verify_dev_cert_chain_def detect_cert_path_def read_cert_def
      verify_cert_by_def toy_signed toy_ssl_sel)

lemma toy_cvm: "verify_cvm_token X toy_ssl read False toy_token [0] = Inr ()"
  by (simp add: verify_cvm_token_def verfiy_cvm_challenge_def toy_ssl_sel toy_signed)

lemma toy_claim: "\<exists>claim. parse_claim_from_evidence X toy_token ima elog = Inr claim"
  by (simp add: parse_claim_from_evidence_def Let_def)

lemma toy_virtcca_accepted: "\<exists>claim. evaluate_virtcca toy_virtcca [] [] = Inr claim"
proof -
  have x: "x509_pem toy_ssl [] = Some ()" by (simp add: toy_ssl_def)
  have j: "Option.bind (parse_json toy_virtcca_json []) virtcca_evidence_json =
      Some \<lparr>ve_evidence = [], ve_dev_cert = [], ve_ima_log = None, ve_event_log = None\<rparr>"
    by (simp add: toy_virtcca_json_def virtcca_evidence_json_def struct_exact_def struct_of_def as_bytes_def
        optional_def required_def)
  have "verify_virtcca toy_virtcca [0] [] =
      parse_claim_from_evidence toy_virtcca_json toy_token (jobj []) (jobj [])"
    by (simp add: verify_virtcca_def toy_virtcca_def j toy_token_decoded x toy_platform toy_cvm verify_ima_log_def
        verify_event_log_def)
  moreover have "b64url_decode (vx_ext toy_virtcca) (string_of []) = Some [0]"
    by (simp add: toy_virtcca_def toy_virtcca_json_def)
  ultimately show ?thesis using toy_claim by (simp add: evaluate_virtcca_def MAX_CHALLENGE_LEN_def)
qed

theorem virtcca_claim_is_signed_witness:
  "\<exists>claim challenge. evaluate_virtcca toy_virtcca [] [] = Inr claim \<and>
     b64url_decode toy_virtcca_json [] = Some challenge \<and> length challenge \<in> {1..64}"
proof -
  obtain claim where run: "evaluate_virtcca toy_virtcca [] [] = Inr claim" using toy_virtcca_accepted by blast
  have "hashes_sized (vx_ssl toy_virtcca)" by (simp add: hashes_sized_def toy_virtcca_def toy_ssl_def)
  from virtcca_claim_is_signed [OF run this] run show ?thesis by (auto simp: toy_virtcca_def string_of_def)
qed

section \<open>IMA logs\<close>

text \<open>
  C39. What an accepted IMA log means to the VirtCCA verifier. An empty log is accepted with an empty
  object and nothing is checked. For any other, the PCR its second event names, one of 1 to 4, replays to
  the register of the token with that number, and the object returned has exactly the files the log
  names, the boot aggregate left out, each with whether the last digest the log has for that name is
  among the reference values: an unknown digest is reported, not refused, and a later known one of the
  same name hides it.
\<close>
theorem ima_log_verdicts:
  assumes "virtcca_ima_verify X I F as_agent ima_log rems app_id = Inr detail"
  shows "if ima_log = [] then detail = jobj []
   else \<exists>events pcr_value i lines. ima_events I ima_log = Some events \<and> i < 4 \<and> i < length rems \<and>
     pcr_index (events ! 1) = of_nat (Suc i) \<and> pcr_values I ima_log (of_nat (Suc i)) = Some pcr_value \<and>
     hex_encode X pcr_value = hex_encode X (rems ! i) \<and>
     rf_lines F (virtcca_reference_path F as_agent app_id) = Some lines \<and>
     (\<forall>name. json_get name detail = file_verdict X (map trim_end lines) events name)"
proof (cases "ima_log = []")
  case True
  then show ?thesis using assms by (simp add: virtcca_ima_verify_def)
next
  case False
  from virtcca_ima_verify_ok [OF assms False] False show ?thesis by (metis verify_ima_events_verdict)
qed

definition toy_ima :: ima_crate where
  "toy_ima = \<lparr>ima_events = (\<lambda>b. Some [\<lparr>pcr_index = 4, event_data = ImaNg [1] ''boot_aggregate''\<rparr>,
       \<lparr>pcr_index = 4, event_data = ImaNg (bytes_of ''a'') ''/bin/sh''\<rparr>,
       \<lparr>pcr_index = 4, event_data = ImaNg (bytes_of ''b'') ''/bin/sh''\<rparr>]),
     pcr_values = (\<lambda>b p. Some [7])\<rparr>"

definition toy_refs :: ref_files where
  "toy_refs = \<lparr>rf_exists = (\<lambda>p. False), rf_lines = (\<lambda>p. Some [''b''])\<rparr>"

theorem ima_log_verdicts_witness:
  "\<exists>detail events lines. virtcca_ima_verify toy_virtcca_json toy_ima toy_refs False [0] [[], [], [], [7]] None = Inr detail \<and>
     detail = JObj [(''/bin/sh'', JBool True)] \<and> ima_events toy_ima [0] = Some events \<and>
     json_get ''/bin/sh'' detail = file_verdict toy_virtcca_json (map trim_end lines) events ''/bin/sh''"
proof -
  have run: "virtcca_ima_verify toy_virtcca_json toy_ima toy_refs False [0] [[], [], [], [7]] None =
      Inr (JObj [(''/bin/sh'', JBool True)])"
    by (simp add: virtcca_ima_verify_def toy_ima_def toy_refs_def toy_virtcca_json_def MIN_IMA_EVENTS_def
        CVM_REM_ARR_SIZE_def verify_ima_events_def trim_end_def white_space_def at_def)
  from ima_log_verdicts [OF run] run show ?thesis unfolding if_not_P [OF list.distinct(2)] by blast
qed

end
