(* ===== verification/HygonCsvFacts.thy ===== *)
theory HygonCsvFacts
  imports HygonCsv
begin

text \<open>
  The CSV verifier never panics, what its acceptance means, and what the signature of a report binds.
\<close>

section \<open>No panics\<close>

lemma calm_u32_at_le [calm_intros]: "offset + 4 \<le> length xs \<Longrightarrow> calm (u32_at_le xs offset)"
  by (simp add: u32_at_le_ok)

lemma length_hrk_pubkey [simp]: "length hrk_pubkey = 404"
  by (simp add: hrk_pubkey_def)

lemma calm_certs:
  assumes sm3: "\<And>x. length (sm3 O' x) = 32"
  shows "length hsk = 832 \<Longrightarrow> calm (verify_hsk_cert O' hsk)"
    and "length hsk = 832 \<Longrightarrow> length cek = 2084 \<Longrightarrow> calm (verify_csv_cert_with_root_issuer O' cek hsk)"
    and "length pek = 2084 \<Longrightarrow> length cek = 2084 \<Longrightarrow> calm (verify_csv_cert_with_csv_issuer O' pek cek)"
proof -
  assume "length hsk = 832"
  then show "calm (verify_hsk_cert O' hsk)"
    unfolding verify_hsk_cert_def
    by (intro calm_intros calm_slice calm_verify_signature sm3) (auto simp: layout slice_Inr_iff)
next
  assume "length hsk = 832" "length cek = 2084"
  then show "calm (verify_csv_cert_with_root_issuer O' cek hsk)"
    unfolding verify_csv_cert_with_root_issuer_def Let_def
    by (intro calm_intros calm_slice calm_verify_signature sm3) (auto simp: layout slice_Inr_iff)
next
  assume "length pek = 2084" "length cek = 2084"
  then show "calm (verify_csv_cert_with_csv_issuer O' pek cek)"
    unfolding verify_csv_cert_with_csv_issuer_def
    by (intro calm_intros calm_slice calm_verify_signature sm3) (auto simp: layout slice_Inr_iff)
qed

lemma calm_normalize [calm_intros]: "calm (normalize_hsk_cek_cert b)"
  unfolding normalize_hsk_cek_cert_def by (intro calm_intros)

lemma calm_load [calm_intros]: "calm (load_hsk_cek_cert env chip)"
  unfolding load_hsk_cek_cert_def download_hsk_cek_cert_def by (intro calm_intros)

lemma length_normalize: "normalize_hsk_cek_cert b = Inr c \<Longrightarrow> length c = 2916"
  by (auto simp: normalize_hsk_cek_cert_def and_then_Inr_iff layout)

lemma length_loaded: "load_hsk_cek_cert env chip = Inr (Some c) \<Longrightarrow> length c = 2916"
  by (auto simp: load_hsk_cek_cert_def download_hsk_cek_cert_def and_then_Inr_iff
      split: option.splits if_splits dest: length_normalize)

lemma calm_chain:
  assumes sm3: "\<And>x. length (sm3 O' x) = 32" and pek: "length (cr_pek_cert report) = 2084"
  shows "calm (verify_cert_chain_if_available O' env report)"
  unfolding verify_cert_chain_if_available_def chip_id_to_string_def Let_def
  using pek
  by (intro calm_intros calm_slice calm_certs sm3) (auto simp: layout slice_Inr_iff dest: length_loaded)

lemma report_lengths:
  assumes "parse input = Inr r"
  shows "length (cr_raw r) = 2548" "length (cr_pek_cert r) = 2084" "length (cr_mnonce r) = 16"
  using assms by (auto simp: parse_eq report_of_raw_def Let_def split: if_splits)

lemma calm_parse [calm_intros]: "calm (parse input)"
  by (simp add: parse_eq)

lemma calm_report_signature:
  assumes sm3: "\<And>x. length (sm3 O' x) = 32" and "parse input = Inr r"
  shows "calm (verify_report_signature O' r)"
  unfolding verify_report_signature_def signed_bytes_def report_signature_def pek_pubkey_def
  using report_lengths [OF assms(2)]
  by (intro calm_intros calm_slice calm_verify_signature sm3) (auto simp: layout slice_Inr_iff)

lemma calm_mac:
  assumes "parse input = Inr r"
  shows "calm (verify_session_mac_if_available O' r)"
  unfolding verify_session_mac_if_available_def mac_input_def
  using report_lengths [OF assms] by (intro calm_intros calm_slice) (simp_all add: layout)

text \<open>
  C34. Whatever the evidence and the challenge are, and whatever the certificate files and the
  download service hold, the CSV verifier returns a claim or an error: no slice, no index and no
  fixed-size copy on its way is out of range. It needs only that SHA-256 and SM3 give 32 bytes.
\<close>
theorem csv_verifier_never_panics:
  assumes "\<And>x. length (sha256 X x) = 32" and "\<And>x. length (sm3 O' x) = 32"
  shows "evaluate_csv X O' env mode challenge evidence \<noteq> Inl (Panic p)"
proof -
  have "calm (challenge_to_nonce X challenge)"
    unfolding challenge_to_nonce_def
    by (intro calm_intros calm_slice calm_copy_exact) (auto simp: assms CSV_NONCE_LEN_def slice_Inr_iff)
  then have "calm (evaluate_csv X O' env mode challenge evidence)"
    unfolding evaluate_csv_def
    by (intro calm_intros calm_report_signature calm_mac calm_chain assms(2)) (auto dest: report_lengths)
  then show ?thesis by (simp add: calm_def)
qed

definition toy_csv_json :: externals where
  "toy_csv_json = \<lparr>parse_json = (\<lambda>b. Some (JObj [(''mode'', JStr ''user''), (''report'', JStr (string_of b)),
       (''nonce'', JStr (string_of (resize 16 (bytes_of ''ab''))))])), print_json = (\<lambda>v. []),
     b64_encode = string_of, b64_decode = (\<lambda>s. Some (bytes_of s)), b64url_encode = string_of,
     b64url_decode = (\<lambda>s. Some (bytes_of s)), hex_encode = string_of, hex_decode = (\<lambda>s. Some (bytes_of s)),
     sha256 = resize 32\<rparr>"

text \<open>A curve on which every signature with the right range holds, and hashes that truncate.\<close>

definition toy_openssl :: "(unit, unit) openssl" where
  "toy_openssl = \<lparr>ec_group = (\<lambda>p a b gx gy n. Some ()), ec_point = (\<lambda>g x y. Some ()), ec_mul = (\<lambda>g s q t. ()),
     ec_affine = (\<lambda>g p. Some (1, 0)), sm3 = (\<lambda>b. replicate 32 0), hmac_sm3 = (\<lambda>k b. replicate 32 0)\<rparr>"

definition toy_csv_env :: csv_env where
  "toy_csv_env = \<lparr>env_hsk_cek_cert = None, env_download_certs = Some ''0'', env_file = (\<lambda>p. None),
     env_curl = (\<lambda>u. None)\<rparr>"

theorem csv_verifier_never_panics_witness:
  "evaluate_csv toy_csv_json toy_openssl toy_csv_env ''user'' (bytes_of ''ab'') [1, 2, 3]
     \<noteq> Inl (Panic ''index out of bounds'')"
  by (rule csv_verifier_never_panics) (simp_all add: toy_csv_json_def toy_openssl_def)

section \<open>Acceptance\<close>

lemma evaluate_csv_ok:
  assumes "evaluate_csv X O' env mode challenge evidence = Inr claim"
  obtains ev c b mac_ok chain_ok where
    "Option.bind (parse_json X evidence) hygon_csv_evidence_of = Some ev" "hc_mode ev = mode"
    "b64url_decode X (string_of challenge) = Some c" "c \<noteq> []"
    "b64_decode X (hc_report ev) = Some b" "2548 \<le> length b"
    "cr_mnonce (report_of_raw (take 2548 b)) = take 16 (sha256 X c)"
    "verify_session_mac_if_available O' (report_of_raw (take 2548 b)) = Inr mac_ok"
    "verify_report_signature O' (report_of_raw (take 2548 b)) = Inr ()"
    "verify_cert_chain_if_available O' env (report_of_raw (take 2548 b)) = Inr chain_ok"
    "claim = csv_claim X mode (report_of_raw (take 2548 b)) mac_ok chain_ok"
  using assms
  by (auto simp: evaluate_csv_def and_then_Inr_iff parse_eq challenge_to_nonce_def slice_Inr_iff CSV_NONCE_LEN_def
      split: if_splits)

lemma chain_ok_iff:
  "verify_cert_chain_if_available O' env r = Inr chain_ok \<Longrightarrow>
     (if chain_ok then \<exists>chip certs. load_hsk_cek_cert env chip = Inr (Some certs) \<and>
        verify_hsk_cert O' (field certs 0 832) = Inr () \<and>
        verify_csv_cert_with_root_issuer O' (field certs 832 2084) (field certs 0 832) = Inr () \<and>
        verify_csv_cert_with_csv_issuer O' (cr_pek_cert r) (field certs 832 2084) = Inr ()
      else \<exists>chip. load_hsk_cek_cert env chip = Inr None)"
  by (auto simp: verify_cert_chain_if_available_def and_then_Inr_iff slice_Inr_iff layout field_def
      split: option.splits)

text \<open>
  C35. A claim of the CSV verifier is about a report that answers the challenge and is signed: the
  16-byte nonce in the report is the start of the SHA-256 of the decoded challenge; the SM2 signature
  over the first 180 bytes of the report holds under the key of the platform certificate inside the
  report; the measurement in the claim is the unmasked one of the report. When the claim says that the
  certificate chain was verified, the root key signed the HSK, the HSK the CEK and the CEK that
  platform certificate; when it says otherwise, no certificate could be found, and the claim is
  given all the same.
\<close>
theorem csv_claim_is_signed:
  assumes "evaluate_csv X O' env mode challenge evidence = Inr claim"
  shows "\<exists>c b raw chain_ok. b64url_decode X (string_of challenge) = Some c \<and> c \<noteq> [] \<and>
     raw = take 2548 b \<and> clear raw 128 16 = take 16 (sha256 X c) \<and>
     verify_signature O' (field b 0 180) (field b 192 144) (field (clear raw 336 2084) 16 404) = Inr () \<and>
     Option.bind (json_get ''payload'' claim) (get_str ''csv.measure'') = Some (hex_encode X (clear raw 144 32)) \<and>
     Option.bind (json_get ''payload'' claim) (get_bool ''csv.cert_chain'') = Some chain_ok \<and>
     (if chain_ok then \<exists>chip certs. load_hsk_cek_cert env chip = Inr (Some certs) \<and>
        verify_hsk_cert O' (field certs 0 832) = Inr () \<and>
        verify_csv_cert_with_root_issuer O' (field certs 832 2084) (field certs 0 832) = Inr () \<and>
        verify_csv_cert_with_csv_issuer O' (clear raw 336 2084) (field certs 832 2084) = Inr ()
      else \<exists>chip. load_hsk_cek_cert env chip = Inr None)"
proof -
  obtain ev c b mac_ok chain_ok where r:
    "b64url_decode X (string_of challenge) = Some c" "c \<noteq> []" "2548 \<le> length b"
    "cr_mnonce (report_of_raw (take 2548 b)) = take 16 (sha256 X c)"
    "verify_report_signature O' (report_of_raw (take 2548 b)) = Inr ()"
    "verify_cert_chain_if_available O' env (report_of_raw (take 2548 b)) = Inr chain_ok"
    "claim = csv_claim X mode (report_of_raw (take 2548 b)) mac_ok chain_ok"
    using assms by (rule evaluate_csv_ok)
  have fields: "cr_mnonce (report_of_raw raw) = clear raw 128 16" "cr_measure (report_of_raw raw) = clear raw 144 32"
    "cr_pek_cert (report_of_raw raw) = clear raw 336 2084" for raw
    by (simp_all add: report_of_raw_def Let_def)
  have claims: "Option.bind (json_get ''payload'' claim) (get_str ''csv.measure'') =
        Some (hex_encode X (clear (take 2548 b) 144 32))"
    "Option.bind (json_get ''payload'' claim) (get_bool ''csv.cert_chain'') = Some chain_ok"
    by (simp_all add: r(7) csv_claim_def get_str_def get_bool_def fields)
  show ?thesis
    using r(1-5) claims chain_ok_iff [OF r(6)] verify_report_signature_eq [OF r(3), of O']
    by (intro exI [of _ c] exI [of _ b] exI [of _ "take 2548 b"] exI [of _ chain_ok]) (simp only: fields simp_thms)
qed

text \<open>An unmasked report for the challenge \<open>ab\<close>, of the chip \<open>A\<close>, with the signature (1, 1).\<close>

definition toy_sig :: "byte list" where
  "toy_sig = (1 # replicate 71 0) @ (1 # replicate 71 0)"

definition toy_raw :: "byte list" where
  "toy_raw = replicate 128 0 @ resize 16 (bytes_of ''ab'') @ replicate 48 0 @ toy_sig
     @ replicate 2084 0 @ (65 # replicate 127 0)"

lemma toy_raw_fields:
  "length toy_raw = 2548" "take 2548 toy_raw = toy_raw" "field toy_raw 188 4 = replicate 4 0"
  "field toy_raw 128 16 = resize 16 (bytes_of ''ab'')" "field toy_raw 0 180 = replicate 128 0 @ resize 16 (bytes_of ''ab'') @ replicate 36 0"
  "field toy_raw 192 144 = toy_sig" "field toy_raw 336 2084 = replicate 2084 0"
  "field toy_raw 2420 64 = 65 # replicate 63 0" "field toy_raw 2484 32 = replicate 32 0"
  by (simp_all add: toy_raw_def field_def toy_sig_def)

lemma clear_unmasked:
  "u32_of_le (field raw 188 4) = 0 \<Longrightarrow> off + 4 * n \<le> length raw \<Longrightarrow> clear raw off (4 * n) = field raw off (4 * n)"
  by (simp add: clear_def xor_u32_chunks_zero length_field)

lemma nat_of_be_zeros: "nat_of_be (replicate n 0) = 0"
  by (induction n) (simp_all add: nat_of_be_snoc flip: replicate_append_same, simp add: nat_of_be_def)

lemma toy_clear:
  "clear toy_raw 128 16 = resize 16 (bytes_of ''ab'')" "clear toy_raw 336 2084 = replicate 2084 0"
  "clear toy_raw 2420 64 = 65 # replicate 63 0"
proof -
  have key: "u32_of_le (field toy_raw 188 4) = 0"
    by (simp add: toy_raw_fields u32_of_le_def u32_of_be_def nat_of_be_zeros)
  show "clear toy_raw 128 16 = resize 16 (bytes_of ''ab'')" "clear toy_raw 336 2084 = replicate 2084 0"
    "clear toy_raw 2420 64 = 65 # replicate 63 0"
    using clear_unmasked [OF key, of 128 4] clear_unmasked [OF key, of 336 521] clear_unmasked [OF key, of 2420 16]
    by (simp_all add: toy_raw_fields)
qed

lemma toy_signature:
  "verify_signature toy_openssl msg toy_sig (replicate 404 0) = Inr ()"
proof -
  have order: "2 < nat_of_be SM2_N" by (simp add: nat_of_be_def SM2_N_def)
  have one: "nat_of_be (rev (1 # replicate 31 0)) = 1" by (simp add: nat_of_be_snoc nat_of_be_zeros)
  have half: "first_ecc_len_reversed (1 # replicate 71 0) = Inr (rev (1 # replicate 31 0))"
    by (simp add: first_ecc_len_reversed_def layout numeral_eq_Suc)
  have rs: "signature_r toy_sig = Inr (rev (1 # replicate 31 0))"
    "signature_s toy_sig = Inr (rev (1 # replicate 31 0))"
    using half by (simp_all add: signature_r_def signature_s_def layout toy_sig_def)
  have q: "pubkey_qx (replicate 404 0) = Inr (replicate 32 0)" "pubkey_qy (replicate 404 0) = Inr (replicate 32 0)"
    by (simp_all add: pubkey_qx_def pubkey_qy_def first_ecc_len_reversed_def layout)
  have u: "pubkey_user_id (replicate 404 0) = Inr []"
    by (simp add: pubkey_user_id_def layout u16_of_le_def nat_of_be_def)
  have sum: "Suc (Suc 0) mod nat_of_be SM2_N = 2" "Suc 0 mod nat_of_be SM2_N = 1"
    using order by simp_all
  show ?thesis
    using order by (simp add: verify_signature_def sm2_group_def sm2_message_digest_def verify_sm2_digest_def q u rs one
        Let_def nat_of_be_zeros sum toy_openssl_def layout del: rev.simps)
qed

lemma toy_report:
  "parse toy_raw = Inr (report_of_raw toy_raw)" "cr_mnonce (report_of_raw toy_raw) = resize 16 (bytes_of ''ab'')"
  "verify_session_mac_if_available toy_openssl (report_of_raw toy_raw) = Inr False"
  "verify_report_signature toy_openssl (report_of_raw toy_raw) = Inr ()"
  "verify_cert_chain_if_available toy_openssl toy_csv_env (report_of_raw toy_raw) = Inr False"
proof -
  let ?r = "report_of_raw toy_raw"
  have r: "cr_mnonce ?r = resize 16 (bytes_of ''ab'')" "cr_reserved2 ?r = replicate 32 0"
    "cr_chip_id ?r = 65 # replicate 63 0"
    by (simp_all add: report_of_raw_def Let_def toy_clear toy_raw_fields)
  show "parse toy_raw = Inr ?r" "cr_mnonce ?r = resize 16 (bytes_of ''ab'')"
    by (simp_all add: parse_eq toy_raw_fields r)
  show "verify_report_signature toy_openssl ?r = Inr ()"
    using verify_report_signature_eq [of toy_raw toy_openssl]
    by (simp add: toy_raw_fields toy_clear toy_signature field_def [of "replicate 2084 0"])
  show "verify_cert_chain_if_available toy_openssl toy_csv_env ?r = Inr False"
    by (simp add: verify_cert_chain_if_available_def r chip_id_to_string_def load_hsk_cek_cert_def
        hsk_cek_candidate_paths_def download_hsk_cek_cert_def toy_csv_env_def)
  show "verify_session_mac_if_available toy_openssl ?r = Inr False"
    by (simp add: verify_session_mac_if_available_def r)
qed

lemma toy_csv_accepted:
  "evaluate_csv toy_csv_json toy_openssl toy_csv_env ''user'' (bytes_of ''ab'') toy_raw =
     Inr (csv_claim toy_csv_json ''user'' (report_of_raw toy_raw) False False)"
proof -
  have nonce: "challenge_to_nonce toy_csv_json (bytes_of ''ab'') = Inr (resize 16 (bytes_of ''ab''))"
  proof -
    have "bytes_of ''ab'' \<noteq> []" by (simp add: bytes_of_def)
    moreover have "take 16 (resize 32 (bytes_of ''ab'')) = resize 16 (bytes_of ''ab'')" by (simp add: resize_eq)
    ultimately show ?thesis by (simp add: challenge_to_nonce_def toy_csv_json_def CSV_NONCE_LEN_def)
  qed
  have ev: "Option.bind (parse_json toy_csv_json toy_raw) hygon_csv_evidence_of =
      Some \<lparr>hc_mode = ''user'', hc_report = string_of toy_raw, hc_nonce = string_of (resize 16 (bytes_of ''ab'')), hc_ima_log = None\<rparr>"
    by (simp add: toy_csv_json_def hygon_csv_evidence_of_def struct_exact_def struct_of_def required_def optional_def)
  have dec: "b64_decode toy_csv_json s = Some (bytes_of s)" "b64url_decode toy_csv_json s = Some (bytes_of s)" for s
    by (simp_all add: toy_csv_json_def)
  show ?thesis
    by (simp add: evaluate_csv_def ev nonce dec toy_report)
qed

theorem csv_claim_is_signed_witness:
  "\<exists>claim c raw. evaluate_csv toy_csv_json toy_openssl toy_csv_env ''user'' (bytes_of ''ab'') toy_raw = Inr claim \<and>
     b64url_decode toy_csv_json ''ab'' = Some c \<and> clear raw 128 16 = take 16 (sha256 toy_csv_json c) \<and>
     Option.bind (json_get ''payload'' claim) (get_str ''csv.measure'') = Some (hex_encode toy_csv_json (clear raw 144 32))"
  using csv_claim_is_signed [OF toy_csv_accepted] toy_csv_accepted by (simp add: string_of_bytes_of) blast

section \<open>What the signature binds\<close>

lemma field_field: "off + n \<le> m \<Longrightarrow> field (take m b) off n = field b off n"
  by (simp add: field_def drop_take min_def)

lemma field_sub: "field b 0 k = field b' 0 k \<Longrightarrow> off + n \<le> k \<Longrightarrow> field b off n = field b' off n"
  by (metis field_field field_def drop0)

lemma field_append:
  "off + n \<le> length xs \<Longrightarrow> field (xs @ ys) off n = field xs off n"
  "length xs \<le> off \<Longrightarrow> field (xs @ ys) off n = field ys (off - length xs) n"
  by (simp_all add: field_def)

lemma signed_part_fixes_fields:
  assumes p: "parse b = Inr r" "parse b' = Inr r'"
    and same: "field b 0 180 = field b' 0 180" "cr_mnonce r = cr_mnonce r'"
  shows "cr_anonce r = cr_anonce r' \<and> cr_user_data r = cr_user_data r' \<and> cr_measure r = cr_measure r' \<and>
      cr_policy r = cr_policy r'"
proof -
  have r: "r = report_of_raw (take 2548 b)" "r' = report_of_raw (take 2548 b')" and n: "2548 \<le> length b"
    using p by (auto simp: parse_eq split: if_splits)
  have parts: "field b off m = field b' off m" if "off + m \<le> 180" for off m
    using field_sub [OF same(1) that] .
  have key: "u32_of_le (field b 188 4) = u32_of_le (field b' 188 4)"
  proof (rule mask_determined)
    show "xor_u32_chunks (field b 128 16) (u32_of_le (field b 188 4)) (replicate 16 0) =
        xor_u32_chunks (field b 128 16) (u32_of_le (field b' 188 4)) (replicate 16 0)"
      using same(2) parts [of 128 16] by (simp add: r report_of_raw_def Let_def clear_def field_field)
    show "4 \<le> length (field b 128 16)" using n by (simp add: length_field)
  qed simp
  show ?thesis
    using key parts by (simp add: r report_of_raw_def Let_def clear_def field_field)
qed

lemma serial_number_is_free:
  assumes p: "parse b = Inr r" and sn: "length sn = 64"
  shows "\<exists>b'' r''. parse b'' = Inr r'' \<and> cr_chip_id r'' = sn \<and>
        verify_report_signature O' r'' = verify_report_signature O' r \<and> cr_mnonce r'' = cr_mnonce r \<and>
        cr_measure r'' = cr_measure r \<and> cr_pek_cert r'' = cr_pek_cert r"
proof -
  have r: "r = report_of_raw (take 2548 b)" and n: "2548 \<le> length b"
    using p by (auto simp: parse_eq split: if_splits)
  let ?key = "u32_of_le (field b 188 4)"
  let ?masked = "xor_u32_chunks sn ?key (replicate 64 0)"
  define b'' where "b'' = take 2420 b @ ?masked @ drop 2484 b"
  have len: "length b'' = length b" using n by (simp add: b''_def)
  have old: "field b'' off m = field b off m" if "off + m \<le> 2420" for off m
    using that n by (simp add: b''_def field_append field_field)
  have new: "field b'' 2420 64 = ?masked"
    using n by (simp add: b''_def field_append) (simp add: field_def)
  have keep: "clear (take 2548 b'') off m = clear (take 2548 b) off m" if "off + m \<le> 2420" for off m
    using that by (simp add: clear_def field_field old)
  have "clear (take 2548 b'') 2420 64 = sn"
    using xor_u32_chunks_twice [of sn 16 ?key] sn by (simp add: clear_def field_field new old)
  then have chip: "cr_chip_id (report_of_raw (take 2548 b'')) = sn"
    by (simp add: report_of_raw_def Let_def)
  have sig: "verify_report_signature O' (report_of_raw (take 2548 b'')) = verify_report_signature O' r"
    using n len by (simp add: r verify_report_signature_eq old keep)
  show ?thesis
    using n len chip sig keep [of 128 16] keep [of 144 32] keep [of 336 2084]
    by (intro exI [of _ b''] exI [of _ "report_of_raw (take 2548 b'')"])
       (simp add: parse_eq, simp add: r report_of_raw_def Let_def)
qed

text \<open>
  C36. The signature of a report covers its first 180 bytes, where the measurement, the nonce, the
  user data and the policy are masked with a word that lies behind them, unsigned. That is enough to
  bind them: two reports with the same signed bytes that show the same nonce also show the same mask,
  user data, measurement and policy. It does not bind the chip identity: any serial number can be
  written into a report, and the signature check gives the same answer, under the same nonce,
  measurement and platform certificate.
\<close>
theorem signature_binds_measurement_not_chip:
  assumes "parse b = Inr r"
  shows "(\<forall>b' r'. parse b' = Inr r' \<and> field b 0 180 = field b' 0 180 \<and> cr_mnonce r = cr_mnonce r' \<longrightarrow>
        cr_anonce r = cr_anonce r' \<and> cr_user_data r = cr_user_data r' \<and> cr_measure r = cr_measure r' \<and>
        cr_policy r = cr_policy r') \<and>
     (\<forall>sn. length sn = 64 \<longrightarrow> (\<exists>b'' r''. parse b'' = Inr r'' \<and> cr_chip_id r'' = sn \<and>
        verify_report_signature O' r'' = verify_report_signature O' r \<and> cr_mnonce r'' = cr_mnonce r \<and>
        cr_measure r'' = cr_measure r \<and> cr_pek_cert r'' = cr_pek_cert r))"
  using signed_part_fixes_fields [OF assms] serial_number_is_free [OF assms] by blast

theorem signature_binds_measurement_not_chip_witness:
  "\<exists>b'' r''. parse b'' = Inr r'' \<and> cr_chip_id r'' = replicate 64 66 \<and> verify_report_signature toy_openssl r'' = Inr ()"
proof -
  have "parse toy_raw = Inr (report_of_raw toy_raw)" by (simp add: parse_eq toy_raw_fields)
  moreover have "verify_report_signature toy_openssl (report_of_raw toy_raw) = Inr ()"
    using verify_report_signature_eq [of toy_raw toy_openssl]
    by (simp add: toy_raw_fields toy_clear toy_signature field_def [of "replicate 2084 0"])
  ultimately show ?thesis
    using signature_binds_measurement_not_chip [of toy_raw "report_of_raw toy_raw" toy_openssl]
    by (metis length_replicate)
qed

end
