(* ===== verification/OfflineFacts.thy ===== *)
theory OfflineFacts
  imports TeeEvidence VirtccaFacts HygonCsvFacts JsonInstance
begin

text \<open>
  The offline path as a whole: what the program on the machine writes is what the verifier of its TEE
  reads, an honest CSV guest is verified, and what a verified file shows.
\<close>

section \<open>Printed structs\<close>

primrec doc_ok :: "json \<Rightarrow> bool" where
  "doc_ok JNull = True"
| "doc_ok (JBool b) = True"
| "doc_ok (JNum n) = True"
| "doc_ok (JFloat s) = True"
| "doc_ok (JStr s) = True"
| "doc_ok (JArr xs) = list_all (\<lambda>b. b) (map doc_ok xs)"
| "doc_ok (JObj m) = (distinct (map fst m) \<and> list_all snd (map (map_prod (\<lambda>k. k) doc_ok) m))"

text \<open>What \<open>serde_json\<close> documents: a printed document without repeated members reads back as itself.\<close>

definition doc_printer_ok :: "externals \<Rightarrow> bool" where
  "doc_printer_ok X \<longleftrightarrow> (\<forall>v. doc_ok v \<longrightarrow> parse_json X (print_json X v) = Some v)"

lemma value_doc_ok: "value_ok v \<Longrightarrow> doc_ok v"
proof (induction v)
  case (JArr xs)
  then show ?case by (simp add: value_ok_JArr list_all_iff del: value_ok.simps)
next
  case (JObj m)
  then show ?case
    by (auto simp: value_ok_JObj list_all_iff snds.simps intro: sorted_strict_distinct simp del: value_ok.simps)
qed simp_all

lemma doc_printed:
  "doc_printer_ok X \<Longrightarrow> doc_ok v \<Longrightarrow> parse_json X (print_json X v) = Some v"
  "doc_printer_ok X \<Longrightarrow> doc_ok v \<Longrightarrow> from_slice X (print_json X v) = Some (to_value v)"
  "doc_printer_ok X \<Longrightarrow> parse_json X (print_json X (to_value v)) = Some (to_value v)"
  by (simp_all add: doc_printer_ok_def from_slice_def value_doc_ok)

lemma map_of_to_value:
  assumes "distinct (map fst m)"
  obtains m' where "to_value (JObj m) = JObj m'" "value_ok (JObj m')" "\<And>k. map_of m' k = map_option to_value (map_of m k)"
proof -
  let ?kvs = "map (map_prod (\<lambda>k. k) to_value) m"
  obtain m' where m': "to_value (JObj m) = JObj m'" unfolding to_value.simps jobj_def by simp
  have "map_of (rev ?kvs) = map_of ?kvs" using assms by (subst map_of_inject_set) (auto simp: comp_def rev_map [symmetric])
  then have "map_of m' k = map_of ?kvs k" for k
    using m' map_of_jobj_fold [of "[]" ?kvs] by (simp add: to_value.simps jobj_def)
  moreover have "map_of ?kvs k = map_option to_value (map_of m k)" for k by (induction m) auto
  ultimately show ?thesis using m' value_ok_to_value [of "JObj m"] that by simp
qed

lemma struct_value:
  "value_ok (JObj m) \<Longrightarrow> struct_exact fs (JObj m) = Some (\<lambda>k. if k \<in> set fs then map_of m k else None)"
  by (auto simp: struct_exact_def struct_of_def value_ok_JObj dest: sorted_strict_distinct
      intro!: distinct_filter simp del: value_ok.simps)

lemma struct_to_value:
  assumes "distinct (map fst m)"
  shows "struct_exact fs (to_value (JObj m)) = Some (\<lambda>k. if k \<in> set fs then map_option to_value (map_of m k) else None)"
  by (rule map_of_to_value [OF assms]) (simp add: struct_value cong: if_cong del: value_ok.simps)

section \<open>Fields\<close>

lemma as_u8_byte: "as_u8 (JNum (uint x)) = Some x"
  using uint_lt2p [of x] by simp

lemma as_bytes_json [simp]: "as_bytes (to_value (bytes_json b)) = Some b"
proof -
  have v: "to_value (bytes_json b) = bytes_json b" by (simp add: bytes_json_def to_value.simps comp_def)
  have "collect_some (map (as_u8 \<circ> (\<lambda>x. JNum (int (unat x)))) b) = Some b"
    by (induction b) (simp_all add: as_u8_byte del: as_u8.simps)
  then show ?thesis unfolding v by (simp add: as_bytes_def bytes_json_def comp_def)
qed

lemma optional_json:
  "optional as_str (Some (to_value (option_json JStr s))) = Some s"
  "optional as_bool (Some (to_value (option_json JBool b))) = Some b"
  "optional as_bytes (Some (to_value (option_json bytes_json bs))) = Some bs"
  "as_str (to_value (JStr t)) = Some t"
proof -
  have "optional as_bytes (Some (to_value (bytes_json x))) = Some (Some x)" for x
  proof -
    obtain xs where "to_value (bytes_json x) = JArr xs" by (simp add: bytes_json_def to_value.simps)
    then show ?thesis using as_bytes_json [of x] by (simp add: optional_def)
  qed
  then show "optional as_bytes (Some (to_value (option_json bytes_json bs))) = Some bs"
    by (cases bs) (simp_all add: option_json_def, simp add: optional_def)
qed (cases s; cases b; simp add: option_json_def optional_def)+

lemma structs_read_back:
  "offline_request_of (to_value (request_json r)) = Some r"
  "itrustee_evidence_of (to_value (itrustee_evidence_doc ie)) = Some ie"
  "virtcca_evidence_json (to_value (virtcca_evidence_doc ve)) = Some ve"
  "hygon_csv_evidence_of (to_value (hygon_csv_evidence_doc ce)) = Some ce"
  by (simp_all add: request_json_def itrustee_evidence_doc_def virtcca_evidence_doc_def hygon_csv_evidence_doc_def
      offline_request_of_def itrustee_evidence_of_def virtcca_evidence_json_def hygon_csv_evidence_of_def
      struct_to_value optional_json required_def del: to_value.simps)

lemma bytes_doc_ok [simp]: "doc_ok (bytes_json b)"
  by (simp add: bytes_json_def list_all_iff)

lemma option_doc_ok [simp]: "(\<And>y. doc_ok (f y)) \<Longrightarrow> doc_ok (option_json f x)"
  by (cases x) (simp_all add: option_json_def)

lemma docs_ok:
  "doc_ok (request_json r)" "doc_ok (itrustee_evidence_doc ie)" "doc_ok (virtcca_evidence_doc ve)"
  "doc_ok (hygon_csv_evidence_doc ce)" "doc_ok (evidence_json kind r s)"
  by (simp_all add: request_json_def itrustee_evidence_doc_def virtcca_evidence_doc_def hygon_csv_evidence_doc_def
      evidence_json_def)

section \<open>From the machine to the verifier\<close>

definition evidence_file :: "externals \<Rightarrow> tee_kind \<Rightarrow> offline_request \<Rightarrow> json \<Rightarrow> byte list" where
  "evidence_file X kind request doc =
     print_json X (inline_evidence X (to_value (evidence_json kind request (to_string X doc))))"

text \<open>What \<open>main\<close> writes reads back as the kind, the request and the document of the backend.\<close>

lemma evidence_file_read:
  assumes X: "doc_printer_ok X" and doc: "doc_ok doc"
  shows "Option.bind (parse_json X (evidence_file X kind request doc)) tee_evidence_file_of =
    Some \<lparr>tf_tee = kind, tf_request = request, tf_evidence = to_value doc\<rparr>"
proof -
  let ?s = "to_string X doc"
  have "distinct (map fst [(''tee'', JStr (tee_kind_name kind)), (''request'', request_json request), (''evidence'', JStr ?s)])"
    by simp
  from map_of_to_value [OF this]
  obtain m where m: "to_value (evidence_json kind request ?s) = JObj m" "value_ok (JObj m)"
    "\<And>k. map_of m k = map_option to_value (map_of [(''tee'', JStr (tee_kind_name kind)),
       (''request'', request_json request), (''evidence'', JStr ?s)] k)"
    unfolding evidence_json_def by metis
  let ?v = "JObj (obj_insert ''evidence'' (to_value doc) m)"
  have "from_slice X (bytes_of ?s) = Some (to_value doc)"
    using doc_printed(2) [OF X doc] by (simp add: to_string_def)
  then have "inline_evidence X (JObj m) = ?v" using m(3) [of "''evidence''"] by (simp add: inline_evidence_def)
  moreover have v: "value_ok ?v" using m(2) by (intro value_ok_obj_insert) simp_all
  ultimately have "parse_json X (evidence_file X kind request doc) = Some ?v"
    using doc_printed(1) [OF X value_doc_ok [OF v]] by (simp add: evidence_file_def m(1))
  moreover have "tee_evidence_file_of ?v = Some \<lparr>tf_tee = kind, tf_request = request, tf_evidence = to_value doc\<rparr>"
    using m(3) by (simp add: tee_evidence_file_of_def struct_value [OF v] required_def structs_read_back)
  ultimately show ?thesis by simp
qed

lemma evidence_file_verified:
  "doc_printer_ok (of_ext E) \<Longrightarrow> doc_ok doc \<Longrightarrow>
    verify_evidence_json E (evidence_file (of_ext E) kind request doc) =
      verify_evidence E \<lparr>tf_tee = kind, tf_request = request, tf_evidence = to_value doc\<rparr>"
  by (simp add: verify_evidence_json_def evidence_file_read)

text \<open>The backend of a kind of TEE.\<close>

definition run_backend :: "attester_build \<Rightarrow> externals \<Rightarrow> device \<Rightarrow> tee_kind \<Rightarrow> offline_request \<Rightarrow> string res" where
  "run_backend B X D kind request =
     (case kind of
        HygonCsvUser \<Rightarrow> csv_user_get_evidence B X D request
      | HygonCsvKernel \<Rightarrow> csv_kernel_get_evidence B X D request
      | Itrustee \<Rightarrow> itrustee_tee_get_evidence X D request
      | Virtcca \<Rightarrow> virtcca_tee_get_evidence X D request
      | InvalidTee \<Rightarrow> Inl (Err ''no backend''))"

lemma printed_docs:
  "\<exists>doc. doc_ok doc \<and> to_string X (itrustee_evidence_doc ie) = to_string X doc"
  "\<exists>doc. doc_ok doc \<and> to_string X (virtcca_evidence_doc ve) = to_string X doc"
  "\<exists>doc. doc_ok doc \<and> to_string X (hygon_csv_evidence_doc ce) = to_string X doc"
  using docs_ok by blast+

lemma backend_prints_doc:
  "run_backend B X D kind request = Inr e \<Longrightarrow> \<exists>doc. doc_ok doc \<and> e = to_string X doc"
  by (auto intro: printed_docs simp: run_backend_def csv_user_get_evidence_def csv_kernel_get_evidence_def itrustee_tee_get_evidence_def
      itrustee_get_evidence_def virtcca_tee_get_evidence_def and_then_Inr_iff Let_def case_prod_beta
      split: tee_kind.splits if_splits)

lemma try_backend_ok:
  "try_backend X tried kind request run rest errors = Inr b \<Longrightarrow>
    (\<exists>e. tried \<and> run = Inr e \<and> b = print_json X (evidence_json kind request e)) \<or> (\<exists>es. rest es = Inr b)"
  by (auto simp: try_backend_def split: if_splits sum.splits failure.splits)

lemma tee_get_evidence_ok:
  assumes "tee_get_evidence B X D request = Inr b"
  obtains kind e where "run_backend B X D kind request = Inr e" "b = print_json X (evidence_json kind request e)"
proof -
  have "\<exists>kind e. run_backend B X D kind request = Inr e \<and> b = print_json X (evidence_json kind request e)"
    using assms unfolding tee_get_evidence_def
    by (elim disjE exE conjE try_backend_ok [elim_format])
       (force simp: run_backend_def split: if_splits)+
  then show ?thesis using that by blast
qed

text \<open>
  C12. The evidence file arrives as it was collected. Whatever backend of the machine produced the
  evidence and whatever it contains, the file the program writes is judged by the offline verifier as
  the request that was made, the kind of TEE of that backend and the document the backend printed:
  inlining the evidence into the file, reordering its members and printing it again change nothing
  the verifier of that TEE sees.
\<close>
theorem evidence_file_delivered:
  assumes "doc_printer_ok (of_ext E)" and "tee_main B (of_ext E) D rng = Inr b"
  shows "\<exists>kind doc. run_backend B (of_ext E) D kind (default_evidence_request B (of_ext E) rng) = Inr (to_string (of_ext E) doc) \<and>
    verify_evidence_json E b =
      verify_evidence E \<lparr>tf_tee = kind, tf_request = default_evidence_request B (of_ext E) rng, tf_evidence = to_value doc\<rparr>"
proof -
  let ?X = "of_ext E" and ?req = "default_evidence_request B (of_ext E) rng"
  obtain b0 v where b0: "tee_get_evidence B ?X D ?req = Inr b0" "from_slice ?X b0 = Some v"
    "b = print_json ?X (inline_evidence ?X v)"
    using assms(2) by (auto simp: tee_main_def and_then_Inr_iff)
  obtain kind e where e: "run_backend B ?X D kind ?req = Inr e" "b0 = print_json ?X (evidence_json kind ?req e)"
    using b0(1) by (rule tee_get_evidence_ok)
  obtain doc where doc: "doc_ok doc" "e = to_string ?X doc" using backend_prints_doc [OF e(1)] by blast
  have "b = evidence_file ?X kind ?req doc"
    using b0(2,3) doc_printed(2) [OF assms(1) docs_ok(5)] by (simp add: e(2) doc(2) evidence_file_def)
  then show ?thesis using e(1) doc evidence_file_verified [OF assms(1) doc(1)] by blast
qed

section \<open>An honest CSV guest\<close>

lemma csv_evidence_accepted:
  assumes X: "doc_printer_ok (of_ext E)" and enabled: "csv_user_verifier (of_build E)"
    and nonce: "challenge_to_nonce (of_ext E) (rq_challenge req) = Inr nonce"
    and codecs: "b64url_decode (of_ext E) (b64url_encode (of_ext E) nonce) = Some nonce"
      "b64_decode (of_ext E) (b64_encode (of_ext E) report) = Some report"
    and report: "parse report = Inr r" "cr_mnonce r = nonce"
      "verify_session_mac_if_available (of_openssl E) r = Inr mac" "verify_report_signature (of_openssl E) r = Inr ()"
      "verify_cert_chain_if_available (of_openssl E) (of_csv E) r = Inr chain"
    and ev: "ev = \<lparr>hc_mode = ''user'', hc_report = b64_encode (of_ext E) report,
      hc_nonce = b64url_encode (of_ext E) nonce, hc_ima_log = None\<rparr>"
  shows "verify_evidence E \<lparr>tf_tee = HygonCsvUser, tf_request = req, tf_evidence = to_value (hygon_csv_evidence_doc ev)\<rparr> =
    Inr (csv_claim (of_ext E) ''user'' r mac chain)"
proof -
  have "evidence_to_bytes (of_ext E) (to_value (hygon_csv_evidence_doc ev)) = print_json (of_ext E) (to_value (hygon_csv_evidence_doc ev))"
    by (simp add: hygon_csv_evidence_doc_def evidence_to_bytes_def to_value.simps jobj_def)
  then show ?thesis
    using doc_printed(3) [OF X] structs_read_back(4) [of ev] enabled nonce codecs report
    by (simp add: verify_evidence_def Let_def evaluate_user_def evaluate_csv_def) (simp add: ev)
qed

lemma csv_file_written:
  assumes X: "doc_printer_ok X" and build: "csv_user_attester B" "\<not> csv_kernel_attester B" "linux_x86 B"
    and nonce: "challenge_to_nonce X (rq_challenge (csv_evidence_request X rng)) = Inr nonce"
    and guest: "dv_csv_user_report D (replicate (unat (dv_csv_user_size D)) 0) nonce = (0, report)"
  shows "tee_main B X D rng = Inr (evidence_file X HygonCsvUser (csv_evidence_request X rng) (hygon_csv_evidence_doc
    \<lparr>hc_mode = ''user'', hc_report = b64_encode X report, hc_nonce = b64url_encode X nonce, hc_ima_log = None\<rparr>))"
proof -
  let ?req = "csv_evidence_request X rng"
  let ?doc = "hygon_csv_evidence_doc \<lparr>hc_mode = ''user'', hc_report = b64_encode X report,
    hc_nonce = b64url_encode X nonce, hc_ima_log = None\<rparr>"
  have req: "default_evidence_request B X rng = ?req"
    using build(1) by (simp add: default_evidence_request_def csv_evidence_request_def)
  have "guest_challenge_to_nonce X (rq_challenge ?req) = Inr nonce"
    using nonce by (simp add: guest_challenge_to_nonce_def challenge_to_nonce_def)
  then have "csv_user_get_evidence B X D ?req = Inr (to_string X ?doc)"
    using build(3) guest by (simp add: csv_user_get_evidence_def read_ima_log_if_requested_def)
  then have "tee_get_evidence B X D ?req = Inr (print_json X (evidence_json HygonCsvUser ?req (to_string X ?doc)))"
    using build(1,2) by (simp add: tee_get_evidence_def try_backend_def)
  then show ?thesis
    using doc_printed(2) [OF X docs_ok(5)] by (simp add: tee_main_def req evidence_file_def)
qed

lemma csv_challenge_nonce:
  assumes "\<And>b. b64url_decode X (b64url_encode X b) = Some b" and "rng 16 \<noteq> []" and "length (sha256 X (rng 16)) = 32"
  shows "challenge_to_nonce X (rq_challenge (csv_evidence_request X rng)) = Inr (take 16 (sha256 X (rng 16)))"
  using assms by (simp add: challenge_to_nonce_def csv_evidence_request_def CSV_CHALLENGE_LEN_def
      random_base64url_challenge_with_len_def CSV_NONCE_LEN_def copy_exact_def)

text \<open>
  C11. An honest CSV guest is verified, by a verifier and with a program that are built for user-mode CSV
  (JSON and base64 are read back as printed). Let the device driver (the repository's C layer over the
  firmware, a parameter here) answer the nonce of the user-mode program's random challenge with a report
  that parses and carries the nonce, whose session MAC checks out where the verifier can check it, whose
  signature holds, and whose certificate chain checks out as far as its certificates are available. Then
  the file the program writes is verified, and the claim is about that report with the outcome of the
  two conditional checks: both sides derive the same 16-byte nonce from the challenge, and encoding,
  inlining and printing lose nothing.
\<close>
theorem honest_csv_guest_verified:
  fixes E :: "('g, 'p, 'x, 'k) offline_env"
  assumes X: "doc_printer_ok (of_ext E)" "\<And>b. b64url_decode (of_ext E) (b64url_encode (of_ext E) b) = Some b"
      "\<And>b. b64_decode (of_ext E) (b64_encode (of_ext E) b) = Some b" "length (sha256 (of_ext E) (rng 16)) = 32"
    and build: "csv_user_attester B" "\<not> csv_kernel_attester B" "linux_x86 B" "csv_user_verifier (of_build E)"
    and challenge: "rng 16 \<noteq> []" "nonce = take 16 (sha256 (of_ext E) (rng 16))"
    and guest: "dv_csv_user_report D (replicate (unat (dv_csv_user_size D)) 0) nonce = (0, report)"
    and report: "parse report = Inr r" "cr_mnonce r = nonce"
      "verify_session_mac_if_available (of_openssl E) r = Inr mac" "verify_report_signature (of_openssl E) r = Inr ()"
      "verify_cert_chain_if_available (of_openssl E) (of_csv E) r = Inr chain"
  shows "\<exists>b. tee_main B (of_ext E) D rng = Inr b \<and>
    verify_evidence_json E b = Inr (csv_claim (of_ext E) ''user'' r mac chain) \<and> verify_main E (Some b) = Inr True"
proof -
  have n: "challenge_to_nonce (of_ext E) (rq_challenge (csv_evidence_request (of_ext E) rng)) = Inr nonce"
    unfolding challenge(2) using X(2) challenge(1) X(4) by (rule csv_challenge_nonce)
  note written = csv_file_written [OF X(1) build(1-3) n guest]
    and verified = csv_evidence_accepted [OF X(1) build(4) n X(2,3) report refl]
  show ?thesis
    unfolding verify_main_True written sum.inject
    by (intro exI conjI, rule refl) (auto simp: evidence_file_verified [OF X(1) docs_ok(4)] verified)
qed

text \<open>A machine whose firmware gives the report of \<open>HygonCsvFacts\<close>, and a verifier with every backend.\<close>

definition toy_docs :: externals where
  "toy_docs = toy_json\<lparr>sha256 := resize 32\<rparr>"

definition toy_rng :: "nat \<Rightarrow> byte list" where
  "toy_rng n = bytes_of ''ab''"

definition toy_guest :: device where
  "toy_guest = \<lparr>dv_modules = None, dv_exists = (\<lambda>p. False), dv_read = (\<lambda>p. None),
     dv_remote_attest = (\<lambda>i out. (1, out)), dv_tsi_ctx = False, dv_token = (\<lambda>c b. (1, b, 0)),
     dv_dev_cert = (\<lambda>b. (1, b, 0)), dv_csv_user_size = 2548, dv_csv_user_report = (\<lambda>b n. (0, toy_raw)),
     dv_csv_kernel_size = 2548, dv_csv_kernel_report = (\<lambda>b n. (-5, b))\<rparr>"

definition toy_build :: attester_build where
  "toy_build = \<lparr>csv_user_attester = True, csv_kernel_attester = False, itrustee_attester = False,
     virtcca_attester = False, linux_x86 = True\<rparr>"

definition toy_offline :: "(unit, unit, unit, unit) offline_env" where
  "toy_offline = \<lparr>of_build = \<lparr>csv_user_verifier = True, csv_kernel_verifier = True, itrustee_verifier = True,
       virtcca_verifier = True\<rparr>, of_ext = toy_docs, of_openssl = toy_openssl, of_csv = toy_csv_env,
     of_itrustee = \<lparr>ix_ext = toy_docs, ix_ima = toy_ima, ix_build = \<lparr>no_as = False, ima_verifier = True\<rparr>,
       ix_refs = toy_refs, ix_verify_report = (\<lambda>d n p f. 1)\<rparr>, of_virtcca = toy_virtcca\<rparr>"

lemma toy_offline_sel [simp]:
  "of_ext toy_offline = toy_docs" "of_openssl toy_offline = toy_openssl" "of_csv toy_offline = toy_csv_env"
  "csv_user_verifier (of_build toy_offline)"
  by (simp_all add: toy_offline_def)

lemma toy_docs_ok:
  "doc_printer_ok toy_docs" "b64url_decode toy_docs (b64url_encode toy_docs b) = Some b"
  "b64_decode toy_docs (b64_encode toy_docs b) = Some b" "length (sha256 toy_docs (toy_rng 16)) = 32"
  "toy_rng 16 \<noteq> []" "take 16 (sha256 toy_docs (toy_rng 16)) = resize 16 (bytes_of ''ab'')"
proof -
  have "parse_json toy_docs = parse_json toy_json" "print_json toy_docs = toy_print" by (simp_all add: toy_docs_def)
  then show "doc_printer_ok toy_docs" by (simp add: doc_printer_ok_def)
  show "toy_rng 16 \<noteq> []" by (simp add: toy_rng_def bytes_of_def)
qed (simp_all add: toy_docs_def toy_rng_def resize_eq)

lemma toy_nonce:
  "challenge_to_nonce toy_docs (rq_challenge (csv_evidence_request toy_docs toy_rng)) = Inr (resize 16 (bytes_of ''ab''))"
  using csv_challenge_nonce [of toy_docs toy_rng] toy_docs_ok by simp

lemma toy_written:
  "tee_main toy_build toy_docs toy_guest toy_rng = Inr (evidence_file toy_docs HygonCsvUser (csv_evidence_request toy_docs toy_rng)
     (hygon_csv_evidence_doc \<lparr>hc_mode = ''user'', hc_report = b64_encode toy_docs toy_raw,
        hc_nonce = b64url_encode toy_docs (resize 16 (bytes_of ''ab'')), hc_ima_log = None\<rparr>))"
  by (rule csv_file_written [OF toy_docs_ok(1) _ _ _ toy_nonce]) (simp_all add: toy_build_def toy_guest_def)

lemma toy_verified:
  "\<exists>b. tee_main toy_build toy_docs toy_guest toy_rng = Inr b \<and>
    verify_evidence_json toy_offline b = Inr (csv_claim toy_docs ''user'' (report_of_raw toy_raw) False False)"
proof -
  have "verify_evidence toy_offline \<lparr>tf_tee = HygonCsvUser, tf_request = csv_evidence_request toy_docs toy_rng,
      tf_evidence = to_value (hygon_csv_evidence_doc \<lparr>hc_mode = ''user'', hc_report = b64_encode toy_docs toy_raw,
        hc_nonce = b64url_encode toy_docs (resize 16 (bytes_of ''ab'')), hc_ima_log = None\<rparr>)\<rparr> =
    Inr (csv_claim toy_docs ''user'' (report_of_raw toy_raw) False False)"
    using csv_evidence_accepted [where E = toy_offline and report = toy_raw and nonce = "resize 16 (bytes_of ''ab'')"]
      toy_docs_ok toy_nonce toy_report by simp
  then show ?thesis
    using toy_written evidence_file_verified [where E = toy_offline] toy_docs_ok(1) docs_ok(4) by simp
qed

theorem evidence_file_delivered_witness:
  "\<exists>b kind doc. tee_main toy_build toy_docs toy_guest toy_rng = Inr b \<and>
    run_backend toy_build toy_docs toy_guest kind (default_evidence_request toy_build toy_docs toy_rng) =
      Inr (to_string toy_docs doc) \<and>
    verify_evidence_json toy_offline b = verify_evidence toy_offline
      \<lparr>tf_tee = kind, tf_request = default_evidence_request toy_build toy_docs toy_rng, tf_evidence = to_value doc\<rparr>"
  using evidence_file_delivered [of toy_offline toy_build toy_guest toy_rng] toy_written toy_docs_ok(1)
  by (metis toy_offline_sel(1))

theorem honest_csv_guest_verified_witness:
  "\<exists>b. tee_main toy_build toy_docs toy_guest toy_rng = Inr b \<and> verify_main toy_offline (Some b) = Inr True"
proof -
  have "\<exists>b. tee_main toy_build (of_ext toy_offline) toy_guest toy_rng = Inr b \<and>
      verify_evidence_json toy_offline b = Inr (csv_claim (of_ext toy_offline) ''user'' (report_of_raw toy_raw) False False) \<and>
      verify_main toy_offline (Some b) = Inr True"
    by (rule honest_csv_guest_verified [where nonce = "resize 16 (bytes_of ''ab'')" and report = toy_raw])
       (use toy_docs_ok toy_report in \<open>simp_all add: toy_build_def toy_guest_def\<close>)
  then show ?thesis by auto
qed

section \<open>What a verified file shows\<close>

text \<open>That the evidence of a file answers a challenge: what each verifier has compared and checked.\<close>

definition answers :: "('g, 'p, 'x, 'k) offline_env \<Rightarrow> tee_kind \<Rightarrow> byte list \<Rightarrow> byte list \<Rightarrow> bool" where
  "answers E kind challenge evidence =
     (let X = of_ext E;
          csv = (\<lambda>mode. \<exists>ev report r. Option.bind (parse_json X evidence) hygon_csv_evidence_of = Some ev \<and> hc_mode ev = mode \<and>
            b64_decode X (hc_report ev) = Some report \<and> parse report = Inr r \<and>
            cr_mnonce r = take 16 (sha256 X challenge) \<and> verify_report_signature (of_openssl E) r = Inr ())
      in case kind of
        HygonCsvUser \<Rightarrow> csv_user_verifier (of_build E) \<and> csv ''user''
      | HygonCsvKernel \<Rightarrow> csv_kernel_verifier (of_build E) \<and> csv ''kernel''
      | Itrustee \<Rightarrow> itrustee_verifier (of_build E) \<and>
          (\<exists>ev nonce file. Option.bind (parse_json X evidence) itrustee_evidence_of = Some ev \<and>
            itrustee_nonce (of_itrustee E\<lparr>ix_ext := X\<rparr>) challenge ev nonce \<and>
            ix_verify_report (of_itrustee E) (buffer_of (bytes_of (ie_report ev))) (buffer_of nonce) 1 file = 0)
      | Virtcca \<Rightarrow> virtcca_verifier (of_build E) \<and>
          (\<exists>ev e k. Option.bind (parse_json X evidence) virtcca_evidence_json = Some ev \<and>
            evidence_decode (vx_cbor (of_virtcca E)) (vx_ssl (of_virtcca E)) (ve_evidence ev) = Inr e \<and>
            take (length challenge) (cvm_challenge (cvm_token e)) = challenge \<and>
            verify_cose_sign1 (vx_ssl (of_virtcca E)) (cvm_envelop e) k = Inr ())
      | InvalidTee \<Rightarrow> False)"

definition claim_name :: "tee_kind \<Rightarrow> string" where
  "claim_name kind =
     (case kind of
        HygonCsvUser \<Rightarrow> ''hygon_csv_user''
      | HygonCsvKernel \<Rightarrow> ''hygon_csv_kernel''
      | Itrustee \<Rightarrow> ''itrustee''
      | Virtcca \<Rightarrow> ''virtcca''
      | InvalidTee \<Rightarrow> ''none'')"

lemma csv_answers:
  assumes "evaluate_csv X S env mode user_data evidence = Inr claim"
  shows "\<exists>challenge ev report r. b64url_decode X (string_of user_data) = Some challenge \<and> challenge \<noteq> [] \<and>
    Option.bind (parse_json X evidence) hygon_csv_evidence_of = Some ev \<and> hc_mode ev = mode \<and>
    b64_decode X (hc_report ev) = Some report \<and> parse report = Inr r \<and> cr_mnonce r = take 16 (sha256 X challenge) \<and>
    verify_report_signature S r = Inr () \<and>
    get_str ''tee'' claim = Some (if mode = ''user'' then ''hygon_csv_user''
      else if mode = ''kernel'' then ''hygon_csv_kernel'' else ''hygon_csv'')"
proof (rule evaluate_csv_ok [OF assms])
  fix ev c b mac_ok chain_ok
  assume r: "Option.bind (parse_json X evidence) hygon_csv_evidence_of = Some ev" "hc_mode ev = mode"
    "b64url_decode X (string_of user_data) = Some c" "c \<noteq> []" "b64_decode X (hc_report ev) = Some b" "2548 \<le> length b"
    "cr_mnonce (report_of_raw (take 2548 b)) = take 16 (sha256 X c)"
    "verify_report_signature S (report_of_raw (take 2548 b)) = Inr ()"
    "claim = csv_claim X mode (report_of_raw (take 2548 b)) mac_ok chain_ok"
  have "get_str ''tee'' claim = Some (if mode = ''user'' then ''hygon_csv_user''
      else if mode = ''kernel'' then ''hygon_csv_kernel'' else ''hygon_csv'')"
    by (simp add: r(9) csv_claim_def get_str_def)
  moreover have "parse b = Inr (report_of_raw (take 2548 b))" using r(6) by (simp add: parse_eq)
  ultimately show ?thesis using r(1-5,7,8) by blast
qed

lemma virtcca_answers:
  assumes "evaluate_virtcca V user_data evidence = Inr claim"
  shows "\<exists>challenge ev e k. b64url_decode (vx_ext V) (string_of user_data) = Some challenge \<and> challenge \<noteq> [] \<and>
    Option.bind (parse_json (vx_ext V) evidence) virtcca_evidence_json = Some ev \<and>
    evidence_decode (vx_cbor V) (vx_ssl V) (ve_evidence ev) = Inr e \<and>
    take (length challenge) (cvm_challenge (cvm_token e)) = challenge \<and>
    verify_cose_sign1 (vx_ssl V) (cvm_envelop e) k = Inr () \<and> get_str ''tee'' claim = Some ''virtcca''"
proof -
  obtain challenge where c: "b64url_decode (vx_ext V) (string_of user_data) = Some challenge" "challenge \<noteq> []"
    "verify_virtcca V challenge evidence = Inr claim"
    using assms by (auto simp: evaluate_virtcca_def and_then_Inr_iff)
  obtain ev e cert ima elog where v: "Option.bind (parse_json (vx_ext V) evidence) virtcca_evidence_json = Some ev"
    "evidence_decode (vx_cbor V) (vx_ssl V) (ve_evidence ev) = Inr e"
    "verify_cvm_token (vx_ext V) (vx_ssl V) (vx_read V) (no_as (vx_build V)) e challenge = Inr ()"
    "parse_claim_from_evidence (vx_ext V) e ima elog = Inr claim"
    using c(3) by (rule verify_virtcca_ok)
  have "get_str ''tee'' claim = Some ''virtcca''"
    using v(4) by (auto simp: parse_claim_from_evidence_def Let_def and_then_Inr_iff get_str_def)
  moreover obtain k where "take (length challenge) (cvm_challenge (cvm_token e)) = challenge"
    "verify_cose_sign1 (vx_ssl V) (cvm_envelop e) k = Inr ()"
    using v(3) by (rule verify_cvm_token_ok)
  ultimately show ?thesis using c(1,2) v(1,2) by blast
qed

text \<open>
  C10. A verified evidence file answers the challenge it states. When the offline verifier gives a
  claim, the file names a TEE whose verifier is compiled in, the claim is about that TEE, the stated
  challenge decodes to a non-empty one, and the check of that TEE tied the signed evidence to it: the
  nonce of a signed CSV report is derived from it, a signed VirtCCA token starts with it, and the
  iTrustee library accepted the report for it, with the hash of the IMA log when there is one.
\<close>
theorem verified_file_answers_challenge:
  assumes "verify_evidence_json E b = Inr claim"
  shows "\<exists>file challenge. Option.bind (parse_json (of_ext E) b) tee_evidence_file_of = Some file \<and>
    b64url_decode (of_ext E) (string_of (rq_challenge (tf_request file))) = Some challenge \<and> challenge \<noteq> [] \<and>
    answers E (tf_tee file) challenge (evidence_to_bytes (of_ext E) (tf_evidence file)) \<and>
    get_str ''tee'' claim = Some (claim_name (tf_tee file))"
proof -
  obtain ef where ef: "Option.bind (parse_json (of_ext E) b) tee_evidence_file_of = Some ef"
    "verify_evidence E ef = Inr claim"
    using assms by (auto simp: verify_evidence_json_def and_then_Inr_iff)
  have "\<exists>challenge. b64url_decode (of_ext E) (string_of (rq_challenge (tf_request ef))) = Some challenge \<and> challenge \<noteq> [] \<and>
    answers E (tf_tee ef) challenge (evidence_to_bytes (of_ext E) (tf_evidence ef)) \<and>
    get_str ''tee'' claim = Some (claim_name (tf_tee ef))"
  proof (cases "tf_tee ef")
    case Itrustee
    with ef(2) have on: "itrustee_verifier (of_build E)" and run: "evaluate_itrustee (of_itrustee E\<lparr>ix_ext := of_ext E\<rparr>)
        (rq_challenge (tf_request ef)) (evidence_to_bytes (of_ext E) (tf_evidence ef)) = Inr claim"
      by (auto simp: verify_evidence_def Let_def split: if_splits)
    show ?thesis
      by (rule evaluate_itrustee_ok [OF run])
         (use on in \<open>auto simp: Itrustee answers_def claim_name_def itrustee_claim_def Let_def get_str_def\<close>)
  next
    case Virtcca
    with ef(2) have "virtcca_verifier (of_build E)" "evaluate_virtcca (of_virtcca E\<lparr>vx_ext := of_ext E\<rparr>)
        (rq_challenge (tf_request ef)) (evidence_to_bytes (of_ext E) (tf_evidence ef)) = Inr claim"
      by (auto simp: verify_evidence_def Let_def split: if_splits)
    then show ?thesis
      by (auto simp: Virtcca answers_def claim_name_def dest!: virtcca_answers)
  qed (use ef(2) in \<open>auto simp: verify_evidence_def Let_def evaluate_user_def evaluate_kernel_def answers_def claim_name_def
      split: if_splits dest!: csv_answers\<close>)
  then show ?thesis using ef(1) by blast
qed

theorem verified_file_answers_challenge_witness:
  "\<exists>b file challenge. tee_main toy_build toy_docs toy_guest toy_rng = Inr b \<and>
    Option.bind (parse_json toy_docs b) tee_evidence_file_of = Some file \<and>
    answers toy_offline (tf_tee file) challenge (evidence_to_bytes toy_docs (tf_evidence file))"
  using toy_verified verified_file_answers_challenge [where E = toy_offline] by fastforce

end
