(* ===== verification/Config.thy ===== *)
theory Config
  imports Attestation Session Restart
begin

text \<open>
  The configuration files of the verifier and of the attester, \<^verbatim>\<open>verifier/src/config.rs\<close> and
  \<^verbatim>\<open>attester/src/config.rs\<close>.

  \<^item> The crate \<^verbatim>\<open>toml\<close> is a function from a text to the document it shows a deserializer, if the text is
    TOML: a table is a \<open>JObj\<close> with the keys it has, each once; there is no \<open>JNull\<close>.
  \<^item> \<open>table_of\<close> is what a derived \<^verbatim>\<open>Deserialize\<close> sees of such a document: unknown keys are skipped, and an
    array gives the fields in the order of the struct, elements beyond them unread.
\<close>

section \<open>Reading a document\<close>

definition table_of :: "string list \<Rightarrow> json \<Rightarrow> (string \<rightharpoonup> json) option" where
  "table_of fs v =
     (case v of
        JObj m \<Rightarrow> Some (\<lambda>k. if k \<in> set fs then map_of m k else None)
      | JArr xs \<Rightarrow> Some (map_of (zip fs xs))
      | _ \<Rightarrow> None)"

text \<open>A field with a default, and an \<^verbatim>\<open>Option\<close> that may be left out.\<close>

definition defaulted :: "(json \<Rightarrow> 'a option) \<Rightarrow> 'a \<Rightarrow> json option \<Rightarrow> 'a option" where
  "defaulted rd x v = (case v of None \<Rightarrow> Some x | Some w \<Rightarrow> rd w)"

definition maybe :: "(json \<Rightarrow> 'a option) \<Rightarrow> json option \<Rightarrow> 'a option option" where
  "maybe rd = defaulted (\<lambda>w. map_option Some (rd w)) None"

definition as_strings :: "json \<Rightarrow> string list option" where
  "as_strings v = Option.bind (as_array v) (\<lambda>xs. collect_some (map as_str xs))"

lemma defaulted_simps [simp]:
  "defaulted rd x None = Some x" "defaulted rd x (Some w) = rd w"
  by (simp_all add: defaulted_def)

lemma table_of_JObj [simp]: "table_of fs (JObj m) = Some (\<lambda>k. if k \<in> set fs then map_of m k else None)"
  by (simp add: table_of_def)

lemma collect_some_Some [simp]: "collect_some (map (Some \<circ> f) xs) = Some (map f xs)"
  "collect_some (map (\<lambda>x. Some (f x)) xs) = Some (map f xs)"
  by (induction xs) simp_all

text \<open>\<open>Config::load\<close>, of either program.\<close>

definition config_load :: "(string \<Rightarrow> json option) \<Rightarrow> (json \<Rightarrow> 'a option) \<Rightarrow> string \<Rightarrow> ('z disk_scheme, 'a) io" where
  "config_load toml reader path =
     io_then (io_context ''read'' (read_file path)) (\<lambda>b.
     io_then (io (ok_or ''read'' (from_utf8 b))) (\<lambda>raw.
     io (ok_or ''parse toml'' (Option.bind (toml raw) reader))))"

lemma io_then_Inr_iff:
  "io_then m f d = (d', Inr y) \<longleftrightarrow> (\<exists>d1 x. m d = (d1, Inr x) \<and> f x d1 = (d', Inr y))"
  by (auto simp: io_then_def split: prod.splits sum.splits)

lemma io_context_Inr_iff: "io_context msg m d = (d', Inr x) \<longleftrightarrow> m d = (d', Inr x)"
  by (auto simp: io_context_def split: prod.splits)

lemma config_load_Inr_iff:
  "config_load toml reader path d = (d', Inr cfg) \<longleftrightarrow>
     d' = d \<and> (\<exists>b raw doc. files d path = Some b \<and> from_utf8 b = Some raw \<and> toml raw = Some doc \<and> reader doc = Some cfg)"
  by (auto simp: config_load_def io_then_Inr_iff io_context_Inr_iff read_file_def io_def ok_or_def Option.bind_eq_Some_conv
      split: option.splits)

section \<open>The verifier\<close>

record wasm_config =
  wc_allow_unsigned :: bool
  wc_registry_dir :: string
  wc_trusted_component_hashes :: "string list"

record ear_config =
  ec_signing_key_path :: string

record policy_config =
  pl_cca :: cca_policy
  pl_csv :: csv_policy
  pl_tdx :: tdx_policy

record verifier_hydra =
  vh_listen :: string
  vh_data_dir :: string
  vh_relying_party_addrs :: "string list"

record verifier_config =
  vc_listen :: string
  vc_wasm :: wasm_config
  vc_ear :: ear_config
  vc_policy :: policy_config
  vc_hydra :: verifier_hydra

definition default_components_dir :: string where
  "default_components_dir = ''data/components''"

definition wasm_config_default :: wasm_config where
  "wasm_config_default =
     \<lparr>wc_allow_unsigned = False, wc_registry_dir = default_components_dir, wc_trusted_component_hashes = []\<rparr>"

definition policy_config_default :: policy_config where
  "policy_config_default = \<lparr>pl_cca = cca_policy_default, pl_csv = csv_policy_default, pl_tdx = tdx_policy_default\<rparr>"

definition default_hydra_listen :: string where
  "default_hydra_listen = ''127.0.0.1:7001''"

definition default_verifier_data_dir :: string where
  "default_verifier_data_dir = ''workspace-data/verifier''"

definition verifier_hydra_default :: verifier_hydra where
  "verifier_hydra_default =
     \<lparr>vh_listen = default_hydra_listen, vh_data_dir = default_verifier_data_dir, vh_relying_party_addrs = []\<rparr>"

definition wasm_config_of :: "json \<Rightarrow> wasm_config option" where
  "wasm_config_of v =
     Option.bind (table_of [''allow_unsigned'', ''registry_dir'', ''trusted_component_hashes''] v) (\<lambda>f.
     Option.bind (defaulted as_bool False (f ''allow_unsigned'')) (\<lambda>allow.
     Option.bind (defaulted as_str default_components_dir (f ''registry_dir'')) (\<lambda>dir.
     Option.bind (defaulted as_strings [] (f ''trusted_component_hashes'')) (\<lambda>hashes.
     Some \<lparr>wc_allow_unsigned = allow, wc_registry_dir = dir, wc_trusted_component_hashes = hashes\<rparr>))))"

definition ear_config_of :: "json \<Rightarrow> ear_config option" where
  "ear_config_of v =
     Option.bind (table_of [''signing_key_path''] v) (\<lambda>f.
     Option.bind (required as_str (f ''signing_key_path'')) (\<lambda>path.
     Some \<lparr>ec_signing_key_path = path\<rparr>))"

definition cca_policy_of :: "json \<Rightarrow> cca_policy option" where
  "cca_policy_of v =
     Option.bind (table_of [''ta_store'', ''rv_store'', ''trusted_subjects'', ''trusted_rim_hex''] v) (\<lambda>f.
     Option.bind (maybe as_str (f ''ta_store'')) (\<lambda>ta.
     Option.bind (maybe as_str (f ''rv_store'')) (\<lambda>rv.
     Option.bind (defaulted as_strings [] (f ''trusted_subjects'')) (\<lambda>subjects.
     Option.bind (defaulted as_strings [] (f ''trusted_rim_hex'')) (\<lambda>rims.
     Some \<lparr>ta_store = ta, rv_store = rv, trusted_subjects = subjects, trusted_rim_hex = rims\<rparr>)))))"

definition csv_policy_of :: "json \<Rightarrow> csv_policy option" where
  "csv_policy_of v =
     Option.bind (table_of [''enabled'', ''cert_dir'', ''allow_kds_fetch'', ''trusted_chip_ids''] v) (\<lambda>f.
     Option.bind (defaulted as_bool False (f ''enabled'')) (\<lambda>enabled.
     Option.bind (defaulted as_str (cert_dir csv_policy_default) (f ''cert_dir'')) (\<lambda>dir.
     Option.bind (defaulted as_bool False (f ''allow_kds_fetch'')) (\<lambda>kds.
     Option.bind (defaulted as_strings [] (f ''trusted_chip_ids'')) (\<lambda>chips.
     Some \<lparr>csv_enabled = enabled, cert_dir = dir, allow_kds_fetch = kds, trusted_chip_ids = chips\<rparr>)))))"

definition tdx_policy_of :: "json \<Rightarrow> tdx_policy option" where
  "tdx_policy_of v =
     Option.bind (table_of [''pccs_url'', ''trusted_mr_td_hex'', ''trusted_mr_seam_hex'',
       ''trusted_mr_config_id_hex'', ''accept_tcb_status''] v) (\<lambda>f.
     Option.bind (defaulted as_str (pccs_url tdx_policy_default) (f ''pccs_url'')) (\<lambda>url.
     Option.bind (defaulted as_strings [] (f ''trusted_mr_td_hex'')) (\<lambda>td.
     Option.bind (defaulted as_strings [] (f ''trusted_mr_seam_hex'')) (\<lambda>seam.
     Option.bind (defaulted as_strings [] (f ''trusted_mr_config_id_hex'')) (\<lambda>config_id.
     Option.bind (defaulted as_strings [] (f ''accept_tcb_status'')) (\<lambda>tcb.
     Some \<lparr>pccs_url = url, trusted_mr_td_hex = td, trusted_mr_seam_hex = seam,
       trusted_mr_config_id_hex = config_id, accept_tcb_status = tcb\<rparr>))))))"

definition policy_config_of :: "json \<Rightarrow> policy_config option" where
  "policy_config_of v =
     Option.bind (table_of [''cca'', ''csv'', ''tdx''] v) (\<lambda>f.
     Option.bind (defaulted cca_policy_of cca_policy_default (f ''cca'')) (\<lambda>cca.
     Option.bind (defaulted csv_policy_of csv_policy_default (f ''csv'')) (\<lambda>csv.
     Option.bind (defaulted tdx_policy_of tdx_policy_default (f ''tdx'')) (\<lambda>tdx.
     Some \<lparr>pl_cca = cca, pl_csv = csv, pl_tdx = tdx\<rparr>))))"

definition verifier_hydra_of :: "json \<Rightarrow> verifier_hydra option" where
  "verifier_hydra_of v =
     Option.bind (table_of [''listen'', ''data_dir'', ''relying_party_addrs''] v) (\<lambda>f.
     Option.bind (defaulted as_str default_hydra_listen (f ''listen'')) (\<lambda>listen.
     Option.bind (defaulted as_str default_verifier_data_dir (f ''data_dir'')) (\<lambda>dir.
     Option.bind (defaulted as_strings [] (f ''relying_party_addrs'')) (\<lambda>addrs.
     Some \<lparr>vh_listen = listen, vh_data_dir = dir, vh_relying_party_addrs = addrs\<rparr>))))"

definition verifier_config_of :: "json \<Rightarrow> verifier_config option" where
  "verifier_config_of v =
     Option.bind (table_of [''listen'', ''wasm'', ''ear'', ''policy'', ''hydra''] v) (\<lambda>f.
     Option.bind (required as_str (f ''listen'')) (\<lambda>listen.
     Option.bind (defaulted wasm_config_of wasm_config_default (f ''wasm'')) (\<lambda>wasm.
     Option.bind (required ear_config_of (f ''ear'')) (\<lambda>ear.
     Option.bind (defaulted policy_config_of policy_config_default (f ''policy'')) (\<lambda>policy.
     Option.bind (defaulted verifier_hydra_of verifier_hydra_default (f ''hydra'')) (\<lambda>hydra.
     Some \<lparr>vc_listen = listen, vc_wasm = wasm, vc_ear = ear, vc_policy = policy, vc_hydra = hydra\<rparr>))))))"

section \<open>The attester\<close>

record attester_settings =
  ac_listen :: string
  ac_tee_type :: tee_type
  ac_wasm_component_path :: string
  ac_aa_endpoint :: string
  ac_verifier_endpoint :: "string option"
  ac_hydra :: "hydra_config option"

definition default_attester_data_dir :: string where
  "default_attester_data_dir = ''workspace-data/attester''"

definition default_aa_endpoint :: string where
  "default_aa_endpoint = ''http://127.0.0.1:8006''"

definition hydra_config_of :: "json \<Rightarrow> hydra_config option" where
  "hydra_config_of v =
     Option.bind (table_of [''verifier_addr'', ''relying_party_addrs'', ''data_dir''] v) (\<lambda>f.
     Option.bind (required as_str (f ''verifier_addr'')) (\<lambda>addr.
     Option.bind (defaulted as_strings [] (f ''relying_party_addrs'')) (\<lambda>addrs.
     Option.bind (defaulted as_str default_attester_data_dir (f ''data_dir'')) (\<lambda>dir.
     Some \<lparr>hc_verifier_addr = addr, hc_relying_party_addrs = addrs, hc_data_dir = dir\<rparr>))))"

definition deser_tee_type :: "json \<Rightarrow> tee_type option" where
  "deser_tee_type v =
     Option.bind (as_str v) (\<lambda>s. case parse_tee_type s of Inl _ \<Rightarrow> None | Inr tee \<Rightarrow> Some tee)"

definition attester_settings_of :: "json \<Rightarrow> attester_settings option" where
  "attester_settings_of v =
     Option.bind (table_of [''listen'', ''tee_type'', ''wasm_component_path'', ''aa_endpoint'',
       ''verifier_endpoint'', ''hydra''] v) (\<lambda>f.
     Option.bind (required as_str (f ''listen'')) (\<lambda>listen.
     Option.bind (required deser_tee_type (f ''tee_type'')) (\<lambda>tee.
     Option.bind (required as_str (f ''wasm_component_path'')) (\<lambda>wasm.
     Option.bind (defaulted as_str default_aa_endpoint (f ''aa_endpoint'')) (\<lambda>aa.
     Option.bind (maybe as_str (f ''verifier_endpoint'')) (\<lambda>verifier.
     Option.bind (maybe hydra_config_of (f ''hydra'')) (\<lambda>hydra.
     Some \<lparr>ac_listen = listen, ac_tee_type = tee, ac_wasm_component_path = wasm, ac_aa_endpoint = aa,
       ac_verifier_endpoint = verifier, ac_hydra = hydra\<rparr>)))))))"

end
