(* ===== verification/Startup.thy ===== *)
theory Startup
  imports Config GrpcFacts SessionFacts
begin

text \<open>
  The entry points of the three processes, \<^verbatim>\<open>verifier/src/main.rs\<close>, \<^verbatim>\<open>attester/src/main.rs\<close> and
  \<^verbatim>\<open>relying-party/src/main.rs\<close>: what each of them runs, with which configuration, and what a verifier
  that was started from a configuration file trusts.

  \<^item> A process that serves is given by what it serves with; binding the address is not part of it.
  \<^item> A task that is spawned runs beside the process and its failure is only logged: it is given by its
    configuration. What it does is \<open>daemon_start\<close> and \<open>listener_start\<close> of \<open>Restart\<close> and
    \<open>attester_run\<close> of \<open>Session\<close>.
\<close>

text \<open>The crates \<^verbatim>\<open>toml\<close>, \<^verbatim>\<open>wasmtime\<close> and \<^verbatim>\<open>jsonwebtoken\<close>, and the reading of a socket address.\<close>

record ('k, 'addr) platform =
  pf_toml :: "string \<Rightarrow> json option"
  pf_engine :: bool
  pf_ec_pem :: "byte list \<Rightarrow> 'k option"
  pf_jwt_encode :: "'k \<Rightarrow> ear_claims \<Rightarrow> string option"
  pf_addr :: "string \<Rightarrow> 'addr option"

section \<open>The verifier\<close>

definition wasm_host_start :: "('k, 'addr) platform \<Rightarrow> wasm_config \<Rightarrow> ('z disk_scheme, wasm_host) io" where
  "wasm_host_start P cfg d =
     (case create_dir_all (wc_registry_dir cfg) d of
        (d', made) \<Rightarrow> (d', wasm_host_new (made = Inr ()) (pf_engine P) (wc_allow_unsigned cfg)
           (wc_trusted_component_hashes cfg)))"

definition signing_new :: "('k, 'addr) platform \<Rightarrow> ear_config \<Rightarrow> ('z disk_scheme, 'k) io" where
  "signing_new P cfg =
     io_then (io_context ''read signing key'' (read_file (ec_signing_key_path cfg))) (\<lambda>pem.
     io (ok_or ''parse signing key as EC PEM (ES256)'' (pf_ec_pem P pem)))"

text \<open>\<open>std::fs::read_to_string\<close>.\<close>

definition read_text :: "'z disk_scheme \<Rightarrow> string \<Rightarrow> string option" where
  "read_text d path = (case read_file path d of (_, Inr b) \<Rightarrow> from_utf8 b | _ \<Rightarrow> None)"

text \<open>Up to the spawning of the daemon.\<close>

definition verifier_setup where
  "verifier_setup P K path =
     io_then (io_context ''load config'' (config_load (pf_toml P) verifier_config_of path)) (\<lambda>cfg.
     io_then (wasm_host_start P (vc_wasm cfg)) (\<lambda>host.
     io_then (signing_new P (vc_ear cfg)) (\<lambda>signing.
     io_then (\<lambda>d. (d, cca_load K (read_text d) (pl_cca (vc_policy cfg)))) (\<lambda>cca.
     io (Inr (cfg, signing,
       \<lparr>host = host, cca_policy = pl_cca (vc_policy cfg), tdx_policy = pl_tdx (vc_policy cfg),
        cca_verifier = cca, csv_verifier = csv_load (pl_csv (vc_policy cfg))\<rparr>))))))"

definition daemon_config_of :: "verifier_hydra \<Rightarrow> daemon_config" where
  "daemon_config_of h = \<lparr>hd_listen_addr = vh_listen h, hd_relying_party_addrs = vh_relying_party_addrs h,
     hd_data_dir = vh_data_dir h\<rparr>"

text \<open>The disk, the daemon that was spawned, and the key and state the service runs with.\<close>

definition verifier_main where
  "verifier_main P K path d =
     (case verifier_setup P K path d of
        (d', Inl e) \<Rightarrow> (d', None, Inl e)
      | (d', Inr (cfg, signing, st)) \<Rightarrow>
          (d', Some (daemon_config_of (vc_hydra cfg)),
           and_then (ok_or ''parse listen'' (pf_addr P (vc_listen cfg))) (\<lambda>addr. Inr (addr, signing, st))))"

text \<open>The service of a verifier with this key: \<open>SigningContext::sign\<close> is its signing function.\<close>

definition signing_world where
  "signing_world P signing W = W\<lparr>w_sign := pf_jwt_encode P signing\<rparr>"

section \<open>The attester\<close>

datatype attester_command = HydraEvidence "string option" "string list"

record attester_cli =
  ak_config :: string
  ak_command :: "attester_command option"

definition evidence_addrs :: "hydra_config \<Rightarrow> string list \<Rightarrow> string list" where
  "evidence_addrs h rp = (if rp = [] then hc_relying_party_addrs h else rp)"

definition hydra_evidence_command where
  "hydra_evidence_command C G E parties cfg session rp =
     io_then (io (ok_or ''hydra-evidence requires [hydra] section in config'' (ac_hydra cfg))) (\<lambda>h.
     io_then (io (bail_unless (evidence_addrs h rp \<noteq> [])
       ''no relying-party addresses; pass --rp or configure [hydra].relying_party_addrs'')) (\<lambda>_.
     send_evidence_from_session C G E parties (hc_data_dir h) session (evidence_addrs h rp)))"

definition attester_service :: "attester_settings \<Rightarrow> byte list \<Rightarrow> attester_config" where
  "attester_service cfg wasm = \<lparr>at_tee_type = ac_tee_type cfg, at_aa_endpoint = ac_aa_endpoint cfg,
     at_verifier_endpoint = ac_verifier_endpoint cfg, at_wasm_bytes = wasm\<rparr>"

text \<open>The disk, the client task that was spawned, and the service if the process serves.\<close>

definition attester_main where
  "attester_main C G E parties P cli c =
     (case config_load (pf_toml P) attester_settings_of (ak_config cli) c of
        (c', Inl e) \<Rightarrow> (c', None, Inl e)
      | (c', Inr cfg) \<Rightarrow>
          (case ak_command cli of
             Some (HydraEvidence session rp) \<Rightarrow>
               (case hydra_evidence_command C G E parties cfg session rp c' of
                  (c'', r) \<Rightarrow> (c'', None, and_then r (\<lambda>_. Inr None)))
           | None \<Rightarrow>
               (case io_context ''read wasm component'' (read_file (ac_wasm_component_path cfg)) c' of
                  (c'', Inl e) \<Rightarrow> (c'', None, Inl e)
                | (c'', Inr wasm) \<Rightarrow>
                    (c'', ac_hydra cfg,
                     and_then (ok_or ''parse listen addr'' (pf_addr P (ac_listen cfg))) (\<lambda>addr.
                     Inr (Some (addr, attester_service cfg wasm)))))))"

section \<open>The relying party\<close>

record relying_cli = party_cli +
  rl_hydra_serve :: bool
  rl_hydra_listen :: "string option"
  rl_hydra_data_dir :: string

text \<open>The listener that runs, and the attestation unless the process only listens.\<close>

definition relying_party_main where
  "relying_party_main X P d cli =
     (let listener = (\<lambda>addr. \<lparr>hl_listen_addr = addr, hl_data_dir = rl_hydra_data_dir cli\<rparr>) in
      if rl_hydra_serve cli then
        (Some (listener (case rl_hydra_listen cli of Some addr \<Rightarrow> addr | None \<Rightarrow> ''127.0.0.1:7002'')), None)
      else (map_option listener (rl_hydra_listen cli), Some (attest X P d (party_cli.truncate cli))))"

section \<open>What a verifier trusts\<close>

lemma wasm_host_new_Inr_iff:
  "wasm_host_new dir_made engine_made allow hashes = Inr h \<longleftrightarrow>
     dir_made \<and> engine_made \<and> (allow \<or> hashes \<noteq> []) \<and>
     h = \<lparr>allow_unsigned = allow, trusted_hashes = map to_ascii_lowercase hashes\<rparr>"
  by (auto simp: wasm_host_new_def and_then_Inr_iff)

text \<open>A verifier that runs was given a configuration it could read, and its whitelist is the one of the file.\<close>

lemma verifier_main_runs:
  assumes "verifier_main P K path d = (d', spawned, Inr (addr, signing, st))"
  obtains cfg where "config_load (pf_toml P) verifier_config_of path d = (d, Inr cfg)"
    "wc_allow_unsigned (vc_wasm cfg) \<or> wc_trusted_component_hashes (vc_wasm cfg) \<noteq> []"
    "host st = \<lparr>allow_unsigned = wc_allow_unsigned (vc_wasm cfg),
       trusted_hashes = map to_ascii_lowercase (wc_trusted_component_hashes (vc_wasm cfg))\<rparr>"
    "Option.bind (disk.files d (ec_signing_key_path (vc_ear cfg))) (pf_ec_pem P) = Some signing"
proof -
  obtain cfg where ready: "verifier_setup P K path d = (d', Inr (cfg, signing, st))"
    using assms by (auto simp: verifier_main_def and_then_Inr_iff split: prod.splits sum.splits)
  then have load: "config_load (pf_toml P) verifier_config_of path d = (d, Inr cfg)"
    by (auto simp: verifier_setup_def io_then_Inr_iff io_context_Inr_iff config_load_Inr_iff)
  moreover obtain d2 d3 where "wasm_host_start P (vc_wasm cfg) d = (d2, Inr (host st))"
      "signing_new P (vc_ear cfg) d2 = (d3, Inr signing)"
    using ready load by (auto simp: verifier_setup_def io_then_Inr_iff io_context_Inr_iff)
  ultimately show ?thesis
    by (intro that [of cfg])
       (auto simp: wasm_host_start_def wasm_host_new_Inr_iff signing_new_def io_then_Inr_iff io_context_Inr_iff
         create_dir_all_def read_file_def io_def ok_or_def split: prod.splits if_splits option.splits)
qed

lemma register_keeps:
  assumes reg: "registry_ok X compile h reg" and new: "uuid \<notin> set (uuids reg)"
    and run: "register X compile h uuid saved b reg = (reg', r)"
  shows "registry_ok X compile h reg'"
proof -
  obtain reg1 j where begin1: "register_begin X compile h uuid saved b reg = (reg1, j)"
    by (cases "register_begin X compile h uuid saved b reg")
  have first: "registry_ok X compile h reg1 \<and> registration_ok X compile h reg1 j"
    using registration_step_ok [OF registration_runs.intros(1) [OF new begin1] reg] by simp
  show ?thesis
  proof (cases j)
    case (Persisted b' cid c)
    obtain reg2 j2 where commit: "register_commit X b' cid c reg1 = (reg2, j2)"
      by (cases "register_commit X b' cid c reg1")
    have "registry_ok X compile h reg2"
      using registration_step_ok [OF registration_runs.intros(2) [OF commit]] first Persisted by blast
    moreover have "reg' = reg2"
      using run begin1 Persisted commit by (simp add: register_def split: registration.splits)
    ultimately show ?thesis by simp
  qed (use run begin1 first in \<open>simp_all add: register_def\<close>)
qed

lemma resolve_keeps:
  assumes "registry_ok (w_externals W) (w_compile W) (host st) reg" "d_uuid dr \<notin> set (uuids reg)"
    and "resolve_component W st dr req reg = (reg', r)"
  shows "registry_ok (w_externals W) (w_compile W) (host st) reg'"
  using assms by (auto simp: resolve_component_def intro: register_keeps split: option.splits wasm_ref.splits prod.splits)

lemma signing_world_sel [simp]:
  "w_externals (signing_world P k W) = w_externals W" "w_compile (signing_world P k W) = w_compile W"
  "w_run (signing_world P k W) = w_run W" "w_sign (signing_world P k W) = pf_jwt_encode P k"
  by (simp_all add: signing_world_def)

lemma race_keeps:
  "(pool_step (registration_runs X compile h))\<^sup>*\<^sup>* (registry_empty, map Submitted uploads, []) (reg, js, log) \<Longrightarrow>
   registry_ok X compile h reg"
  using requests_run_ok [of X compile h "(registry_empty, map Submitted uploads, [])" "(reg, js, log)"]
  by (auto simp: requests_ok_def registry_ok_def registry_empty_def)

text \<open>
  C7. A verifier started from a configuration file that does not allow unsigned components lists the hash
  of everything that decides. However many uploads raced before the request, and whatever the request
  uploads or names, a result it signs comes from a component compiled from bytes whose SHA-256 is in the
  file's list, upper or lower case; it is signed with the key the file points to, names that component, and
  carries what the component returned for the request's nonce.
\<close>
theorem signed_by_trusted_component:
  fixes W :: "('c, 'ta, 'rv, 'ev, 'w, 'r, 'ca, 'cs) world"
  assumes start: "verifier_main P K path d = (d', spawned, Inr (addr, signing, st))"
    and cfg: "config_load (pf_toml P) verifier_config_of path d = (d, Inr cfg)" "\<not> wc_allow_unsigned (vc_wasm cfg)"
    and race: "(pool_step (registration_runs (w_externals W) (w_compile W) (host st)))\<^sup>*\<^sup>*
        (registry_empty, map Submitted uploads, []) (reg, js, log)"
    and fresh: "d_uuid dr \<notin> set (uuids reg)"
    and result: "verify (signing_world P signing W) st dr req reg = (reg', Inr (ear, cid))"
  shows "Option.bind (disk.files d (ec_signing_key_path (vc_ear cfg))) (pf_ec_pem P) = Some signing \<and>
   (\<exists>bytes component claims evidence ini raw.
     (\<exists>h\<in>set (wc_trusted_component_hashes (vc_wasm cfg)). to_ascii_lowercase h = sha256_hex (w_externals W) bytes) \<and>
     w_compile W bytes = Some component \<and> compiled reg' cid = Some component \<and>
     w_run W component evidence (Some (rq_nonce req)) ini = Some raw \<and>
     pf_jwt_encode P signing claims = Some ear \<and> ear_component_id claims = cid \<and>
     from_slice (w_externals W) (bytes_of raw) = Some (submods claims))"
proof -
  let ?W = "signing_world P signing W" and ?X = "w_externals W"
  have h: "allow_unsigned (host st) = False"
    "trusted_hashes (host st) = map to_ascii_lowercase (wc_trusted_component_hashes (vc_wasm cfg))"
    and key: "Option.bind (disk.files d (ec_signing_key_path (vc_ear cfg))) (pf_ec_pem P) = Some signing"
    using verifier_main_runs [OF start] cfg by (metis Pair_inject sum.inject(2) wasm_host.select_convs)+
  obtain tee evidence lifecycle component raw claims where r:
    "resolve_component ?W st dr req reg = (reg', Inr cid)" "compiled reg' cid = Some component"
    "w_run ?W component evidence (Some (rq_nonce req)) (expected_init ?W st tee) = Some raw"
    "from_slice (w_externals ?W) (bytes_of raw) = Some claims"
    "w_sign ?W (issue_ear ?W dr tee (rq_nonce req) lifecycle cid claims) = Some ear"
    using result by (rule verify_ok)
  have ok: "registry_ok ?X (w_compile W) (host st) reg'"
    using resolve_keeps [of ?W st reg dr, OF _ fresh r(1)] race_keeps [OF race] by simp
  then have "compiled reg' cid = None \<longleftrightarrow> by_id reg' cid = None" by (simp add: registry_ok_def)
  then obtain sha where "by_id reg' cid = Some sha" using r(2) by auto
  then have "entry_ok ?X (w_compile W) (host st) reg' cid sha" using ok by (simp add: registry_ok_def)
  then obtain bytes where "sha256_hex ?X bytes = sha" "w_compile W bytes = Some component"
      "\<exists>h\<in>set (wc_trusted_component_hashes (vc_wasm cfg)). to_ascii_lowercase h = sha"
    using r(2) h by (auto simp: entry_ok_def hash_allowed_def)
  then show ?thesis
    using r key by (intro conjI exI [of _ bytes] exI [of _ component]
      exI [of _ "issue_ear ?W dr tee (rq_nonce req) lifecycle cid claims"] exI) (auto simp: issue_ear_def)
qed

definition toy_document :: json where
  "toy_document = JObj [(''listen'', JStr ''a''), (''tee_type'', JStr ''mock''), (''wasm_component_path'', JStr ''k''),
     (''wasm'', JObj [(''trusted_component_hashes'', JArr [JStr ''AB''])]), (''ear'', JObj [(''signing_key_path'', JStr ''k'')])]"

definition toy_platform :: "(byte list, string) platform" where
  "toy_platform = \<lparr>pf_toml = (\<lambda>raw. Some toy_document), pf_engine = True, pf_ec_pem = Some,
     pf_jwt_encode = (\<lambda>k c. Some (string_of k @ eat_nonce c)), pf_addr = Some\<rparr>"

definition toy_disk :: disk where
  "toy_disk = \<lparr>files = [''v'' \<mapsto> [], ''k'' \<mapsto> toy_upload], dirs = [], denied = [], room = Map.empty\<rparr>"

definition toy_config :: verifier_config where
  "toy_config = \<lparr>vc_listen = ''a'', vc_wasm = wasm_config_default\<lparr>wc_trusted_component_hashes := [''AB'']\<rparr>,
     vc_ear = \<lparr>ec_signing_key_path = ''k''\<rparr>, vc_policy = policy_config_default, vc_hydra = verifier_hydra_default\<rparr>"

definition toy_started :: "(nat, nat) app_state" where
  "toy_started = \<lparr>host = toy_host, cca_policy = cca_policy_default, tdx_policy = tdx_policy_default,
     cca_verifier = None, csv_verifier = None\<rparr>"

definition toy_passed :: json where
  "toy_passed = JObj [(''tee_type'', JStr ''mock''), (''verification'', JStr ''passed'')]"

definition toy_mock_world where
  "toy_mock_world = toy_world (\<lambda>c b rd ini. Some (to_string toy_json toy_passed)) toy_csv"

definition toy_mock_request :: verify_request where
  "toy_mock_request = \<lparr>rq_tee_type = 1, rq_nonce = bytes_of ''ab'', rq_evidence = [],
     rq_wasm = Some (WasmComponent toy_upload)\<rparr>"

lemma toy_config_loads: "config_load (pf_toml toy_platform) verifier_config_of ''v'' toy_disk = (toy_disk, Inr toy_config)"
  by (simp add: config_load_Inr_iff toy_disk_def toy_platform_def from_utf8_def valid_utf8.simps)
     (simp add: toy_document_def toy_config_def verifier_config_of_def wasm_config_of_def ear_config_of_def
       wasm_config_default_def as_strings_def required_def)

lemma toy_lower: "to_ascii_lowercase ''AB'' = ''ab''"
  by code_simp

lemma toy_verifier_starts:
  "\<exists>d' spawned. verifier_main toy_platform toy_ccatoken ''v'' toy_disk = (d', spawned, Inr (''a'', toy_upload, toy_started))"
  using toy_config_loads toy_lower
  by (simp add: verifier_main_def verifier_setup_def io_then_def io_context_def)
     (simp add: toy_platform_def toy_config_def wasm_host_start_def wasm_config_default_def default_components_dir_def
       toy_disk_def create_dir_all_def wasm_host_new_def signing_new_def io_then_def io_context_def read_file_def
       policy_config_default_def cca_policy_default_def cca_load_def csv_load_def csv_policy_default_def
       toy_started_def toy_host_def)

lemma toy_mock_result:
  "\<exists>reg'. verify (signing_world toy_platform toy_upload toy_mock_world) toy_started toy_call toy_mock_request registry_empty =
     (reg', Inr (''abcab'', ''u''))"
proof -
  let ?W = "signing_world toy_platform toy_upload toy_mock_world"
  have sha: "sha256_hex toy_json toy_upload = ''ab''"
    using toy_sha by (simp add: sha256_hex_def toy_ext_def)
  have W: "w_externals toy_mock_world = toy_json" "w_compile toy_mock_world = (\<lambda>b. Some ())"
    "w_run toy_mock_world = (\<lambda>c b rd ini. Some (to_string toy_json toy_passed))"
    "pf_jwt_encode toy_platform toy_upload c = Some (''abc'' @ eat_nonce c)" for c
    by (simp_all add: toy_mock_world_def toy_world_def toy_platform_def toy_upload_def)
  have tee: "check_request toy_mock_request = Inr Mock"
    by (simp add: check_request_ok toy_mock_request_def tee_of_i32_def bytes_of_def)
  obtain reg' where reg: "resolve_component ?W toy_started toy_call toy_mock_request registry_empty = (reg', Inr ''u'')"
      "compiled reg' ''u'' = Some ()"
    by (simp add: resolve_component_def toy_mock_request_def W register_def register_begin_def register_commit_def sha
        toy_started_def toy_host_def registry_empty_def toy_call_def Let_def)
  have vok: "value_ok toy_passed" by (simp add: toy_passed_def value_ok_JObj)
  have fields: "json_get ''error'' toy_passed = None" "get_str ''verification'' toy_passed = Some ''passed''"
    "get_str ''tee_type'' toy_passed = Some ''mock''"
    by (simp_all add: toy_passed_def get_str_def)
  have "evaluate toy_json (w_run ?W) reg' ''u'' b rd ini = Inr (''u'', toy_passed)" for b rd ini
    using vok fields reg by (auto simp: evaluate_Inr_iff W to_string_def)
  then show ?thesis
    using reg fields
    by (simp add: verify_def tee evidence_for_wasm_def W enforce_policy_def issue_ear_def)
       (simp add: toy_mock_request_def)
qed

theorem signed_by_trusted_component_witness:
  "\<exists>bytes claims. to_ascii_lowercase ''AB'' = sha256_hex toy_json bytes \<and>
     w_run toy_mock_world () [] (Some (bytes_of ''ab'')) None = Some (to_string toy_json toy_passed) \<and>
     pf_jwt_encode toy_platform toy_upload claims = Some ''abcab'' \<and> ear_component_id claims = ''u''"
proof -
  obtain d' spawned where start: "verifier_main toy_platform toy_ccatoken ''v'' toy_disk =
      (d', spawned, Inr (''a'', toy_upload, toy_started))" using toy_verifier_starts by blast
  obtain reg' where result: "verify (signing_world toy_platform toy_upload toy_mock_world) toy_started toy_call
      toy_mock_request registry_empty = (reg', Inr (''abcab'', ''u''))" using toy_mock_result by blast
  have list: "\<not> wc_allow_unsigned (vc_wasm toy_config)" "wc_trusted_component_hashes (vc_wasm toy_config) = [''AB'']"
    by (simp_all add: toy_config_def wasm_config_default_def)
  have fresh: "d_uuid toy_call \<notin> set (uuids registry_empty)" by (simp add: registry_empty_def)
  have W: "w_externals toy_mock_world = toy_json" "w_run toy_mock_world = (\<lambda>c b rd ini. Some (to_string toy_json toy_passed))"
    by (simp_all add: toy_mock_world_def toy_world_def)
  show ?thesis
    using signed_by_trusted_component [OF start toy_config_loads list(1) _ fresh result, of "[]" "[]" "[]"]
    by (auto simp: list W)
qed

section \<open>A deployment whose files agree\<close>

lemma attester_main_serves:
  assumes "attester_main C G E parties P cli c = (c', spawned, Inr (Some (addr, svc)))"
  obtains cfg wasm where "config_load (pf_toml P) attester_settings_of (ak_config cli) c = (c, Inr cfg)"
    "disk.files c (ac_wasm_component_path cfg) = Some wasm" "svc = attester_service cfg wasm" "spawned = ac_hydra cfg"
proof -
  obtain c1 cfg where load: "config_load (pf_toml P) attester_settings_of (ak_config cli) c = (c1, Inr cfg)"
    using assms by (auto simp: attester_main_def split: prod.splits sum.splits)
  then have c1: "c1 = c" by (simp add: config_load_Inr_iff)
  have "ak_command cli = None"
    using assms load by (auto simp: attester_main_def and_then_Inr_iff split: prod.splits option.splits attester_command.splits)
  then obtain c2 wasm where r: "io_context ''read wasm component'' (read_file (ac_wasm_component_path cfg)) c = (c2, Inr wasm)"
    "svc = attester_service cfg wasm" "spawned = ac_hydra cfg"
    using assms load c1 by (auto simp: attester_main_def and_then_Inr_iff split: prod.splits sum.splits)
  then show ?thesis
    using load c1 by (intro that [of cfg wasm]) (auto simp: io_context_Inr_iff read_file_def ok_or_def split: option.splits)
qed

lemma register_succeeds:
  assumes reg: "registry_ok X compile h reg" and new: "uuid \<notin> set (uuids reg)"
    and allowed: "hash_allowed h (sha256_hex X b)" "compile b = Some c"
  obtains reg' cid where "register X compile h uuid True b reg = (reg', Inr cid)" "by_hash reg' (sha256_hex X b) = Some cid"
proof (cases "by_hash reg (sha256_hex X b)")
  case None
  then show ?thesis
    using allowed by (auto simp: register_def register_begin_def register_commit_def hash_allowed_def Let_def intro: that)
next
  case (Some cid)
  then show ?thesis
    using allowed by (intro that [of reg cid]) (auto simp: register_def register_begin_def hash_allowed_def Let_def)
qed

text \<open>
  C8. A deployment whose two configuration files agree works. When the hash of the file the attester is
  configured with is in the verifier's list, the attester sends what is in that file, and the verifier
  accepts it as a component in every state racing uploads can lead to, provided it compiles and can be
  written to the registry: the identifier it gives is that of a component compiled from bytes of the
  same hash, and without a collision from this very file.
\<close>
theorem configured_component_registers:
  fixes W :: "('c, 'ta, 'rv, 'ev, 'w, 'r, 'ca, 'cs) world"
  assumes verifier: "verifier_main P K path d = (d', spawned, Inr (addr, signing, st))"
      "config_load (pf_toml P) verifier_config_of path d = (d, Inr cfg)"
    and attester: "attester_main C G E parties P' cli c = (c', spawned', Inr (Some (addr', svc)))"
      "config_load (pf_toml P') attester_settings_of (ak_config cli) c = (c, Inr settings)"
    and listed: "disk.files c (ac_wasm_component_path settings) = Some wasm"
      "h \<in> set (wc_trusted_component_hashes (vc_wasm cfg))" "to_ascii_lowercase h = sha256_hex (w_externals W) wasm"
    and compiles: "w_compile W wasm = Some component" "d_saved dr"
    and race: "(pool_step (registration_runs (w_externals W) (w_compile W) (host st)))\<^sup>*\<^sup>*
        (registry_empty, map Submitted uploads, []) (reg, js, log)" "d_uuid dr \<notin> set (uuids reg)"
    and upload: "rq_wasm req = Some (WasmComponent (at_wasm_bytes svc))"
  shows "\<exists>reg' cid bytes component'.
    resolve_component (signing_world P signing W) st dr req reg = (reg', Inr cid) \<and>
    compiled reg' cid = Some component' \<and> w_compile W bytes = Some component' \<and>
    sha256_hex (w_externals W) bytes = sha256_hex (w_externals W) wasm \<and>
    (inj_on (sha256_hex (w_externals W)) {bytes, wasm} \<longrightarrow> component' = component)"
proof -
  let ?X = "w_externals W"
  obtain settings' wasm' where served: "config_load (pf_toml P') attester_settings_of (ak_config cli) c = (c, Inr settings')"
      "disk.files c (ac_wasm_component_path settings') = Some wasm'" "svc = attester_service settings' wasm'"
    using attester(1) by (rule attester_main_serves)
  then have bytes: "at_wasm_bytes svc = wasm"
    using attester(2) listed(1) by (simp add: attester_service_def)
  have allowed: "hash_allowed (host st) (sha256_hex ?X wasm)"
  proof -
    obtain cfg' where "config_load (pf_toml P) verifier_config_of path d = (d, Inr cfg')"
        "trusted_hashes (host st) = map to_ascii_lowercase (wc_trusted_component_hashes (vc_wasm cfg'))"
      using verifier_main_runs [OF verifier(1)] by (metis wasm_host.select_convs(2))
    then show ?thesis using verifier(2) listed(2,3) by (auto simp: hash_allowed_def intro: rev_image_eqI)
  qed
  note ok = race_keeps [OF race(1)]
  obtain reg' cid where r: "register ?X (w_compile W) (host st) (d_uuid dr) True wasm reg = (reg', Inr cid)"
      "by_hash reg' (sha256_hex ?X wasm) = Some cid"
    using ok race(2) allowed compiles(1) by (rule register_succeeds)
  have ok': "registry_ok ?X (w_compile W) (host st) reg'" using ok race(2) r(1) by (rule register_keeps)
  then have "by_id reg' cid = Some (sha256_hex ?X wasm)" using r(2) by (simp add: registry_ok_def)
  then have "entry_ok ?X (w_compile W) (host st) reg' cid (sha256_hex ?X wasm)" using ok' by (simp add: registry_ok_def)
  then obtain b component' where b: "sha256_hex ?X b = sha256_hex ?X wasm" "w_compile W b = Some component'"
      "compiled reg' cid = Some component'"
    by (auto simp: entry_ok_def)
  have "resolve_component (signing_world P signing W) st dr req reg = (reg', Inr cid)"
    using r(1) compiles(2) by (simp add: resolve_component_def upload bytes)
  moreover have "component' = component" if "inj_on (sha256_hex ?X) {b, wasm}"
    using that b compiles(1) by (auto dest: inj_onD)
  ultimately show ?thesis using b by blast
qed

definition toy_attester_cli :: attester_cli where
  "toy_attester_cli = \<lparr>ak_config = ''v'', ak_command = None\<rparr>"

definition toy_client :: client where
  "toy_client = disk.extend toy_disk \<lparr>sent = [], acks = []\<rparr>"

definition toy_settings :: attester_settings where
  "toy_settings = \<lparr>ac_listen = ''a'', ac_tee_type = Mock, ac_wasm_component_path = ''k'',
     ac_aa_endpoint = default_aa_endpoint, ac_verifier_endpoint = None, ac_hydra = None\<rparr>"

lemma toy_settings_load:
  "config_load (pf_toml toy_platform) attester_settings_of (ak_config toy_attester_cli) toy_client = (toy_client, Inr toy_settings)"
  by (simp add: config_load_Inr_iff toy_client_def toy_disk_def disk.defs toy_platform_def toy_attester_cli_def
      from_utf8_def valid_utf8.simps)
     (simp add: toy_document_def toy_settings_def attester_settings_of_def deser_tee_type_def parse_tee_type_def
       tee_names_def maybe_def required_def)

lemma toy_attester_serves:
  "attester_main C G E parties toy_platform toy_attester_cli toy_client =
     (toy_client, None, Inr (Some (''a'', attester_service toy_settings toy_upload)))"
  using toy_settings_load
  by (simp add: attester_main_def)
     (simp add: toy_attester_cli_def toy_settings_def toy_client_def toy_disk_def disk.defs io_context_def read_file_def toy_platform_def)

theorem configured_component_registers_witness:
  "\<exists>reg' cid. resolve_component (signing_world toy_platform toy_upload toy_mock_world) toy_started toy_call
     toy_mock_request registry_empty = (reg', Inr cid) \<and> compiled reg' cid = Some ()"
proof -
  obtain d' spawned where start: "verifier_main toy_platform toy_ccatoken ''v'' toy_disk =
      (d', spawned, Inr (''a'', toy_upload, toy_started))" using toy_verifier_starts by blast
  have sha: "to_ascii_lowercase ''AB'' = sha256_hex (w_externals toy_mock_world) toy_upload"
    using toy_sha toy_lower by (simp add: toy_mock_world_def toy_world_def sha256_hex_def toy_ext_def)
  have data: "disk.files toy_client (ac_wasm_component_path toy_settings) = Some toy_upload"
    "''AB'' \<in> set (wc_trusted_component_hashes (vc_wasm toy_config))"
    "w_compile toy_mock_world toy_upload = Some ()" "d_saved toy_call"
    "rq_wasm toy_mock_request = Some (WasmComponent (at_wasm_bytes (attester_service toy_settings toy_upload)))"
    "d_uuid toy_call \<notin> set (uuids registry_empty)"
    by (simp_all add: toy_client_def toy_disk_def disk.defs toy_settings_def toy_config_def wasm_config_default_def
        toy_mock_world_def toy_world_def toy_call_def toy_mock_request_def attester_service_def registry_empty_def)
  show ?thesis
    using configured_component_registers [OF start toy_config_loads
        toy_attester_serves [of toy_crypto toy_groth "toy_env (Duration 100 5)" "\<lambda>_. None"] toy_settings_load
        data(1,2) sha data(3,4) _ data(6,5), of "[]" "[]" "[]"]
    by auto
qed

end
