(* ===== verification/Ccel.thy ===== *)
theory Ccel
  imports EventLog
begin

text \<open>
  Finding the event log on the machine, \<^verbatim>\<open>evidence-verify/src/eventlog_rs/read.rs\<close>: the log the firmware
  exports as a file or, without that file, the part of the guest's memory its ACPI table points to.

  The files are a record of functions. \<open>ms_memory lasa n\<close> is what one read of at most \<open>n\<close> bytes at the
  address \<open>lasa\<close> of the memory device gives; it may be shorter.
\<close>

record machine_files =
  ms_exists :: "string \<Rightarrow> bool"
  ms_read :: "string \<Rightarrow> byte list option"
  ms_open :: "string \<Rightarrow> bool"
  ms_seek :: "u64 \<Rightarrow> bool"
  ms_memory :: "u64 \<Rightarrow> nat \<Rightarrow> byte list option"

definition CCEL_PATH :: string where "CCEL_PATH = ''/sys/firmware/acpi/tables/data/CCEL''"

definition CCEL_ACPI_DESCRIPTION :: string where "CCEL_ACPI_DESCRIPTION = ''/sys/firmware/acpi/tables/CCEL''"

definition GUEST_MEMORY :: string where "GUEST_MEMORY = ''/dev/mem''"

definition CCEL_SIGNATURE :: "byte list" where "CCEL_SIGNATURE = bytes_of ''CCEL''"

text \<open>The checks of the table: the length and the address of the log in memory.\<close>

definition ccel_table :: "byte list \<Rightarrow> (u64 \<times> u64) res" where
  "ccel_table description =
     and_then (bail_unless (56 \<le> length description) ''invalid CCEL ACPI description'') (\<lambda>_.
     and_then (le_u32 description 0) (\<lambda>signature.
     and_then (le_u32 description 4) (\<lambda>len.
     and_then (le_u32 description 36) (\<lambda>rsv.
     and_then (le_u64 description 40) (\<lambda>laml.
     and_then (le_u64 description 48) (\<lambda>lasa.
     and_then (bail_unless (signature = u32_of_le CCEL_SIGNATURE)
       ''invalid CCEL ACPI table: wrong CCEL signature'') (\<lambda>_.
     and_then (bail_unless (rsv = 0) ''invalid CCEL ACPI table: RSV must be 0'') (\<lambda>_.
     and_then (bail_unless (len = of_nat (length description))
       ''invalid CCEL ACPI table: header length not match'') (\<lambda>_.
     Inr (laml, lasa))))))))))"

text \<open>\<open>vec![0; laml]\<close>, one read into it, and the buffer as it then is.\<close>

definition read_ccel :: "machine_files \<Rightarrow> byte list res" where
  "read_ccel M =
     (if ms_exists M CCEL_PATH then ok_or ''read'' (ms_read M CCEL_PATH) else
     and_then (ok_or ''ccel description does not exist'' (ms_read M CCEL_ACPI_DESCRIPTION)) (\<lambda>description.
     and_then (ccel_table description) (\<lambda>(laml, lasa).
     and_then (bail_unless (ms_open M GUEST_MEMORY) ''open'') (\<lambda>_.
     and_then (bail_unless (ms_seek M lasa) ''seek'') (\<lambda>_.
     and_then (alloc 1 (unat laml)) (\<lambda>_.
     and_then (ok_or ''read'' (ms_memory M lasa (unat laml))) (\<lambda>got.
     and_then (bail_unless (got \<noteq> []) ''read CCEL failed'') (\<lambda>_.
     Inr (got @ replicate (unat laml - length got) 0)))))))))"

text \<open>A table is never the cause of a panic, and one that is accepted has the layout of the comment.\<close>

lemma calm_ccel_table: "calm (ccel_table description)"
  by (cases "56 \<le> length description")
     (simp_all add: ccel_table_def le_u32_def le_u64_def bail_unless_def calm_def)

lemma ccel_table_layout:
  assumes "ccel_table description = Inr (laml, lasa)"
  shows "56 \<le> length description \<and> take 4 description = CCEL_SIGNATURE \<and>
    laml = u64_of_be (rev (take 8 (drop 40 description))) \<and> lasa = u64_of_be (rev (take 8 (drop 48 description))) \<and>
    u32_of_le (take 4 (drop 4 description)) = of_nat (length description)"
proof -
  have len: "56 \<le> length description" using assms by (simp add: ccel_table_def and_then_Inr_iff)
  then have "u32_of_le (take 4 description) = u32_of_le CCEL_SIGNATURE"
    and rest: "laml = u64_of_be (rev (take 8 (drop 40 description)))" "lasa = u64_of_be (rev (take 8 (drop 48 description)))"
      "u32_of_le (take 4 (drop 4 description)) = of_nat (length description)"
    using assms by (simp_all add: ccel_table_def le_u32_def le_u64_def and_then_Inr_iff)
  then have "u32_le (u32_of_le (take 4 description)) = u32_le (u32_of_le CCEL_SIGNATURE)" by simp
  then have "take 4 description = CCEL_SIGNATURE"
    using len by (simp add: u32_le_of_le CCEL_SIGNATURE_def)
  with len rest show ?thesis by simp
qed

text \<open>
  A log from memory has the length the table announces, and starts with what the read returned; after
  a read that came back short the rest of it is zero.
\<close>

lemma read_ccel_from_memory:
  assumes "\<not> ms_exists M CCEL_PATH" "read_ccel M = Inr ccel"
    and short: "\<And>a n got. ms_memory M a n = Some got \<Longrightarrow> length got \<le> n"
  obtains description laml lasa got where "ms_read M CCEL_ACPI_DESCRIPTION = Some description"
    "ccel_table description = Inr (laml, lasa)" "ms_memory M lasa (unat laml) = Some got" "got \<noteq> []"
    "length ccel = unat laml" "take (length got) ccel = got" "set (drop (length got) ccel) \<subseteq> {0}"
proof -
  obtain description laml lasa got where r: "ms_read M CCEL_ACPI_DESCRIPTION = Some description"
    "ccel_table description = Inr (laml, lasa)" "ms_memory M lasa (unat laml) = Some got" "got \<noteq> []"
    "ccel = got @ replicate (unat laml - length got) 0"
    using assms(1,2) by (auto simp: read_ccel_def and_then_Inr_iff)
  then show ?thesis using short [OF r(3)] by (intro that [OF r(1-4)]) auto
qed

end
