(* ===== verification/Spec2Isabelle.thy ===== *)
theory Spec2Isabelle
  imports Accumulator WireFacts RelyingParty DaemonProps DaemonRuns SessionFacts Restart HonestAttestation EventLogFacts OfflineFacts Startup Ccel
begin

text \<open>
  A model of the Rust workspace of this repository (unified attestation) and what it satisfies.

  The program. An attester shows evidence of the hardware it runs on; a verifier appraises it; a
  relying party decides. Two protocols share the three processes. In the gRPC protocol the verifier
  checks the evidence of one TEE, runs a wasm component on it and signs a result. In the hydra protocol
  attesters submit measurements, the verifier keeps their leaves in an append-only accumulator and
  answers each with its path, and an attester proves membership to a relying party in zero knowledge.
  A third crate verifies evidence files offline.

  Conventions (\<open>Prelude\<close>, \<open>Tasks\<close>, \<open>Bytes\<close>, \<open>Json\<close>). A fallible call returns a \<open>res\<close>: \<open>Inl (Err m)\<close> is
  the error of the source, \<open>Inl (Panic m)\<close> a panic, which no error handling catches; \<open>calm\<close> is a call
  that does not panic. Words keep their width. Third-party crates are records of functions (\<open>crypto\<close>,
  \<open>externals\<close>, \<open>openssl\<close>, \<open>cose_ssl\<close>, \<open>ccatoken\<close>, \<open>csv_rs\<close>, \<open>dcap\<close>, \<open>ima_crate\<close>, \<open>ciborium\<close>), and what is
  assumed of them is a named predicate with a concrete instance (\<open>toy_crypto\<close>, \<open>toy_json\<close> and others)
  that satisfies it. Clocks, random draws, files and sockets are arguments.

  The shrubs accumulator, \<^verbatim>\<open>hydra-toolkit/src/shurbstree.rs\<close>:
  \<^item> \<open>Shrubs\<close>: building a forest and inserting a batch; \<open>ShrubsPath\<close>: the root that owns a leaf, the leaves
    a batch affects, and paths. \<open>Accumulator\<close>: an insertion equals a rebuild, paths are exact and fold to
    a root, and unaffected paths stay valid.

  The hydra protocol:
  \<^item> \<open>Codec\<close>, \<open>Crypto\<close>, \<open>Wire\<close> (\<^verbatim>\<open>hydra-toolkit/src/lib.rs\<close>): primitives, messages, encryption, frames;
    \<open>WireFacts\<close>: round trips, and what an accepted submission proves.
  \<^item> \<open>Evidence\<close> (\<^verbatim>\<open>attester/src/lib.rs\<close>, \<^verbatim>\<open>verifier/src/lib.rs\<close>): leaves, authorizations, the circuit.
  \<^item> \<open>RelyingParty\<close> (\<^verbatim>\<open>relying-party/src/lib.rs\<close>, \<^verbatim>\<open>hydra_listener.rs\<close>): the checks behind an acknowledgement.
  \<^item> \<open>HydraDaemon\<close> (\<^verbatim>\<open>verifier/src/hydra_daemon.rs\<close>), \<open>DaemonFacts\<close>, \<open>DaemonProps\<close>: batches one at a time;
    \<open>DaemonSteps\<close>, \<open>DaemonRuns\<close>: every interleaving of submissions, timers, stores and sends, as tasks under
    the locale of \<open>Tasks\<close>: invariants and termination.
  \<^item> \<open>EndToEnd\<close>: an honest attester is accepted. \<open>Disk\<close>: the files and the functions that save and load them;
    \<open>Session\<close> (\<^verbatim>\<open>attester/src/hydra_client.rs\<close>): the attester's task and its evidence command, with
    \<open>SessionFacts\<close>: evidence from a refreshed session is accepted; \<open>Restart\<close>: the start of the daemon and of the
    listener, the listener's connections as concurrent tasks over its file and its memory, and what a restart
    keeps.

  The gRPC protocol:
  \<^item> \<open>WasmHost\<close> (\<^verbatim>\<open>verifier/src/wasm_host.rs\<close>): racing registrations; \<open>Natives\<close> (\<^verbatim>\<open>cca_native.rs\<close>,
    \<^verbatim>\<open>csv_native.rs\<close>, \<^verbatim>\<open>itrustee_native.rs\<close>, \<^verbatim>\<open>virtcca_native.rs\<close>, \<^verbatim>\<open>config.rs\<close>); \<open>Appraisers\<close>
    (\<^verbatim>\<open>appraisers/*/src/lib.rs\<close>); \<open>Grpc\<close> (\<^verbatim>\<open>grpc.rs\<close>, \<^verbatim>\<open>ear.rs\<close>). \<open>GrpcFacts\<close>: what a signed result rests on
    for each TEE, with \<open>JsonInstance\<close> for the witnesses.
  \<^item> \<open>Attestation\<close> (\<^verbatim>\<open>attester/src/main.rs\<close>, \<^verbatim>\<open>evidence.rs\<close>, \<^verbatim>\<open>relying-party/src/main.rs\<close>): the attester's service
    and the relying party's run. \<open>AttestationFacts\<close>: what an accepted run shows against an adversary on the
    connections, and what a passport run does not; \<open>HonestAttestation\<close>: an honest deployment is accepted.
  \<^item> \<open>Config\<close> (\<^verbatim>\<open>verifier/src/config.rs\<close>, \<^verbatim>\<open>attester/src/config.rs\<close>): the configuration files; \<open>Startup\<close> (the three
    \<^verbatim>\<open>main.rs\<close>): what each process loads, spawns and serves with, what a verifier started from a file trusts, and that
    a deployment whose files agree works.

  The offline verifier, \<^verbatim>\<open>evidence-verify/src\<close>:
  \<^item> \<open>CsvReport\<close>, \<open>HygonCsv\<close>, \<open>HygonCsvFacts\<close> (\<^verbatim>\<open>csv\<close>); \<open>EventLog\<close>, \<open>EventLogFacts\<close>, \<open>Ccel\<close> (\<^verbatim>\<open>eventlog_rs\<close>,
    \<^verbatim>\<open>virtcca/event_log.rs\<close>); \<open>Ima\<close> (\<^verbatim>\<open>ima\<close>); \<open>CcaToken\<close>, \<open>Virtcca\<close>, \<open>VirtccaFacts\<close> (\<^verbatim>\<open>virtcca\<close>);
    \<open>Itrustee\<close> (\<^verbatim>\<open>itrustee\<close>); \<open>OfflineVerify\<close> (\<^verbatim>\<open>lib.rs\<close>, \<^verbatim>\<open>main.rs\<close>): the choice of the verifier.
  \<^item> \<open>TeeEvidence\<close> (\<^verbatim>\<open>tee-evidence/src\<close>): collecting evidence on the machine. \<open>OfflineFacts\<close>: from the machine to
    the verdict.

  Bounds. A length is a \<open>nat\<close> where the source only compares or indexes with it; an allocation above
  \<open>isize::MAX\<close> panics (\<open>alloc\<close>), a smaller one succeeds: running out of memory is not modelled. Where a
  property prints and parses JSON it assumes that the printer's text is read back (\<open>printer_ok\<close>,
  \<open>doc_printer_ok\<close>), which leaves out the number range and the nesting limit of the parser. Loops are
  structural or come with a measure; no fuel is used.

  Not modelled: logging, the sockets and accept loops of the servers, the TOML reader (a parameter of \<open>Config\<close>), the C code and the foreign
  functions of the TEE devices (parameters of \<open>TeeEvidence\<close> and \<open>Itrustee\<close>), the Poseidon parameters, and the text of log lines and of
  the formatted part of error messages.
\<close>

end
